theory Spec2Isabelle
  imports Complex_Main
begin

section \<open>The EPKE solver (src/epke/epke_solver.cpp)\<close>

text \<open>
  A shallow embedding of \<^verbatim>\<open>epke::Solver\<close>. A \<^verbatim>\<open>double\<close> is a value of a type \<open>'d\<close> of
  which nothing is known but the operations that the source applies to it. The
  operators \<^verbatim>\<open>+\<close>, \<^verbatim>\<open>-\<close>, \<^verbatim>\<open>*\<close>, \<^verbatim>\<open>/\<close>, unary \<^verbatim>\<open>-\<close>, \<^verbatim>\<open><\<close>, \<^verbatim>\<open><=\<close> and the constants
  \<^verbatim>\<open>0.0\<close> and \<^verbatim>\<open>1.0\<close> are those of HOL's syntactic type classes, which state no law;
  \<^verbatim>\<open>==\<close>, the functions of \<^verbatim>\<open><cmath>\<close> and the conversion of an integer literal
  are fields of the record \<open>lib\<close> below. So no property below uses a law of
  arithmetic: each holds for IEEE 754 arithmetic with its rounding, underflow,
  infinities and NaN, and a branch is taken here exactly when the comparison of the
  doubles in the source is true (a NaN coefficient fails \<^verbatim>\<open>a < 0\<close> and \<^verbatim>\<open>a == 0\<close>,
  whatever produced it). Indices are \<open>int\<close>, as the loop variables of the source
  are, so that \<open>n - 1\<close> at \<open>n = 0\<close> is an index outside every vector (whether the
  index type of the missing header is signed or not, \<^verbatim>\<open>at\<close> refuses it).
\<close>

subsection \<open>Failures\<close>

text \<open>
  \<open>OutOfRange\<close> is \<^verbatim>\<open>std::out_of_range\<close>, thrown by \<^verbatim>\<open>vector::at\<close>.
  \<open>Terminate\<close> is the bare \<^verbatim>\<open>throw;\<close> of \<^verbatim>\<open>computeABC\<close>: with no exception being
  handled it calls \<^verbatim>\<open>std::terminate\<close>, and carries no value.
  \<open>UndefinedBehaviour\<close> is a store through \<^verbatim>\<open>operator[]\<close> outside the vector.
\<close>

datatype error = OutOfRange | Terminate | UndefinedBehaviour

definition bindE :: "'e + 'a \<Rightarrow> ('a \<Rightarrow> 'e + 'b) \<Rightarrow> 'e + 'b" where
  "bindE m f = (case m of Inl e \<Rightarrow> Inl e | Inr x \<Rightarrow> f x)"

text \<open>\<^verbatim>\<open>v.at(i)\<close>\<close>

definition at_vec :: "'a list \<Rightarrow> int \<Rightarrow> error + 'a" where
  "at_vec xs i = (if 0 \<le> i \<and> i < int (length xs) then Inr (xs ! nat i) else Inl OutOfRange)"

text \<open>\<^verbatim>\<open>m.at(k).at(n)\<close>\<close>

definition at_mat :: "'a list list \<Rightarrow> int \<Rightarrow> int \<Rightarrow> error + 'a" where
  "at_mat m k n = bindE (at_vec m k) (\<lambda>row. at_vec row n)"

text \<open>\<^verbatim>\<open>v[i] = x\<close>\<close>

definition set_vec :: "'a list \<Rightarrow> int \<Rightarrow> 'a \<Rightarrow> error + 'a list" where
  "set_vec xs i x =
     (if 0 \<le> i \<and> i < int (length xs) then Inr (xs[nat i := x]) else Inl UndefinedBehaviour)"

text \<open>\<^verbatim>\<open>m[k][n] = x\<close>\<close>

definition set_mat :: "'a list list \<Rightarrow> int \<Rightarrow> int \<Rightarrow> 'a \<Rightarrow> error + 'a list list" where
  "set_mat m k n x =
     (if 0 \<le> k \<and> k < int (length m)
      then bindE (set_vec (m ! nat k) n x) (\<lambda>row. Inr (m[nat k := row]))
      else Inl UndefinedBehaviour)"

text \<open>\<^verbatim>\<open>for (int i = a; i < b; i++) body\<close>, stopping at the first failure.\<close>

function for_loop :: "int \<Rightarrow> int \<Rightarrow> (int \<Rightarrow> 's \<Rightarrow> 'e + 's) \<Rightarrow> 's \<Rightarrow> 'e + 's" where
  "for_loop i b body s =
     (if i < b
      then (case body i s of Inl e \<Rightarrow> Inl e | Inr s' \<Rightarrow> for_loop (i + 1) b body s')
      else Inr s)"
  by pat_completeness auto
termination
  by (relation "measure (\<lambda>(i, b, body, s). nat (b - i))") auto

declare for_loop.simps [simp del]

subsection \<open>The collaborators\<close>

text \<open>
  The comparison \<^verbatim>\<open>==\<close> of two doubles is \<open>eq_d\<close> (it is not the identity of HOL: a NaN
  is not \<^verbatim>\<open>==\<close> to itself); \<open>sqrt_d\<close>, \<open>exp_d\<close>, \<open>log_d\<close>, \<open>fabs_d\<close> are \<^verbatim>\<open>sqrt\<close>, \<^verbatim>\<open>exp\<close>,
  \<^verbatim>\<open>log\<close>, \<^verbatim>\<open>fabs\<close> of \<^verbatim>\<open><cmath>\<close>; \<open>lit i\<close> is the double that the integer literal \<open>i\<close> is
  converted to (in \<^verbatim>\<open>4 * a\<close> and \<^verbatim>\<open>2 * a\<close>). They are parameters, in one record with
  the kernels.
\<close>

text \<open>
  Modelled from the spec: the kernels \<^verbatim>\<open>util::k0\<close>, \<^verbatim>\<open>k1\<close>, \<^verbatim>\<open>k2\<close>, \<^verbatim>\<open>E\<close> of
  \<^verbatim>\<open>utility/interpolate.hpp\<close> are not in the sources; section 4.1 calls them pure
  functions of a decay constant and a step size. They are parameters here.
\<close>

record 'd lib =
  eq_d :: "'d \<Rightarrow> 'd \<Rightarrow> bool"
  sqrt_d :: "'d \<Rightarrow> 'd"
  exp_d :: "'d \<Rightarrow> 'd"
  log_d :: "'d \<Rightarrow> 'd"
  fabs_d :: "'d \<Rightarrow> 'd"
  lit :: "int \<Rightarrow> 'd"
  k0 :: "'d \<Rightarrow> 'd \<Rightarrow> 'd"
  k1 :: "'d \<Rightarrow> 'd \<Rightarrow> 'd"
  k2 :: "'d \<Rightarrow> 'd \<Rightarrow> 'd"
  E :: "'d \<Rightarrow> 'd \<Rightarrow> 'd"

text \<open>
  Modelled from the spec: \<^verbatim>\<open>EPKEParameters\<close> (\<^verbatim>\<open>parareal/solver_parameters.hpp\<close>) is
  not in the sources. Section 3 describes it as arrays indexed by time step (and
  by precursor group), together with the scalars \<open>\<theta>\<close>, \<open>\<gamma>\<^sub>d\<close>, \<open>\<eta>\<close>. Its accessors
  are modelled as checked reads: an index outside the array is \<open>OutOfRange\<close>, so
  that a run without \<open>OutOfRange\<close> has read every array inside its bounds.
\<close>

record 'd EPKEParameters =
  num_time_steps :: nat
  num_precursors :: nat
  time :: "'d list"
  gen_time :: "'d list"
  pow_norm :: "'d list"
  rho_imp :: "'d list"
  beta_eff :: "'d list"
  lambda_h :: "'d list"
  decay_constant :: "'d list list"
  delayed_fraction :: "'d list list"
  theta :: "'d"
  gamma_d :: "'d"
  eta :: "'d"

definition getNumTimeSteps :: "'d EPKEParameters \<Rightarrow> int" where
  "getNumTimeSteps p = int (num_time_steps p)"

definition getNumPrecursors :: "'d EPKEParameters \<Rightarrow> int" where
  "getNumPrecursors p = int (num_precursors p)"

definition getTime :: "'d EPKEParameters \<Rightarrow> int \<Rightarrow> error + 'd" where
  "getTime p n = at_vec (time p) n"

definition getGenTime :: "'d EPKEParameters \<Rightarrow> int \<Rightarrow> error + 'd" where
  "getGenTime p n = at_vec (gen_time p) n"

definition getPowNorm :: "'d EPKEParameters \<Rightarrow> int \<Rightarrow> error + 'd" where
  "getPowNorm p n = at_vec (pow_norm p) n"

definition getRhoImp :: "'d EPKEParameters \<Rightarrow> int \<Rightarrow> error + 'd" where
  "getRhoImp p n = at_vec (rho_imp p) n"

definition getBetaEff :: "'d EPKEParameters \<Rightarrow> int \<Rightarrow> error + 'd" where
  "getBetaEff p n = at_vec (beta_eff p) n"

definition getLambdaH :: "'d EPKEParameters \<Rightarrow> int \<Rightarrow> error + 'd" where
  "getLambdaH p n = at_vec (lambda_h p) n"

definition getDecayConstant :: "'d EPKEParameters \<Rightarrow> int \<Rightarrow> int \<Rightarrow> error + 'd" where
  "getDecayConstant p k n = at_mat (decay_constant p) k n"

definition getDelayedFraction :: "'d EPKEParameters \<Rightarrow> int \<Rightarrow> int \<Rightarrow> error + 'd" where
  "getDelayedFraction p k n = at_mat (delayed_fraction p) k n"

text \<open>
  \<^verbatim>\<open>EPKEOutput\<close> is built from the three history vectors (the last line of
  \<^verbatim>\<open>solve\<close>). Modelled from the spec: its accessors are not in the sources; by
  section 6 the history provider gives the step count of the prefix and
  \<^verbatim>\<open>power(n)\<close>, \<^verbatim>\<open>rho(n)\<close>, \<^verbatim>\<open>concentration(k,n)\<close> inside it. They are checked reads,
  and the step count is the length of the power sequence.
\<close>

record 'd EPKEOutput =
  out_power :: "'d list"
  out_rho :: "'d list"
  out_concentrations :: "'d list list"

definition getNumTimeSteps_out :: "'d EPKEOutput \<Rightarrow> int" where
  "getNumTimeSteps_out pre = int (length (out_power pre))"

definition getPower :: "'d EPKEOutput \<Rightarrow> int \<Rightarrow> error + 'd" where
  "getPower pre n = at_vec (out_power pre) n"

definition getRho :: "'d EPKEOutput \<Rightarrow> int \<Rightarrow> error + 'd" where
  "getRho pre n = at_vec (out_rho pre) n"

definition getConcentration :: "'d EPKEOutput \<Rightarrow> int \<Rightarrow> int \<Rightarrow> error + 'd" where
  "getConcentration pre k n = at_mat (out_concentrations pre) k n"

subsection \<open>The solver object\<close>

record 'd solver_state =
  params :: "'d EPKEParameters"
  precomp :: "'d EPKEOutput"
  power :: "'d list"
  rho :: "'d list"
  omega :: "'d list"
  zeta_hat :: "'d list"
  concentrations :: "'d list list"

text \<open>A solver owns its members and the fine solvers it has created.\<close>

datatype 'd solver = Solver_obj (members: "'d solver_state") (fine_solvers: "'d solver list")

text \<open>A failure inside a member function leaves the object as it is at the throw.\<close>

definition throwing :: "'d solver_state \<Rightarrow> error + 'a \<Rightarrow> (error \<times> 'd solver_state) + 'a" where
  "throwing s m = (case m of Inl e \<Rightarrow> Inl (e, s) | Inr x \<Rightarrow> Inr x)"

subsection \<open>The constructor\<close>

definition Solver_conc_row ::
  "'d EPKEOutput \<Rightarrow> int \<Rightarrow> int \<Rightarrow> 'd list list \<Rightarrow> error + 'd list list" where
  "Solver_conc_row pre k n c =
     bindE (getConcentration pre k n) (\<lambda>v. set_mat c k n v)"

definition Solver_conc :: "'d EPKEOutput \<Rightarrow> int \<Rightarrow> 'd list list \<Rightarrow> error + 'd list list" where
  "Solver_conc pre k c = for_loop 0 (getNumTimeSteps_out pre) (Solver_conc_row pre k) c"

definition Solver_hist ::
  "'d EPKEOutput \<Rightarrow> int \<Rightarrow> 'd list \<times> 'd list \<Rightarrow> error + 'd list \<times> 'd list" where
  "Solver_hist pre n = (\<lambda>(pw, rh).
     bindE (getPower pre n) (\<lambda>v.
     bindE (set_vec pw n v) (\<lambda>pw'.
     bindE (getRho pre n) (\<lambda>r.
     bindE (set_vec rh n r) (\<lambda>rh'. Inr (pw', rh'))))))"

definition Solver ::
  "('d::{zero,one,plus,minus,uminus,times,inverse,ord}) EPKEParameters \<Rightarrow> 'd EPKEOutput \<Rightarrow>
     error + 'd solver_state" where
  "Solver p pre =
     (let N = nat (getNumTimeSteps p); K = nat (getNumPrecursors p) in
      bindE (for_loop 0 (getNumPrecursors p) (Solver_conc pre) (replicate K (replicate N 0))) (\<lambda>c.
      bindE (for_loop 0 (getNumTimeSteps_out pre) (Solver_hist pre) (replicate N 0, replicate N 0))
        (\<lambda>(pw, rh).
      Inr \<lparr> params = p, precomp = pre, power = pw, rho = rh,
            omega = replicate K 0, zeta_hat = replicate K 0, concentrations = c \<rparr>)))"

subsection \<open>The step\<close>

definition computeDT ::
  "('d::{zero,one,plus,minus,uminus,times,inverse,ord}) EPKEParameters \<Rightarrow> int \<Rightarrow> error + 'd" where
  "computeDT p n =
     bindE (getTime p n) (\<lambda>t1.
     bindE (getTime p (n - 1)) (\<lambda>t0. Inr (t1 - t0)))"

definition computeGamma ::
  "('d::{zero,one,plus,minus,uminus,times,inverse,ord}) EPKEParameters \<Rightarrow> int \<Rightarrow> error + 'd" where
  "computeGamma p n =
     (if n < 2 then Inr 1
      else bindE (computeDT p (n - 1)) (\<lambda>d1.
           bindE (computeDT p n) (\<lambda>d. Inr (d1 / d))))"

definition computeOmega ::
  "('d::{zero,one,plus,minus,uminus,times,inverse,ord}) lib \<Rightarrow> 'd EPKEParameters \<Rightarrow> int \<Rightarrow> int \<Rightarrow>
     'd \<Rightarrow> 'd \<Rightarrow> error + 'd" where
  "computeOmega u p k n w gamma =
     bindE (getDecayConstant p k n) (\<lambda>lambda_k.
     bindE (computeDT p n) (\<lambda>dt.
     bindE (getGenTime p 0) (\<lambda>g0.
     bindE (getGenTime p n) (\<lambda>gn.
     bindE (getDelayedFraction p k n) (\<lambda>bkn.
     Inr (g0 / gn * bkn * w *
          (k2 u lambda_k dt + gamma * dt * k1 u lambda_k dt) / ((1 + gamma) * dt * dt)))))))"

definition computeZetaHat ::
  "('d::{zero,one,plus,minus,uminus,times,inverse,ord}) lib \<Rightarrow> 'd solver_state \<Rightarrow> int \<Rightarrow> int \<Rightarrow> 'd \<Rightarrow>
     'd \<Rightarrow> error + 'd" where
  "computeZetaHat u s k n w gamma =
     (let p = params s; m = (if n < 2 then n - 1 else n - 2) in
      bindE (getDecayConstant p k n) (\<lambda>lambda_k.
      bindE (computeDT p n) (\<lambda>dt.
      bindE (getDelayedFraction p k m) (\<lambda>beta_prev_prev.
      bindE (at_vec (power s) m) (\<lambda>power_prev_prev.
      bindE (getGenTime p m) (\<lambda>gen_time_prev_prev.
      bindE (at_mat (concentrations s) k (n - 1)) (\<lambda>conc_prev.
      bindE (getGenTime p 0) (\<lambda>g0.
      bindE (at_vec (power s) (n - 1)) (\<lambda>power_prev.
      bindE (getDelayedFraction p k (n - 1)) (\<lambda>beta_prev.
      bindE (getGenTime p (n - 1)) (\<lambda>gen_time_prev.
      Inr (w * conc_prev +
           w * g0 * power_prev * beta_prev / gen_time_prev *
             (k0 u lambda_k dt - (k2 u lambda_k dt - dt * (gamma - 1) * k1 u lambda_k dt) /
                (gamma * dt * dt)) +
           w * g0 * power_prev_prev * beta_prev_prev / gen_time_prev_prev *
             (k2 u lambda_k dt - dt * k1 u lambda_k dt) /
             ((1 + gamma) * gamma * dt * dt)))))))))))))"

definition computeA1B1 ::
  "('d::{zero,one,plus,minus,uminus,times,inverse,ord}) lib \<Rightarrow> 'd solver_state \<Rightarrow> int \<Rightarrow> 'd \<Rightarrow>
     error + 'd \<times> 'd" where
  "computeA1B1 u s n gamma =
     (let p = params s; m = (if n < 2 then n - 1 else n - 2) in
      bindE (getLambdaH p n) (\<lambda>lh.
      bindE (computeDT p n) (\<lambda>dt.
      bindE (getPowNorm p m) (\<lambda>pn_pp.
      bindE (at_vec (power s) m) (\<lambda>power_pp.
      bindE (getPowNorm p n) (\<lambda>pn.
      bindE (getRhoImp p n) (\<lambda>ri.
      bindE (at_vec (rho s) (n - 1)) (\<lambda>rho_prev.
      bindE (getRhoImp p (n - 1)) (\<lambda>ri_prev.
      bindE (at_vec (power s) 0) (\<lambda>power0.
      bindE (getPowNorm p (n - 1)) (\<lambda>pn_prev.
      bindE (at_vec (power s) (n - 1)) (\<lambda>power_prev.
      (let H_prev_prev = pn_pp * power_pp;
           a1 = gamma_d p * pn / E u lh dt *
                  (k2 u lh dt + k1 u lh dt * gamma * dt) / ((1 + gamma) * dt * dt);
           b1 = ri + 1 / E u lh dt *
                  ((rho_prev - ri_prev) - power0 * gamma_d p * eta p * k0 u lh dt) +
                gamma_d p / E u lh dt *
                  (pn_prev * power_prev *
                     (k0 u lh dt - (k2 u lh dt + (gamma - 1) * dt * k1 u lh dt) /
                        (gamma * dt * dt)) +
                   H_prev_prev * (k2 u lh dt - k1 u lh dt * dt) /
                     ((1 + gamma) * gamma * dt * dt))
       in Inr (a1, b1))))))))))))))"

text \<open>The coefficients \<open>a\<close>, \<open>b\<close>, \<open>c\<close> of \<^verbatim>\<open>computeABC\<close>, and the choice of the root.\<close>

definition computeABC_coeffs ::
  "('d::{zero,one,plus,minus,uminus,times,inverse,ord}) lib \<Rightarrow> 'd solver_state \<Rightarrow> int \<Rightarrow> 'd \<Rightarrow>
     'd \<times> 'd \<Rightarrow> 'd \<Rightarrow> 'd \<Rightarrow> 'd \<Rightarrow> error + 'd \<times> 'd \<times> 'd" where
  "computeABC_coeffs u s n alpha a1b1 tau s_hat_d s_d_prev =
     (let p = params s in
      bindE (computeDT p n) (\<lambda>dt.
      bindE (getGenTime p n) (\<lambda>gn.
      bindE (getBetaEff p n) (\<lambda>be.
      bindE (getGenTime p 0) (\<lambda>g0.
      bindE (at_vec (rho s) (n - 1)) (\<lambda>rho_prev.
      bindE (getBetaEff p (n - 1)) (\<lambda>be_prev.
      bindE (getGenTime p (n - 1)) (\<lambda>gn_prev.
      bindE (at_vec (power s) (n - 1)) (\<lambda>power_prev.
      (let a = theta p * dt * fst a1b1 / gn;
           b = theta p * dt * (((snd a1b1 - be) / gn - alpha) + tau / g0) - 1;
           c = theta p * dt / g0 * s_hat_d +
               exp_d u (alpha * dt) *
                 ((1 - theta p) * dt *
                    (((rho_prev - be_prev) / gn_prev - alpha) * power_prev + s_d_prev / g0) +
                  power_prev)
       in Inr (a, b, c)))))))))))"

definition select_root ::
  "('d::{zero,one,plus,minus,uminus,times,inverse,ord}) lib \<Rightarrow> 'd \<times> 'd \<times> 'd \<Rightarrow> error + 'd" where
  "select_root u = (\<lambda>(a, b, c).
     if a < 0 then Inr ((- b - sqrt_d u (b * b - lit u 4 * a * c)) / (lit u 2 * a))
     else if eq_d u a 0 then Inr (- c / b)
     else Inl Terminate)"

definition computeABC ::
  "('d::{zero,one,plus,minus,uminus,times,inverse,ord}) lib \<Rightarrow> 'd solver_state \<Rightarrow> int \<Rightarrow> 'd \<Rightarrow>
     'd \<times> 'd \<Rightarrow> 'd \<Rightarrow> 'd \<Rightarrow> 'd \<Rightarrow> error + 'd" where
  "computeABC u s n alpha a1b1 tau s_hat_d s_d_prev =
     bindE (computeABC_coeffs u s n alpha a1b1 tau s_hat_d s_d_prev) (select_root u)"

text \<open>The loop over the precursor groups in \<^verbatim>\<open>computePower\<close>; it overwrites the scratch.\<close>

definition computePower_group ::
  "('d::{zero,one,plus,minus,uminus,times,inverse,ord}) lib \<Rightarrow> int \<Rightarrow> 'd \<Rightarrow> int \<Rightarrow>
     ('d \<times> 'd \<times> 'd) \<times> 'd solver_state \<Rightarrow>
     (error \<times> 'd solver_state) + ('d \<times> 'd \<times> 'd) \<times> 'd solver_state" where
  "computePower_group u n gamma k = (\<lambda>((tau, s_hat_d, s_d_prev), s).
     bindE (throwing s
       (bindE (getDecayConstant (params s) k n) (\<lambda>lk.
        bindE (computeDT (params s) n) (\<lambda>dt. Inr (1 / E u lk dt))))) (\<lambda>w.
     bindE (throwing s (computeOmega u (params s) k n w gamma)) (\<lambda>om.
     bindE (throwing s (set_vec (omega s) k om)) (\<lambda>omega'.
     (let s1 = s\<lparr>omega := omega'\<rparr> in
     bindE (throwing s1 (computeZetaHat u s1 k n w gamma)) (\<lambda>zh.
     bindE (throwing s1 (set_vec (zeta_hat s1) k zh)) (\<lambda>zeta'.
     (let s2 = s1\<lparr>zeta_hat := zeta'\<rparr> in
     bindE (throwing s2
       (bindE (getDecayConstant (params s2) k n) (\<lambda>lk.
        bindE (at_vec (omega s2) k) (\<lambda>om_k.
        bindE (at_vec (zeta_hat s2) k) (\<lambda>zh_k.
        bindE (getDecayConstant (params s2) k (n - 1)) (\<lambda>lk_prev.
        bindE (at_mat (concentrations s2) k (n - 1)) (\<lambda>conc_prev.
        Inr (tau + lk * om_k, s_hat_d + lk * zh_k, s_d_prev + lk_prev * conc_prev))))))))
       (\<lambda>acc. Inr (acc, s2))))))))))"

definition computePower ::
  "('d::{zero,one,plus,minus,uminus,times,inverse,ord}) lib \<Rightarrow> int \<Rightarrow> 'd \<Rightarrow> 'd \<Rightarrow> 'd solver_state \<Rightarrow>
     (error \<times> 'd solver_state) + 'd \<times> 'd solver_state" where
  "computePower u n alpha gamma s =
     bindE (for_loop 0 (getNumPrecursors (params s)) (computePower_group u n gamma) ((0, 0, 0), s))
       (\<lambda>((tau, s_hat_d, s_d_prev), s1).
     bindE (throwing s1 (computeA1B1 u s1 n gamma)) (\<lambda>a1b1.
     bindE (throwing s1 (computeABC u s1 n alpha a1b1 tau s_hat_d s_d_prev)) (\<lambda>pw.
     Inr (pw, s1))))"

text \<open>\<^verbatim>\<open>acceptTransformation\<close>; \<^verbatim>\<open>solve\<close> does not call it (the call is commented out).\<close>

definition acceptTransformation ::
  "('d::{zero,one,plus,minus,uminus,times,inverse,ord}) lib \<Rightarrow> 'd solver_state \<Rightarrow> int \<Rightarrow> 'd \<Rightarrow> 'd \<Rightarrow>
     error + bool" where
  "acceptTransformation u s n alpha gamma =
     bindE (at_vec (power s) (if n < 2 then n - 1 else n - 2)) (\<lambda>power_prev_prev.
     bindE (at_vec (power s) n) (\<lambda>power_n.
     bindE (computeDT (params s) n) (\<lambda>dt.
     bindE (at_vec (power s) (n - 1)) (\<lambda>power_prev.
     (let lhs = fabs_d u (power_n - exp_d u (alpha * dt) * power_prev);
          rhs = fabs_d u (power_n - power_prev - (power_prev - power_prev_prev) / gamma)
      in Inr (lhs \<le> rhs))))))"

subsection \<open>The step loop\<close>

text \<open>The extrapolation rate that step \<open>n\<close> uses: recomputed when \<open>n > 1\<close>, else carried.\<close>

definition solve_alpha ::
  "('d::{zero,one,plus,minus,uminus,times,inverse,ord}) lib \<Rightarrow> 'd solver_state \<Rightarrow> int \<Rightarrow> 'd \<Rightarrow>
     error + 'd" where
  "solve_alpha u s n alpha =
     (if n > 1
      then bindE (computeDT (params s) (n - 1)) (\<lambda>dt.
           bindE (at_vec (power s) (n - 1)) (\<lambda>p1.
           bindE (at_vec (power s) (n - 2)) (\<lambda>p2. Inr (1 / dt * log_d u (p1 / p2)))))
      else Inr alpha)"

definition solve_conc ::
  "int \<Rightarrow> int \<Rightarrow> ('d::{zero,one,plus,minus,uminus,times,inverse,ord}) solver_state \<Rightarrow>
     (error \<times> 'd solver_state) + 'd solver_state" where
  "solve_conc n k s =
     bindE (throwing s
       (bindE (at_vec (power s) n) (\<lambda>pw.
        bindE (at_vec (omega s) k) (\<lambda>om.
        bindE (at_vec (zeta_hat s) k) (\<lambda>zh.
        set_mat (concentrations s) k n (pw * om + zh))))))
       (\<lambda>c. Inr (s\<lparr>concentrations := c\<rparr>))"

definition solve_step ::
  "('d::{zero,one,plus,minus,uminus,times,inverse,ord}) lib \<Rightarrow> int \<Rightarrow> 'd \<times> 'd solver_state \<Rightarrow>
     (error \<times> 'd solver_state) + 'd \<times> 'd solver_state" where
  "solve_step u n = (\<lambda>(alpha0, s).
     bindE (throwing s (computeGamma (params s) n)) (\<lambda>gamma.
     bindE (throwing s (solve_alpha u s n alpha0)) (\<lambda>alpha.
     bindE (computePower u n alpha gamma s) (\<lambda>(pw, s1).
     bindE (throwing s1 (set_vec (power s1) n pw)) (\<lambda>power'.
     (let s2 = s1\<lparr>power := power'\<rparr> in
     bindE (for_loop 0 (getNumPrecursors (params s2)) (solve_conc n) s2) (\<lambda>s3.
     bindE (throwing s3 (computeA1B1 u s3 n gamma)) (\<lambda>a1b1.
     bindE (throwing s3 (at_vec (power s3) n)) (\<lambda>pw_n.
     bindE (throwing s3 (set_vec (rho s3) n (fst a1b1 * pw_n + snd a1b1))) (\<lambda>rho'.
     Inr (alpha, s3\<lparr>rho := rho'\<rparr>)))))))))))"

definition solve ::
  "('d::{zero,one,plus,minus,uminus,times,inverse,ord}) lib \<Rightarrow> 'd solver_state \<Rightarrow>
     (error \<times> 'd solver_state) + 'd EPKEOutput \<times> 'd solver_state" where
  "solve u s =
     bindE (for_loop (getNumTimeSteps_out (precomp s)) (getNumTimeSteps (params s))
              (solve_step u) (0, s)) (\<lambda>(alpha, s').
     Inr (\<lparr> out_power = power s', out_rho = rho s',
            out_concentrations = concentrations s' \<rparr>, s'))"

subsection \<open>Composition\<close>

text \<open>
  Modelled from the spec: \<^verbatim>\<open>EPKEParameters::interpolate\<close>,
  \<^verbatim>\<open>EPKEOutput::createPrecomputed\<close> and the constructor of \<^verbatim>\<open>para::SolverOutput\<close>
  are not in the sources; they are the parameters \<open>interpolate\<close>, \<open>createPrecomputed\<close>
  and \<open>SolverOutput\<close> below. The shared pointer to the new solver is returned and
  stored; the model returns the new solver and the caller after the store.
\<close>

definition createFineSolver ::
  "(('d::{zero,one,plus,minus,uminus,times,inverse,ord}) EPKEParameters \<Rightarrow> 'd list \<Rightarrow>
      'd EPKEParameters) \<Rightarrow>
     ('d EPKEOutput \<Rightarrow> int \<Rightarrow> 'd EPKEOutput) \<Rightarrow> 'd list \<Rightarrow> int \<Rightarrow> 'd solver \<Rightarrow>
     error + 'd solver \<times> 'd solver" where
  "createFineSolver interpolate createPrecomputed fine_time coarse_index this =
     bindE (Solver (interpolate (params (members this)) fine_time)
                   (createPrecomputed (precomp (members this)) coarse_index)) (\<lambda>m.
     (let fine_solver = Solver_obj m [] in
      Inr (fine_solver, Solver_obj (members this) (fine_solvers this @ [fine_solver]))))"

definition assembleGlobalOutput :: "('d EPKEOutput \<Rightarrow> 'o) \<Rightarrow> 'd solver \<Rightarrow> 'o" where
  "assembleGlobalOutput SolverOutput this = SolverOutput (precomp (members this))"

subsection \<open>Notions used in the statements\<close>

text \<open>
  \<open>for_reach i b body s j t\<close>: the loop started at \<open>i\<close> in state \<open>s\<close> arrives at the head of
  iteration \<open>j\<close> in state \<open>t\<close>; \<open>solve_head\<close> is that for the loop of \<^verbatim>\<open>solve\<close>.
  \<open>same_hist\<close>: nothing but the scratch vectors differs. \<open>wrote_at n xs ys\<close>: \<open>ys\<close> is
  \<open>xs\<close> except possibly at index \<open>n\<close>. \<open>unchanged_outside lo hi xs ys\<close>: \<open>ys\<close> is \<open>xs\<close>
  below \<open>lo\<close> and from \<open>hi\<close> on. \<open>wf_params\<close>, \<open>wf_state\<close>: the arrays have the lengths of
  the time grid and of the precursor groups. \<open>agree n s t\<close>: same parameters, same
  prefix, same history entries below \<open>n\<close>. \<open>outcome\<close>: the failure or the returned
  histories of a run.
\<close>

inductive for_reach :: "int \<Rightarrow> int \<Rightarrow> (int \<Rightarrow> 's \<Rightarrow> 'e + 's) \<Rightarrow> 's \<Rightarrow> int \<Rightarrow> 's \<Rightarrow> bool"
  for i :: int and b :: int and body :: "int \<Rightarrow> 's \<Rightarrow> 'e + 's" and s :: 's where
  start: "for_reach i b body s i s"
| step: "for_reach i b body s j t \<Longrightarrow> j < b \<Longrightarrow> body j t = Inr t' \<Longrightarrow> for_reach i b body s (j + 1) t'"

definition solve_head ::
  "('d::{zero,one,plus,minus,uminus,times,inverse,ord}) lib \<Rightarrow> 'd solver_state \<Rightarrow> int \<Rightarrow>
     'd \<times> 'd solver_state \<Rightarrow> bool" where
  "solve_head u s0 n c \<longleftrightarrow>
     for_reach (getNumTimeSteps_out (precomp s0)) (getNumTimeSteps (params s0)) (solve_step u)
       (0, s0) n c"

definition same_hist :: "'d solver_state \<Rightarrow> 'd solver_state \<Rightarrow> bool" where
  "same_hist s s' \<longleftrightarrow>
     params s' = params s \<and> precomp s' = precomp s \<and> power s' = power s \<and> rho s' = rho s \<and>
     concentrations s' = concentrations s \<and>
     length (omega s') = length (omega s) \<and> length (zeta_hat s') = length (zeta_hat s)"

definition wrote_at :: "nat \<Rightarrow> 'a list \<Rightarrow> 'a list \<Rightarrow> bool" where
  "wrote_at n xs ys \<longleftrightarrow> ys = xs[n := ys ! n]"

definition step_frame :: "nat \<Rightarrow> 'd solver_state \<Rightarrow> 'd solver_state \<Rightarrow> bool" where
  "step_frame n s s' \<longleftrightarrow>
     params s' = params s \<and> precomp s' = precomp s \<and>
     wrote_at n (power s) (power s') \<and> wrote_at n (rho s) (rho s') \<and>
     list_all2 (wrote_at n) (concentrations s) (concentrations s') \<and>
     length (omega s') = length (omega s) \<and> length (zeta_hat s') = length (zeta_hat s)"

definition unchanged_outside :: "nat \<Rightarrow> nat \<Rightarrow> 'a list \<Rightarrow> 'a list \<Rightarrow> bool" where
  "unchanged_outside lo hi xs ys \<longleftrightarrow>
     length ys = length xs \<and> take lo ys = take lo xs \<and> drop hi ys = drop hi xs"

definition hist_unchanged_outside :: "nat \<Rightarrow> nat \<Rightarrow> 'd solver_state \<Rightarrow> 'd solver_state \<Rightarrow> bool" where
  "hist_unchanged_outside lo hi s s' \<longleftrightarrow>
     params s' = params s \<and> precomp s' = precomp s \<and>
     unchanged_outside lo hi (power s) (power s') \<and> unchanged_outside lo hi (rho s) (rho s') \<and>
     list_all2 (unchanged_outside lo hi) (concentrations s) (concentrations s')"

definition wf_params :: "'d EPKEParameters \<Rightarrow> bool" where
  "wf_params p \<longleftrightarrow>
     length (time p) = num_time_steps p \<and> length (gen_time p) = num_time_steps p \<and>
     length (pow_norm p) = num_time_steps p \<and> length (rho_imp p) = num_time_steps p \<and>
     length (beta_eff p) = num_time_steps p \<and> length (lambda_h p) = num_time_steps p \<and>
     length (decay_constant p) = num_precursors p \<and>
     list_all (\<lambda>row. length row = num_time_steps p) (decay_constant p) \<and>
     length (delayed_fraction p) = num_precursors p \<and>
     list_all (\<lambda>row. length row = num_time_steps p) (delayed_fraction p)"

definition wf_state :: "'d solver_state \<Rightarrow> bool" where
  "wf_state s \<longleftrightarrow>
     length (power s) = num_time_steps (params s) \<and>
     length (rho s) = num_time_steps (params s) \<and>
     length (omega s) = num_precursors (params s) \<and>
     length (zeta_hat s) = num_precursors (params s) \<and>
     length (concentrations s) = num_precursors (params s) \<and>
     list_all (\<lambda>row. length row = num_time_steps (params s)) (concentrations s)"

definition agree :: "nat \<Rightarrow> 'd solver_state \<Rightarrow> 'd solver_state \<Rightarrow> bool" where
  "agree n s t \<longleftrightarrow>
     params t = params s \<and> precomp t = precomp s \<and> wf_state s \<and> wf_state t \<and>
     take n (power t) = take n (power s) \<and> take n (rho t) = take n (rho s) \<and>
     map (take n) (concentrations t) = map (take n) (concentrations s)"

definition err_eq :: "error \<times> 'd solver_state \<Rightarrow> error \<times> 'd solver_state \<Rightarrow> bool" where
  "err_eq x y \<longleftrightarrow> fst x = fst y"

definition step_rel :: "nat \<Rightarrow> 'd \<times> 'd solver_state \<Rightarrow> 'd \<times> 'd solver_state \<Rightarrow> bool" where
  "step_rel n x y \<longleftrightarrow> fst y = fst x \<and> agree n (snd x) (snd y)"

definition outcome ::
  "(error \<times> 'd solver_state) + ('d EPKEOutput \<times> 'd solver_state) \<Rightarrow> error + 'd EPKEOutput" where
  "outcome r = map_sum fst fst r"

subsection \<open>Notions used in the proofs\<close>

definition oor :: "error + 'a \<Rightarrow> bool" where
  "oor m = (case m of Inl e \<Rightarrow> e = OutOfRange | Inr x \<Rightarrow> True)"

named_theorems oor_intros

definition ok :: "'e + 'a \<Rightarrow> bool" where
  "ok m = (case m of Inl e \<Rightarrow> False | Inr x \<Rightarrow> True)"

definition ok_or_abort :: "(error \<times> 'd solver_state) + 'a \<Rightarrow> bool" where
  "ok_or_abort m = (case m of Inl (e, s) \<Rightarrow> e = Terminate | Inr x \<Rightarrow> True)"

named_theorems ok_intros

definition group_rel ::
  "nat \<Rightarrow> nat \<Rightarrow> ('d \<times> 'd \<times> 'd) \<times> 'd solver_state \<Rightarrow> ('d \<times> 'd \<times> 'd) \<times> 'd solver_state \<Rightarrow> bool" where
  "group_rel n k x y \<longleftrightarrow>
     fst y = fst x \<and> agree n (snd x) (snd y) \<and>
     take k (omega (snd y)) = take k (omega (snd x)) \<and>
     take k (zeta_hat (snd y)) = take k (zeta_hat (snd x))"

definition power_rel :: "nat \<Rightarrow> 'd \<times> 'd solver_state \<Rightarrow> 'd \<times> 'd solver_state \<Rightarrow> bool" where
  "power_rel n x y \<longleftrightarrow>
     fst y = fst x \<and> agree n (snd x) (snd y) \<and>
     omega (snd y) = omega (snd x) \<and> zeta_hat (snd y) = zeta_hat (snd x)"

definition conc_rel :: "nat \<Rightarrow> nat \<Rightarrow> 'd solver_state \<Rightarrow> 'd solver_state \<Rightarrow> bool" where
  "conc_rel n k s t \<longleftrightarrow>
     params t = params s \<and> precomp t = precomp s \<and> wf_state s \<and> wf_state t \<and>
     take (Suc n) (power t) = take (Suc n) (power s) \<and> take n (rho t) = take n (rho s) \<and>
     omega t = omega s \<and> zeta_hat t = zeta_hat s \<and>
     map (take n) (concentrations t) = map (take n) (concentrations s) \<and>
     map (take (Suc n)) (take k (concentrations t)) = map (take (Suc n)) (take k (concentrations s))"

subsection \<open>A step that evaluates the acceptance test\<close>

text \<open>
  Not the step of the source, where the call of \<^verbatim>\<open>acceptTransformation\<close> is commented out
  (lines 230 to 234), but the step as section 4.2 of the specification words it: the
  test is evaluated after the power is stored, and its result is dropped. It serves
  one lemma, which shows that the two steps cannot be told apart.
\<close>

definition solve_step_with_test ::
  "('d::{zero,one,plus,minus,uminus,times,inverse,ord}) lib \<Rightarrow> int \<Rightarrow> 'd \<times> 'd solver_state \<Rightarrow>
     (error \<times> 'd solver_state) + 'd \<times> 'd solver_state" where
  "solve_step_with_test u n = (\<lambda>(alpha0, s).
     bindE (throwing s (computeGamma (params s) n)) (\<lambda>gamma.
     bindE (throwing s (solve_alpha u s n alpha0)) (\<lambda>alpha.
     bindE (computePower u n alpha gamma s) (\<lambda>(pw, s1).
     bindE (throwing s1 (set_vec (power s1) n pw)) (\<lambda>power'.
     (let s2 = s1\<lparr>power := power'\<rparr> in
     bindE (throwing s2 (acceptTransformation u s2 n alpha gamma)) (\<lambda>accepted.
     bindE (for_loop 0 (getNumPrecursors (params s2)) (solve_conc n) s2) (\<lambda>s3.
     bindE (throwing s3 (computeA1B1 u s3 n gamma)) (\<lambda>a1b1.
     bindE (throwing s3 (at_vec (power s3) n)) (\<lambda>pw_n.
     bindE (throwing s3 (set_vec (rho s3) n (fst a1b1 * pw_n + snd a1b1))) (\<lambda>rho'.
     Inr (alpha, s3\<lparr>rho := rho'\<rparr>))))))))))))"

subsection \<open>Example inputs\<close>

text \<open>
  \<open>ex_lib\<close> is the arithmetic of the real numbers, with kernels that are constantly \<open>1\<close>.
  It is not the arithmetic of the doubles (it does not round, and \<open>x / 0\<close> is \<open>0\<close> in
  HOL): the theorems hold for every arithmetic, and the examples instantiate them with
  this one, at inputs where no operation divides by zero. Where an example shows a
  comparison of \<^verbatim>\<open>computeABC\<close>, a failure or an index, all values are small integers or
  halves, on which the doubles compute and compare as the reals do; a value written
  with \<open>ln\<close> or \<open>exp\<close> is the real number, which a double rounds.
\<close>

definition ex_lib :: "real lib" where
  "ex_lib = \<lparr> eq_d = (=), sqrt_d = sqrt, exp_d = exp, log_d = ln, fabs_d = abs, lit = of_int,
     k0 = (\<lambda>l d. 1), k1 = (\<lambda>l d. 1), k2 = (\<lambda>l d. 1), E = (\<lambda>l d. 1) \<rparr>"

definition ex_params :: "real \<Rightarrow> real EPKEParameters" where
  "ex_params gd = \<lparr> num_time_steps = 2, num_precursors = 0, time = [0, 1], gen_time = [1, 1],
     pow_norm = [1, 1], rho_imp = [0, 0], beta_eff = [0, 0], lambda_h = [0, 0],
     decay_constant = [], delayed_fraction = [], theta = 1, gamma_d = gd, eta = 0 \<rparr>"

definition ex_seed :: "real EPKEOutput" where
  "ex_seed = \<lparr> out_power = [1], out_rho = [0], out_concentrations = [] \<rparr>"

definition ex_empty_seed :: "real EPKEOutput" where
  "ex_empty_seed = \<lparr> out_power = [], out_rho = [], out_concentrations = [] \<rparr>"

definition ex_state :: "real \<Rightarrow> real solver_state" where
  "ex_state gd = \<lparr> params = ex_params gd, precomp = ex_seed, power = [1, 0], rho = [0, 0],
     omega = [], zeta_hat = [], concentrations = [] \<rparr>"

definition ex3_params :: "real EPKEParameters" where
  "ex3_params = \<lparr> num_time_steps = 3, num_precursors = 0, time = [0, 1, 2], gen_time = [1, 1, 1],
     pow_norm = [1, 0, 1], rho_imp = [0, 0, 0], beta_eff = [0, 0, 0], lambda_h = [0, 0, 0],
     decay_constant = [], delayed_fraction = [], theta = 1, gamma_d = 1, eta = 0 \<rparr>"

definition ex3_state :: "real list \<Rightarrow> real solver_state" where
  "ex3_state pw = \<lparr> params = ex3_params, precomp = ex_seed, power = pw, rho = [0, 0, 0],
     omega = [], zeta_hat = [], concentrations = [] \<rparr>"

definition ex4_params :: "real EPKEParameters" where
  "ex4_params = \<lparr> num_time_steps = 3, num_precursors = 1, time = [0, 1, 3], gen_time = [1, 1, 1],
     pow_norm = [1, 1, 1], rho_imp = [0, 0, 0], beta_eff = [0, 0, 0], lambda_h = [0, 0, 0],
     decay_constant = [[1, 1, 1]], delayed_fraction = [[0, 0, 0]],
     theta = 1, gamma_d = 0, eta = 0 \<rparr>"

definition ex4_seed :: "real EPKEOutput" where
  "ex4_seed = \<lparr> out_power = [1, 2], out_rho = [0, 0], out_concentrations = [[1, 1]] \<rparr>"

definition ex4_empty_seed :: "real EPKEOutput" where
  "ex4_empty_seed = \<lparr> out_power = [], out_rho = [], out_concentrations = [[]] \<rparr>"

definition ex4_state :: "real solver_state" where
  "ex4_state = \<lparr> params = ex4_params, precomp = ex4_seed, power = [1, 2, 0], rho = [0, 0, 0],
     omega = [0], zeta_hat = [0], concentrations = [[1, 1, 0]] \<rparr>"

definition ex4_other :: "real solver_state" where
  "ex4_other = ex4_state\<lparr>power := [1, 2, 7], rho := [0, 0, 9], omega := [5], zeta_hat := [6],
     concentrations := [[1, 1, 8]]\<rparr>"

definition ex_interpolate :: "real EPKEParameters \<Rightarrow> real list \<Rightarrow> real EPKEParameters" where
  "ex_interpolate p fine_time = p\<lparr>num_time_steps := length fine_time, time := fine_time\<rparr>"

definition ex_createPrecomputed :: "real EPKEOutput \<Rightarrow> int \<Rightarrow> real EPKEOutput" where
  "ex_createPrecomputed pre i =
     \<lparr> out_power = take (nat (i + 1)) (out_power pre), out_rho = take (nat (i + 1)) (out_rho pre),
       out_concentrations = map (take (nat (i + 1))) (out_concentrations pre) \<rparr>"


section \<open>Auxiliary lemmas\<close>


subsection \<open>Results, vectors and loops\<close>

lemma bindE_Inr [simp]: "bindE (Inr x) f = f x"
  by (simp add: bindE_def)

lemma bindE_Inl [simp]: "bindE (Inl e) f = Inl e"
  by (simp add: bindE_def)

lemma bindE_eq_Inr: "bindE m f = Inr y \<longleftrightarrow> (\<exists>x. m = Inr x \<and> f x = Inr y)"
  by (cases m) simp_all

lemma bindE_eq_Inl: "bindE m f = Inl e \<longleftrightarrow> m = Inl e \<or> (\<exists>x. m = Inr x \<and> f x = Inl e)"
  by (cases m) simp_all

lemma throwing_eq_Inr [simp]: "throwing s m = Inr x \<longleftrightarrow> m = Inr x"
  by (cases m) (simp_all add: throwing_def)

lemma throwing_eq_Inl [simp]: "throwing s m = Inl (e, s') \<longleftrightarrow> m = Inl e \<and> s' = s"
  by (cases m) (auto simp: throwing_def)

lemma throwing_Inr [simp]: "throwing s (Inr x) = Inr x"
  by (simp add: throwing_def)

lemma throwing_Inl [simp]: "throwing s (Inl e) = Inl (e, s)"
  by (simp add: throwing_def)

lemma at_vec_eq_Inr: "at_vec xs i = Inr v \<longleftrightarrow> 0 \<le> i \<and> i < int (length xs) \<and> v = xs ! nat i"
  by (auto simp: at_vec_def)

lemma at_vec_eq_Inl: "at_vec xs i = Inl e \<longleftrightarrow> e = OutOfRange \<and> \<not> (0 \<le> i \<and> i < int (length xs))"
  by (auto simp: at_vec_def)

lemma at_vec_in: "0 \<le> i \<Longrightarrow> i < int (length xs) \<Longrightarrow> at_vec xs i = Inr (xs ! nat i)"
  by (simp add: at_vec_def)

lemma at_vec_neg: "i < 0 \<Longrightarrow> at_vec xs i = Inl OutOfRange"
  by (simp add: at_vec_def)

lemma at_mat_eq_Inr:
  "at_mat m k n = Inr v \<longleftrightarrow>
     0 \<le> k \<and> k < int (length m) \<and> 0 \<le> n \<and> n < int (length (m ! nat k)) \<and> v = m ! nat k ! nat n"
  by (auto simp: at_mat_def bindE_eq_Inr at_vec_eq_Inr)

lemma at_mat_eq_Inl: "at_mat m k n = Inl e \<Longrightarrow> e = OutOfRange"
  by (auto simp: at_mat_def bindE_eq_Inl at_vec_eq_Inl)

lemma at_mat_neg: "n < 0 \<Longrightarrow> at_mat m k n = Inl OutOfRange"
  by (auto simp: at_mat_def bindE_def at_vec_def split: sum.splits)

lemma set_vec_eq_Inr:
  "set_vec xs i x = Inr ys \<longleftrightarrow> 0 \<le> i \<and> i < int (length xs) \<and> ys = xs[nat i := x]"
  by (auto simp: set_vec_def)

lemma set_vec_eq_Inl:
  "set_vec xs i x = Inl e \<longleftrightarrow> e = UndefinedBehaviour \<and> \<not> (0 \<le> i \<and> i < int (length xs))"
  by (auto simp: set_vec_def)

lemma set_mat_eq_Inr:
  "set_mat m k n x = Inr m' \<longleftrightarrow>
     0 \<le> k \<and> k < int (length m) \<and> 0 \<le> n \<and> n < int (length (m ! nat k)) \<and>
     m' = m[nat k := (m ! nat k)[nat n := x]]"
  by (auto simp: set_mat_def bindE_eq_Inr set_vec_eq_Inr)

lemma set_mat_eq_Inl: "set_mat m k n x = Inl e \<Longrightarrow> e = UndefinedBehaviour"
  by (auto simp: set_mat_def bindE_eq_Inl set_vec_eq_Inl split: if_splits)

lemma for_loop_done [simp]: "b \<le> i \<Longrightarrow> for_loop i b body s = Inr s"
  by (simp add: for_loop.simps)

lemma for_loop_step:
  "i < b \<Longrightarrow> for_loop i b body s = bindE (body i s) (for_loop (i + 1) b body)"
  by (subst for_loop.simps) (simp add: bindE_def)

lemma for_reach_le: "for_reach i b body s j t \<Longrightarrow> i \<le> j"
  by (induction rule: for_reach.induct) auto

lemma for_reach_loop: "for_reach i b body s j t \<Longrightarrow> for_loop i b body s = for_loop j b body t"
  by (induction rule: for_reach.induct) (simp_all add: for_loop_step)

lemma for_reach_trans:
  "for_reach j b body t j' t' \<Longrightarrow> for_reach i b body s j t \<Longrightarrow> for_reach i b body s j' t'"
  by (induction rule: for_reach.induct) (auto intro: for_reach.intros)

lemma for_reach_first: "i < b \<Longrightarrow> body i s = Inr s' \<Longrightarrow> for_reach i b body s (i + 1) s'"
  by (rule for_reach.step[OF for_reach.start])

lemma for_loop_Inr_reach:
  "for_loop i b body s = Inr t \<Longrightarrow> for_reach i b body s (max i b) t"
proof (induction i b body s rule: for_loop.induct)
  case (1 i b body s)
  show ?case
  proof (cases "i < b")
    case False
    with "1.prems" show ?thesis by (simp add: max_def for_reach.start)
  next
    case True
    with "1.prems" obtain s' where b: "body i s = Inr s'" and r: "for_loop (i + 1) b body s' = Inr t"
      by (auto simp: for_loop_step bindE_eq_Inr)
    from "1.IH"[OF True b r] have "for_reach (i + 1) b body s' (max (i + 1) b) t" .
    moreover have "for_reach i b body s (i + 1) s'"
      using True b by (rule for_reach_first)
    ultimately have "for_reach i b body s (max (i + 1) b) t" by (rule for_reach_trans)
    with True show ?thesis by (simp add: max_def)
  qed
qed

lemma for_loop_Inl_reach:
  "for_loop i b body s = Inl e \<Longrightarrow> \<exists>j t. for_reach i b body s j t \<and> j < b \<and> body j t = Inl e"
proof (induction i b body s rule: for_loop.induct)
  case (1 i b body s)
  show ?case
  proof (cases "i < b")
    case False
    with "1.prems" show ?thesis by simp
  next
    case True
    show ?thesis
    proof (cases "body i s")
      case (Inl e')
      with True "1.prems" have "body i s = Inl e" by (simp add: for_loop_step)
      with True show ?thesis using for_reach.start[of i b body s] by blast
    next
      case (Inr s')
      with True "1.prems" have r: "for_loop (i + 1) b body s' = Inl e" by (simp add: for_loop_step)
      from "1.IH"[OF True Inr r] obtain j t where
        jt: "for_reach (i + 1) b body s' j t" "j < b" "body j t = Inl e" by blast
      have "for_reach i b body s (i + 1) s'"
        using True Inr by (rule for_reach_first)
      with jt(1) have "for_reach i b body s j t" by (rule for_reach_trans)
      with jt show ?thesis by blast
    qed
  qed
qed

lemma for_reach_invariant:
  assumes "for_reach i b body s j t" and "P i s"
    and "\<And>j t t'. i \<le> j \<Longrightarrow> j < b \<Longrightarrow> P j t \<Longrightarrow> body j t = Inr t' \<Longrightarrow> P (j + 1) t'"
  shows "P j t"
  using assms(1)
proof (induction rule: for_reach.induct)
  case start
  show ?case by (rule assms(2))
next
  case (step j t t')
  from step.hyps(1) have "i \<le> j" by (rule for_reach_le)
  then show ?case using step.hyps(2) step.IH step.hyps(3) by (rule assms(3))
qed

subsection \<open>The helpers fail with range errors only\<close>

lemma oor_Inr [oor_intros]: "oor (Inr x)"
  by (simp add: oor_def)

lemma oor_bindE [oor_intros]: "oor m \<Longrightarrow> (\<And>x. oor (f x)) \<Longrightarrow> oor (bindE m f)"
  by (cases m) (simp_all add: oor_def)

lemma oor_at_vec [oor_intros]: "oor (at_vec xs i)"
  by (simp add: oor_def at_vec_def)

lemma oor_at_mat [oor_intros]: "oor (at_mat m k n)"
  unfolding at_mat_def by (intro oor_intros)

lemma oor_getters [oor_intros]:
  "oor (getTime p n)" "oor (getGenTime p n)" "oor (getPowNorm p n)" "oor (getRhoImp p n)"
  "oor (getBetaEff p n)" "oor (getLambdaH p n)" "oor (getDecayConstant p k n)"
  "oor (getDelayedFraction p k n)"
  unfolding getTime_def getGenTime_def getPowNorm_def getRhoImp_def getBetaEff_def getLambdaH_def
    getDecayConstant_def getDelayedFraction_def
  by (intro oor_intros)+

lemma oor_computeDT [oor_intros]: "oor (computeDT p n)"
  unfolding computeDT_def by (intro oor_intros)


lemma oor_computeOmega [oor_intros]: "oor (computeOmega u p k n w gamma)"
  unfolding computeOmega_def by (intro oor_intros)

lemma oor_computeZetaHat [oor_intros]: "oor (computeZetaHat u s k n w gamma)"
  unfolding computeZetaHat_def Let_def by (intro oor_intros)


lemma oor_computeABC_coeffs [oor_intros]: "oor (computeABC_coeffs u s n alpha a1b1 tau shd sdp)"
  unfolding computeABC_coeffs_def Let_def by (intro oor_intros)


lemma oor_acceptTransformation [oor_intros]: "oor (acceptTransformation u s n alpha gamma)"
  unfolding acceptTransformation_def Let_def by (intro oor_intros)

lemma oorD: "oor m \<Longrightarrow> m = Inl e \<Longrightarrow> e = OutOfRange"
  by (simp add: oor_def)

subsection \<open>What a step changes\<close>

lemma same_hist_refl [simp]: "same_hist s s"
  by (simp add: same_hist_def)

lemma same_hist_trans: "same_hist s t \<Longrightarrow> same_hist t r \<Longrightarrow> same_hist s r"
  by (simp add: same_hist_def)

lemma computePower_group_frame:
  "computePower_group u n gamma k (acc, s) = Inr (acc', s') \<Longrightarrow> same_hist s s'"
  by (auto simp: computePower_group_def bindE_eq_Inr set_vec_eq_Inr same_hist_def Let_def
      split: prod.splits)

lemma computePower_group_fail:
  "computePower_group u n gamma k (acc, s) = Inl (e, s') \<Longrightarrow> same_hist s s' \<and> e \<noteq> Terminate"
  apply (cases acc)
  apply (simp add: computePower_group_def bindE_eq_Inl bindE_eq_Inr Let_def split: prod.splits)
  apply (elim disjE exE conjE)
  apply (auto simp: same_hist_def set_vec_eq_Inr set_vec_eq_Inl  
        dest!: oorD[rotated] intro: oor_intros)
  done

lemma for_loop_Inr_invariant:
  assumes "for_loop i b body s = Inr t" and "P i s"
    and "\<And>j t t'. i \<le> j \<Longrightarrow> j < b \<Longrightarrow> P j t \<Longrightarrow> body j t = Inr t' \<Longrightarrow> P (j + 1) t'"
  shows "P (max i b) t"
  using for_loop_Inr_reach[OF assms(1)] assms(2,3) by (rule for_reach_invariant)

lemma for_loop_Inl_invariant:
  assumes "for_loop i b body s = Inl e" and "P i s"
    and "\<And>j t t'. i \<le> j \<Longrightarrow> j < b \<Longrightarrow> P j t \<Longrightarrow> body j t = Inr t' \<Longrightarrow> P (j + 1) t'"
  obtains j t where "i \<le> j" "j < b" "P j t" "body j t = Inl e"
proof -
  from for_loop_Inl_reach[OF assms(1)] obtain j t where
    r: "for_reach i b body s j t" and jb: "j < b" and f: "body j t = Inl e" by blast
  from r assms(2,3) have "P j t" by (rule for_reach_invariant)
  show ?thesis by (rule that[OF for_reach_le[OF r] jb \<open>P j t\<close> f])
qed

lemma groups_frame:
  assumes "for_loop i K (computePower_group u n gamma) (acc, s) = Inr (acc', s')"
  shows "same_hist s s'"
proof -
  have "(\<lambda>j c. same_hist s (snd c)) (max i K) (acc', s')"
    using assms
  proof (rule for_loop_Inr_invariant)
    show "same_hist s (snd (acc, s))" by simp
  next
    fix j c c'
    assume "same_hist s (snd c)" "computePower_group u n gamma j c = Inr c'"
    then show "same_hist s (snd c')"
      by (cases c; cases c') (auto dest: computePower_group_frame intro: same_hist_trans)
  qed
  then show ?thesis by simp
qed

lemma groups_fail:
  assumes "for_loop i K (computePower_group u n gamma) (acc, s) = Inl (e, s')"
  shows "same_hist s s' \<and> e \<noteq> Terminate"
proof -
  from assms obtain j c where "(\<lambda>j c. same_hist s (snd c)) j c"
    and f: "computePower_group u n gamma j c = Inl (e, s')"
  proof (rule for_loop_Inl_invariant)
    show "same_hist s (snd (acc, s))" by simp
  next
    fix j c c'
    assume "same_hist s (snd c)" "computePower_group u n gamma j c = Inr c'"
    then show "same_hist s (snd c')"
      by (cases c; cases c') (auto dest: computePower_group_frame intro: same_hist_trans)
  qed
  then show ?thesis
    by (cases c) (auto dest: computePower_group_fail intro: same_hist_trans)
qed

lemma computePower_Inr:
  assumes "computePower u n alpha gamma s = Inr (pw, s1)"
  obtains tau shd sdp a1b1 where
    "for_loop 0 (getNumPrecursors (params s)) (computePower_group u n gamma) ((0, 0, 0), s)
       = Inr ((tau, shd, sdp), s1)"
    "computeA1B1 u s1 n gamma = Inr a1b1"
    "computeABC u s1 n alpha a1b1 tau shd sdp = Inr pw"
  using assms
  by (auto simp: computePower_def bindE_eq_Inr split: prod.splits)

lemma computePower_frame:
  "computePower u n alpha gamma s = Inr (pw, s1) \<Longrightarrow> same_hist s s1"
  by (erule computePower_Inr) (rule groups_frame)

lemma computePower_fail:
  assumes "computePower u n alpha gamma s = Inl (e, s1)"
  shows "same_hist s s1"
  using assms
  by (auto simp: computePower_def bindE_eq_Inl bindE_eq_Inr split: prod.splits
      dest: groups_fail groups_frame)

lemma select_root_Inl: "select_root u abc = Inl e \<Longrightarrow> e = Terminate"
  by (auto simp: select_root_def split: prod.splits if_splits)

lemma wrote_at_refl [simp]: "wrote_at n xs xs"
  by (simp add: wrote_at_def)

lemma wrote_at_update [simp]: "wrote_at n xs (xs[n := v])"
  by (cases "n < length xs") (simp_all add: wrote_at_def list_update_beyond)

lemma wrote_at_trans: "wrote_at n xs ys \<Longrightarrow> wrote_at n ys zs \<Longrightarrow> wrote_at n xs zs"
  unfolding wrote_at_def by (metis list_update_overwrite)

lemma wrote_at_length: "wrote_at n xs ys \<Longrightarrow> length ys = length xs"
  unfolding wrote_at_def by (metis length_list_update)

lemma list_all2_wrote_at_refl [simp]: "list_all2 (wrote_at n) m m"
  by (simp add: list_all2_refl)

lemma list_all2_wrote_at_trans:
  "list_all2 (wrote_at n) m m' \<Longrightarrow> list_all2 (wrote_at n) m' m'' \<Longrightarrow> list_all2 (wrote_at n) m m''"
  by (erule (1) list_all2_trans[rotated]) (rule wrote_at_trans)

lemma list_all2_wrote_at_update:
  "k < length m \<Longrightarrow> list_all2 (wrote_at n) m (m[k := (m ! k)[n := v]])"
  by (simp add: list_all2_conv_all_nth nth_list_update)

lemma step_frame_refl [simp]: "step_frame n s s"
  by (simp add: step_frame_def)

lemma step_frame_trans: "step_frame n s t \<Longrightarrow> step_frame n t r \<Longrightarrow> step_frame n s r"
  by (auto simp: step_frame_def intro: wrote_at_trans list_all2_wrote_at_trans)

lemma same_hist_step_frame: "same_hist s t \<Longrightarrow> step_frame n s t"
  by (simp add: same_hist_def step_frame_def)

lemma solve_conc_frame:
  "solve_conc n k s = Inr s' \<Longrightarrow> step_frame (nat n) s s' \<and> power s' = power s \<and> rho s' = rho s
     \<and> omega s' = omega s \<and> zeta_hat s' = zeta_hat s"
  by (auto simp: solve_conc_def bindE_eq_Inr set_mat_eq_Inr step_frame_def
      list_all2_wrote_at_update)

lemma solve_conc_fail: "solve_conc n k s = Inl (e, s') \<Longrightarrow> s' = s \<and> e \<noteq> Terminate"
  by (auto simp: solve_conc_def bindE_eq_Inl bindE_eq_Inr at_vec_eq_Inl dest: set_mat_eq_Inl)

lemma conc_loop_frame:
  assumes "for_loop i K (solve_conc n) s = Inr s'"
  shows "step_frame (nat n) s s' \<and> power s' = power s \<and> rho s' = rho s \<and>
         omega s' = omega s \<and> zeta_hat s' = zeta_hat s"
proof -
  let ?P = "\<lambda>(j::int) t. step_frame (nat n) s t \<and> power t = power s \<and> rho t = rho s \<and>
         omega t = omega s \<and> zeta_hat t = zeta_hat s"
  have "?P (max i K) s'"
    using assms
  proof (rule for_loop_Inr_invariant[where P = ?P])
    show "?P i s" by simp
  next
    fix j t t'
    assume "?P j t" "solve_conc n j t = Inr t'"
    then show "?P (j + 1) t'"
      by (auto dest!: solve_conc_frame intro: step_frame_trans)
  qed
  then show ?thesis .
qed

lemma conc_loop_fail:
  assumes "for_loop i K (solve_conc n) s = Inl (e, s')"
  shows "step_frame (nat n) s s' \<and> power s' = power s \<and> rho s' = rho s \<and> e \<noteq> Terminate"
proof -
  let ?P = "\<lambda>(j::int) t. step_frame (nat n) s t \<and> power t = power s \<and> rho t = rho s"
  from assms obtain j t where "?P j t" and f: "solve_conc n j t = Inl (e, s')"
  proof (rule for_loop_Inl_invariant[where P = ?P])
    show "?P i s" by simp
  next
    fix j t t'
    assume "?P j t" "solve_conc n j t = Inr t'"
    then show "?P (j + 1) t'"
      by (auto dest!: solve_conc_frame intro: step_frame_trans)
  qed
  then show ?thesis by (auto dest: solve_conc_fail)
qed

lemma solve_step_Inr:
  assumes "solve_step u n (a0, s) = Inr (a', s')"
  obtains gamma pw s1 s3 a1b1 where
    "computeGamma (params s) n = Inr gamma"
    "solve_alpha u s n a0 = Inr a'"
    "computePower u n a' gamma s = Inr (pw, s1)"
    "0 \<le> n" "n < int (length (power s1))"
    "for_loop 0 (getNumPrecursors (params s1)) (solve_conc n) (s1\<lparr>power := (power s1)[nat n := pw]\<rparr>) = Inr s3"
    "computeA1B1 u s3 n gamma = Inr a1b1"
    "n < int (length (rho s3))"
    "s' = s3\<lparr>rho := (rho s3)[nat n := fst a1b1 * (power s3 ! nat n) + snd a1b1]\<rparr>"
  using assms
  by (auto simp: solve_step_def bindE_eq_Inr set_vec_eq_Inr at_vec_eq_Inr Let_def
      split: prod.splits)

lemma solve_step_frame:
  assumes "solve_step u n (a0, s) = Inr (a', s')"
  shows "step_frame (nat n) s s'" "0 \<le> n" "n < int (length (power s))" "n < int (length (rho s))"
proof -
  from assms obtain gamma pw s1 s3 a1b1 where
    cp: "computePower u n a' gamma s = Inr (pw, s1)"
    and n: "0 \<le> n" "n < int (length (power s1))"
    and cl: "for_loop 0 (getNumPrecursors (params s1)) (solve_conc n) (s1\<lparr>power := (power s1)[nat n := pw]\<rparr>) = Inr s3"
    and r: "n < int (length (rho s3))"
    and s': "s' = s3\<lparr>rho := (rho s3)[nat n := fst a1b1 * (power s3 ! nat n) + snd a1b1]\<rparr>"
    by (rule solve_step_Inr)
  from cp have sh: "same_hist s s1" by (rule computePower_frame)
  note cf = conc_loop_frame[OF cl]
  have 1: "step_frame (nat n) s (s1\<lparr>power := (power s1)[nat n := pw]\<rparr>)"
    using sh by (simp add: same_hist_def step_frame_def)
  have 2: "step_frame (nat n) s3 s'"
    unfolding s' by (simp add: step_frame_def)
  from 1 cf 2 show "step_frame (nat n) s s'" by (blast intro: step_frame_trans)
  show "0 \<le> n" by fact
  from n sh show "n < int (length (power s))" by (simp add: same_hist_def)
  from r cf sh show "n < int (length (rho s))" by (simp add: same_hist_def)
qed

lemma solve_step_fail_frame:
  assumes "solve_step u n (a0, s) = Inl (e, s')"
  shows "step_frame (nat n) s s'"
proof -
  have A: "same_hist s s1 \<Longrightarrow> step_frame (nat n) s (s1\<lparr>power := (power s1)[nat n := pw]\<rparr>)"
    for s1 pw
    by (simp add: same_hist_def step_frame_def)
  from assms show ?thesis
    apply (simp add: solve_step_def bindE_eq_Inl bindE_eq_Inr Let_def split: prod.splits)
    apply (elim disjE exE conjE)
            apply (auto simp: set_vec_eq_Inr 
        dest!: computePower_fail computePower_frame conc_loop_fail conc_loop_frame
        intro: same_hist_step_frame step_frame_trans A)
    done
qed


subsection \<open>What the loop has changed at the head of a step\<close>

lemmas getter_defs = at_vec_def at_mat_def getNumTimeSteps_def getNumPrecursors_def
  getTime_def getGenTime_def getPowNorm_def getRhoImp_def getBetaEff_def getLambdaH_def
  getDecayConstant_def getDelayedFraction_def

lemmas ex_defs = ex_lib_def ex_params_def ex_seed_def ex_state_def

lemma unchanged_outside_refl [simp]: "unchanged_outside lo hi xs xs"
  by (simp add: unchanged_outside_def)

lemma unchanged_outside_trans:
  "unchanged_outside lo hi xs ys \<Longrightarrow> unchanged_outside lo hi ys zs \<Longrightarrow> unchanged_outside lo hi xs zs"
  by (simp add: unchanged_outside_def)

lemma unchanged_outside_mono:
  assumes "unchanged_outside lo hi xs ys" "lo' \<le> lo" "hi \<le> hi'"
  shows "unchanged_outside lo' hi' xs ys"
proof -
  from assms(1) have l: "length ys = length xs" and t: "take lo ys = take lo xs"
    and d: "drop hi ys = drop hi xs" by (simp_all add: unchanged_outside_def)
  have "take lo' (take lo ys) = take lo' (take lo xs)" using t by simp
  with assms(2) have t': "take lo' ys = take lo' xs" by (simp add: min_absorb1)
  have "drop (hi' - hi) (drop hi ys) = drop (hi' - hi) (drop hi xs)" using d by simp
  with assms(3) have d': "drop hi' ys = drop hi' xs" by simp
  from l t' d' show ?thesis by (simp add: unchanged_outside_def)
qed

lemma wrote_at_unchanged_outside:
  "wrote_at n xs ys \<Longrightarrow> lo \<le> n \<Longrightarrow> n < hi \<Longrightarrow> unchanged_outside lo hi xs ys"
  unfolding wrote_at_def unchanged_outside_def
  by (metis drop_update_cancel length_list_update take_update_cancel)

lemma hist_unchanged_outside_refl [simp]: "hist_unchanged_outside lo hi s s"
  by (simp add: hist_unchanged_outside_def list_all2_refl)

lemma hist_unchanged_outside_trans:
  "hist_unchanged_outside lo hi s t \<Longrightarrow> hist_unchanged_outside lo hi t r \<Longrightarrow>
     hist_unchanged_outside lo hi s r"
  unfolding hist_unchanged_outside_def
  by (auto intro: unchanged_outside_trans elim: list_all2_trans[rotated])

lemma hist_unchanged_outside_mono:
  "hist_unchanged_outside lo hi s t \<Longrightarrow> lo' \<le> lo \<Longrightarrow> hi \<le> hi' \<Longrightarrow>
     hist_unchanged_outside lo' hi' s t"
  unfolding hist_unchanged_outside_def
  by (auto intro: unchanged_outside_mono elim!: list_all2_mono)

lemma step_frame_unchanged:
  "step_frame n s t \<Longrightarrow> lo \<le> n \<Longrightarrow> n < hi \<Longrightarrow> hist_unchanged_outside lo hi s t"
  unfolding step_frame_def hist_unchanged_outside_def
  by (auto intro: wrote_at_unchanged_outside elim!: list_all2_mono)

lemma same_hist_unchanged: "same_hist s t \<Longrightarrow> hist_unchanged_outside lo hi s t"
  by (simp add: same_hist_def hist_unchanged_outside_def list_all2_refl)

text \<open>At the head of iteration j, only the entries i .. j - 1 have been written.\<close>

lemma solve_reach_frame:
  assumes "for_reach i b (solve_step u) c j c'"
  shows "hist_unchanged_outside (nat i) (nat j) (snd c) (snd c')"
  using assms
proof (induction rule: for_reach.induct)
  case start
  show ?case by simp
next
  case (step j t t')
  from step.hyps(1) have ij: "i \<le> j" by (rule for_reach_le)
  obtain a s where t: "t = (a, s)" by (cases t)
  obtain a' s' where t': "t' = (a', s')" by (cases t')
  from step.hyps(3) have st: "solve_step u j (a, s) = Inr (a', s')" by (simp add: t t')
  from solve_step_frame[OF st] have sf: "step_frame (nat j) s s'" and j0: "0 \<le> j" by simp_all
  from sf ij j0 have "hist_unchanged_outside (nat i) (nat (j + 1)) s s'"
    by (intro step_frame_unchanged) auto
  moreover from step.IH have "hist_unchanged_outside (nat i) (nat j) (snd c) s"
    by (simp add: t)
  then have "hist_unchanged_outside (nat i) (nat (j + 1)) (snd c) s"
    by (rule hist_unchanged_outside_mono) auto
  ultimately show ?case by (auto simp: t' intro: hist_unchanged_outside_trans)
qed

lemma solve_Inr:
  assumes "solve u s = Inr (out, s')"
  obtains alpha where
    "for_loop (getNumTimeSteps_out (precomp s)) (getNumTimeSteps (params s)) (solve_step u) (0, s)
       = Inr (alpha, s')"
    "out = \<lparr> out_power = power s', out_rho = rho s', out_concentrations = concentrations s' \<rparr>"
  using assms by (auto simp: solve_def bindE_eq_Inr split: prod.splits)

lemma solve_Inl:
  "solve u s = Inl e \<longleftrightarrow>
     for_loop (getNumTimeSteps_out (precomp s)) (getNumTimeSteps (params s)) (solve_step u) (0, s)
       = Inl e"
  by (auto simp: solve_def bindE_eq_Inl split: prod.splits)

lemma solve_frame:
  assumes "solve u s = Inr (out, s')"
  shows "hist_unchanged_outside (nat (getNumTimeSteps_out (precomp s)))
           (nat (max (getNumTimeSteps_out (precomp s)) (getNumTimeSteps (params s)))) s s'"
proof -
  from assms obtain alpha where
    "for_loop (getNumTimeSteps_out (precomp s)) (getNumTimeSteps (params s)) (solve_step u) (0, s)
       = Inr (alpha, s')" by (rule solve_Inr)
  from solve_reach_frame[OF for_loop_Inr_reach[OF this]] show ?thesis by simp
qed

lemma ex_solve_0:
  "solve ex_lib (ex_state 0) =
     Inr (\<lparr> out_power = [1, 1], out_rho = [0, 0], out_concentrations = [] \<rparr>,
          (ex_state 0)\<lparr>power := [1, 1]\<rparr>)"
  by (simp add: solve_def solve_step_def solve_alpha_def computePower_def computeGamma_def
      computeABC_def computeABC_coeffs_def select_root_def computeA1B1_def computeDT_def
      getNumTimeSteps_out_def set_vec_def
      getter_defs ex_defs for_loop.simps Let_def)

subsection \<open>The abort, and the rate carried by the loop\<close>

lemmas step_defs = solve_step_def solve_alpha_def computePower_def computeGamma_def
  computeABC_def computeABC_coeffs_def select_root_def computeA1B1_def computeDT_def
  getNumTimeSteps_out_def set_vec_def

lemma solve_step_abort:
  assumes gamma: "computeGamma (params s) n = Inr gamma"
    and alpha: "solve_alpha u s n alpha0 = Inr alpha"
    and groups: "for_loop 0 (getNumPrecursors (params s)) (computePower_group u n gamma)
                   ((0, 0, 0), s) = Inr ((tau, s_hat_d, s_d_prev), s1)"
    and a1b1: "computeA1B1 u s1 n gamma = Inr a1b1"
    and abc: "computeABC_coeffs u s1 n alpha a1b1 tau s_hat_d s_d_prev = Inr (a, b, c)"
    and a: "\<not> a < 0" "\<not> eq_d u a 0"
  shows "solve_step u n (alpha0, s) = Inl (Terminate, s1)"
  using assms by (simp add: solve_step_def computePower_def computeABC_def select_root_def)

lemma solve_head_loop:
  assumes "solve_head u s0 n c"
  shows "for_loop (getNumTimeSteps_out (precomp s0)) (getNumTimeSteps (params s0)) (solve_step u)
           (0, s0) = for_loop n (getNumTimeSteps (params s0)) (solve_step u) c"
  using assms unfolding solve_head_def by (rule for_reach_loop)

lemma ex3_step1: "solve_step ex_lib 1 (0, ex3_state [1, 0, 0]) = Inr (0, ex3_state [1, 1, 0])"
  by (simp add: step_defs getter_defs ex_defs ex3_params_def ex3_state_def for_loop.simps Let_def)

lemma ex3_head2: "solve_head ex_lib (ex3_state [1, 0, 0]) 2 (0, ex3_state [1, 1, 0])"
proof -
  have "for_reach 1 3 (solve_step ex_lib) (0, ex3_state [1, 0, 0]) (1 + 1) (0, ex3_state [1, 1, 0])"
    by (rule for_reach_first) (simp_all add: ex3_step1)
  then show ?thesis
    by (simp add: solve_head_def getter_defs getNumTimeSteps_out_def ex_defs ex3_params_def
        ex3_state_def)
qed


lemmas ex4_defs = ex4_params_def ex4_seed_def ex4_state_def

lemma ex4_step2:
  "solve_step ex_lib 2 (0, ex4_state) =
     Inr (ln 2, ex4_state\<lparr>power := [1, 2, (- 2 - exp (ln 2 * 2) * 2) / (- (2 * ln 2) - 1)],
                            zeta_hat := [1], concentrations := [[1, 1, 1]]\<rparr>)"
  by (simp add: step_defs computePower_group_def computeOmega_def computeZetaHat_def
      solve_conc_def set_mat_def
      getter_defs ex_defs ex4_defs for_loop.simps Let_def)

subsection \<open>The constructor\<close>

lemma take_drop_update:
  "j < length xs \<Longrightarrow> j < length ys \<Longrightarrow>
     (take j xs @ drop j ys)[j := xs ! j] = take (Suc j) xs @ drop (Suc j) ys"
  by (simp add: take_Suc_conv_app_nth list_update_append Cons_nth_drop_Suc[symmetric])

lemma Solver_hist_loop:
  fixes pre :: "'d EPKEOutput"
  assumes "for_loop 0 (int L) (Solver_hist pre) (pw0, rh0) = Inr (pw, rh)"
    and L: "L = length (out_power pre)"
  shows "pw = out_power pre @ drop L pw0 \<and> rh = take L (out_rho pre) @ drop L rh0 \<and>
         L \<le> length pw0 \<and> L \<le> length rh0 \<and> L \<le> length (out_rho pre)"
proof -
  let ?P = "\<lambda>(j::int) (c::'d list \<times> 'd list). 0 \<le> j \<and>
     fst c = take (nat j) (out_power pre) @ drop (nat j) pw0 \<and>
     snd c = take (nat j) (out_rho pre) @ drop (nat j) rh0 \<and>
     nat j \<le> length pw0 \<and> nat j \<le> length rh0 \<and> nat j \<le> length (out_rho pre) \<and>
     nat j \<le> length (out_power pre)"
  have "?P (max 0 (int L)) (pw, rh)"
    using assms(1)
  proof (rule for_loop_Inr_invariant[where P = ?P])
    show "?P 0 (pw0, rh0)" by simp
  next
    fix j :: int and t t' :: "'d list \<times> 'd list"
    assume j: "0 \<le> j" "j < int L" and P: "?P j t" and b: "Solver_hist pre j t = Inr t'"
    obtain a r where t: "t = (a, r)" by (cases t)
    obtain a' r' where t': "t' = (a', r')" by (cases t')
    from j have nj: "nat (j + 1) = Suc (nat j)" by simp
    from b have *: "j < int (length (out_power pre))" "j < int (length a)"
      "a' = a[nat j := out_power pre ! nat j]"
      "j < int (length (out_rho pre))" "j < int (length r)"
      "r' = r[nat j := out_rho pre ! nat j]"
      by (auto simp: Solver_hist_def t t' bindE_eq_Inr getPower_def getRho_def at_vec_eq_Inr
          set_vec_eq_Inr)
    from P have a: "a = take (nat j) (out_power pre) @ drop (nat j) pw0"
      and r: "r = take (nat j) (out_rho pre) @ drop (nat j) rh0"
      and le: "nat j \<le> length pw0" "nat j \<le> length rh0" by (simp_all add: t)
    from * j le have lt: "nat j < length (out_power pre)" "nat j < length pw0"
      "nat j < length (out_rho pre)" "nat j < length rh0"
      by (auto simp: a r)
    have "a' = take (Suc (nat j)) (out_power pre) @ drop (Suc (nat j)) pw0"
      unfolding *(3) a using lt by (simp add: take_drop_update)
    moreover have "r' = take (Suc (nat j)) (out_rho pre) @ drop (Suc (nat j)) rh0"
      unfolding *(6) r using lt by (simp add: take_drop_update)
    ultimately show "?P (j + 1) t'"
      using j lt by (simp add: t' nj)
  qed
  then show ?thesis by (simp add: L)
qed

lemma Solver_conc_loop:
  fixes pre :: "'d EPKEOutput"
  assumes "for_loop 0 (int L) (Solver_conc_row pre k) c0 = Inr c"
  shows "c = c0[nat k := take L (out_concentrations pre ! nat k) @ drop L (c0 ! nat k)] \<and>
         (0 < L \<longrightarrow> 0 \<le> k \<and> k < int (length c0) \<and> k < int (length (out_concentrations pre)) \<and>
            L \<le> length (out_concentrations pre ! nat k) \<and> L \<le> length (c0 ! nat k))"
proof -
  let ?oc = "out_concentrations pre ! nat k"
  let ?P = "\<lambda>(j::int) (c::'d list list). 0 \<le> j \<and>
     c = c0[nat k := take (nat j) ?oc @ drop (nat j) (c0 ! nat k)] \<and>
     (0 < j \<longrightarrow> 0 \<le> k \<and> k < int (length c0) \<and> k < int (length (out_concentrations pre)) \<and>
            nat j \<le> length ?oc \<and> nat j \<le> length (c0 ! nat k))"
  have "?P (max 0 (int L)) c"
    using assms(1)
  proof (rule for_loop_Inr_invariant[where P = ?P])
    show "?P 0 c0" by simp
  next
    fix j :: int and t t' :: "'d list list"
    assume j: "0 \<le> j" "j < int L" and P: "?P j t" and b: "Solver_conc_row pre k j t = Inr t'"
    from j have nj: "nat (j + 1) = Suc (nat j)" by simp
    from P have t: "t = c0[nat k := take (nat j) ?oc @ drop (nat j) (c0 ! nat k)]" by simp
    from b have *: "0 \<le> k" "k < int (length (out_concentrations pre))" "j < int (length ?oc)"
      "k < int (length t)" "j < int (length (t ! nat k))"
      "t' = t[nat k := (t ! nat k)[nat j := ?oc ! nat j]]"
      by (auto simp: Solver_conc_row_def bindE_eq_Inr getConcentration_def at_mat_eq_Inr
          set_mat_eq_Inr)
    from *(4) have k: "nat k < length c0" using *(1) by (simp add: t)
    with * j have lt: "nat j < length ?oc" "nat j < length (c0 ! nat k)"
      by (auto simp: t)
    have "t' = c0[nat k := take (Suc (nat j)) ?oc @ drop (Suc (nat j)) (c0 ! nat k)]"
      unfolding *(6) using k lt by (simp add: t take_drop_update)
    then show "?P (j + 1) t'"
      using j lt k * by (simp add: nj)
  qed
  then show ?thesis by simp
qed

lemma Solver_conc_outer:
  fixes pre :: "('d::zero) EPKEOutput"
  assumes "for_loop 0 (int K) (Solver_conc pre) (replicate K (replicate N 0)) = Inr c"
    and L: "L = length (out_power pre)"
  shows "length c = K \<and>
         (\<forall>k<K. c ! k = take L (out_concentrations pre ! k) @ replicate (N - L) 0) \<and>
         (0 < L \<longrightarrow> 0 < K \<longrightarrow> K \<le> length (out_concentrations pre) \<and> L \<le> N \<and>
            (\<forall>k<K. L \<le> length (out_concentrations pre ! k)))"
proof -
  let ?oc = "out_concentrations pre"
  let ?P = "\<lambda>(j::int) (c::'d list list). 0 \<le> j \<and> nat j \<le> K \<and> length c = K \<and>
     (\<forall>k<nat j. c ! k = take L (?oc ! k) @ replicate (N - L) 0) \<and>
     (\<forall>k<K. nat j \<le> k \<longrightarrow> c ! k = replicate N 0) \<and>
     (0 < L \<longrightarrow> 0 < j \<longrightarrow> nat j \<le> length ?oc \<and> L \<le> N \<and> (\<forall>k<nat j. L \<le> length (?oc ! k)))"
  have "?P (max 0 (int K)) c"
    using assms(1)
  proof (rule for_loop_Inr_invariant[where P = ?P])
    show "?P 0 (replicate K (replicate N 0))" by simp
  next
    fix j :: int and t t' :: "'d list list"
    assume j: "0 \<le> j" "j < int K" and P: "?P j t" and b: "Solver_conc pre j t = Inr t'"
    from j have nj: "nat (j + 1) = Suc (nat j)" and jK: "nat j < K" by simp_all
    from b have "for_loop 0 (int L) (Solver_conc_row pre j) t = Inr t'"
      by (simp add: Solver_conc_def getNumTimeSteps_out_def L)
    note cl = Solver_conc_loop[OF this]
    from P jK have tj: "t ! nat j = replicate N 0" and lt: "length t = K" by simp_all
    from cl have t': "t' = t[nat j := take L (?oc ! nat j) @ replicate (N - L) 0]"
      by (simp add: tj)
    have 1: "\<forall>k<Suc (nat j). t' ! k = take L (?oc ! k) @ replicate (N - L) 0"
      using P jK lt by (auto simp: t' nth_list_update less_Suc_eq)
    have 2: "\<forall>k<K. Suc (nat j) \<le> k \<longrightarrow> t' ! k = replicate N 0"
      using P jK lt by (auto simp: t' nth_list_update)
    have 3: "Suc (nat j) \<le> length ?oc \<and> L \<le> N \<and> (\<forall>k<Suc (nat j). L \<le> length (?oc ! k))"
      if "0 < L"
    proof -
      from cl that have a: "j < int (length ?oc)" "L \<le> length (?oc ! nat j)"
        "L \<le> length (t ! nat j)" by simp_all
      from a(3) have "L \<le> N" by (simp add: tj)
      moreover have "\<forall>k<Suc (nat j). L \<le> length (?oc ! k)"
        using P a that j by (auto simp: less_Suc_eq)
      ultimately show ?thesis using a j by auto
    qed
    from 1 2 3 j jK show "?P (j + 1) t'"
      by (simp add: nj t' lt)
  qed
  then show ?thesis by auto
qed

lemma Solver_Inr:
  assumes "Solver p pre = Inr s"
  defines "N \<equiv> num_time_steps p" and "K \<equiv> num_precursors p" and "L \<equiv> length (out_power pre)"
  shows "params s = p" "precomp s = pre" "L \<le> N" "L \<le> length (out_rho pre)"
    "power s = out_power pre @ replicate (N - L) 0"
    "rho s = take L (out_rho pre) @ replicate (N - L) 0"
    "omega s = replicate K 0" "zeta_hat s = replicate K 0"
    "length (concentrations s) = K"
    "\<forall>k<K. concentrations s ! k = take L (out_concentrations pre ! k) @ replicate (N - L) 0"
    "0 < L \<longrightarrow> 0 < K \<longrightarrow> K \<le> length (out_concentrations pre) \<and>
       (\<forall>k<K. L \<le> length (out_concentrations pre ! k))"
proof -
  from assms(1) obtain c pw rh where
    c: "for_loop 0 (int K) (Solver_conc pre) (replicate K (replicate N 0)) = Inr c"
    and h: "for_loop 0 (int L) (Solver_hist pre) (replicate N 0, replicate N 0) = Inr (pw, rh)"
    and s: "s = \<lparr> params = p, precomp = pre, power = pw, rho = rh,
            omega = replicate K 0, zeta_hat = replicate K 0, concentrations = c \<rparr>"
    by (auto simp: Solver_def Let_def bindE_eq_Inr getNumTimeSteps_def getNumPrecursors_def
        getNumTimeSteps_out_def N_def K_def L_def split: prod.splits)
  have L: "L = length (out_power pre)" by (simp add: L_def)
  note H = Solver_hist_loop[OF h L]
  note C = Solver_conc_outer[OF c L]
  show "params s = p" "precomp s = pre" "omega s = replicate K 0" "zeta_hat s = replicate K 0"
    by (simp_all add: s)
  from H show "L \<le> N" "L \<le> length (out_rho pre)" by simp_all
  from H show "power s = out_power pre @ replicate (N - L) 0"
    "rho s = take L (out_rho pre) @ replicate (N - L) 0" by (simp_all add: s)
  from C show "length (concentrations s) = K"
    "\<forall>k<K. concentrations s ! k = take L (out_concentrations pre ! k) @ replicate (N - L) 0"
    "0 < L \<longrightarrow> 0 < K \<longrightarrow> K \<le> length (out_concentrations pre) \<and>
       (\<forall>k<K. L \<le> length (out_concentrations pre ! k))"
    by (simp_all add: s)
qed

lemma Solver_wf:
  assumes "Solver p pre = Inr s"
  shows "wf_state s"
proof -
  note S = Solver_Inr[OF assms]
  have "length row = num_time_steps p" if "row \<in> set (concentrations s)" for row
  proof -
    from that obtain k where k: "k < num_precursors p" "row = concentrations s ! k"
      by (auto simp: in_set_conv_nth S(9))
    show ?thesis
    proof (cases "0 < length (out_power pre)")
      case True
      with S(11) k have "length (out_power pre) \<le> length (out_concentrations pre ! k)" by auto
      with S(3) S(10) k show ?thesis by simp
    next
      case False
      with S(10) k show ?thesis by simp
    qed
  qed
  with S show ?thesis
    by (simp add: wf_state_def list_all_iff)
qed

lemma ex_createFineSolver:
  "createFineSolver ex_interpolate ex_createPrecomputed [0, 1 / 2, 1] 0
     (Solver_obj ((ex_state 0)\<lparr>power := [1, 1]\<rparr>) []) =
   Inr (Solver_obj (ex3_state [1, 0, 0]\<lparr>params := ex_interpolate (ex_params 0) [0, 1 / 2, 1]\<rparr>) [],
        Solver_obj ((ex_state 0)\<lparr>power := [1, 1]\<rparr>)
          [Solver_obj (ex3_state [1, 0, 0]\<lparr>params := ex_interpolate (ex_params 0) [0, 1 / 2, 1]\<rparr>) []])"
  by (simp add: createFineSolver_def Solver_def Solver_hist_def getPower_def getRho_def
      getNumTimeSteps_out_def set_vec_def getter_defs ex_defs ex3_state_def
      ex_interpolate_def ex_createPrecomputed_def for_loop.simps Let_def eval_nat_numeral)

subsection \<open>Accesses inside the vectors\<close>

lemma ok_Inr [ok_intros, simp]: "ok (Inr x)"
  by (simp add: ok_def)

lemma ok_Inl [simp]: "\<not> ok (Inl e)"
  by (simp add: ok_def)

lemma ok_bindE [ok_intros]: "ok m \<Longrightarrow> (\<And>x. ok (f x)) \<Longrightarrow> ok (bindE m f)"
  by (cases m) simp_all

lemma okE: "ok m \<Longrightarrow> (\<And>x. m = Inr x \<Longrightarrow> P) \<Longrightarrow> P"
  by (cases m) simp_all

lemma ok_at_vec: "0 \<le> i \<Longrightarrow> i < int (length xs) \<Longrightarrow> ok (at_vec xs i)"
  by (simp add: at_vec_def)

lemma ok_at_mat:
  "0 \<le> k \<Longrightarrow> k < int (length m) \<Longrightarrow> list_all (\<lambda>row. length row = N) m \<Longrightarrow>
     0 \<le> n \<Longrightarrow> n < int N \<Longrightarrow> ok (at_mat m k n)"
  by (simp add: at_mat_def at_vec_def list_all_length)

lemma ok_getters:
  assumes "wf_params p" "0 \<le> n" "n < int (num_time_steps p)"
  shows "ok (getTime p n)" "ok (getGenTime p n)" "ok (getPowNorm p n)" "ok (getRhoImp p n)"
    "ok (getBetaEff p n)" "ok (getLambdaH p n)"
    "0 \<le> k \<Longrightarrow> k < int (num_precursors p) \<Longrightarrow> ok (getDecayConstant p k n)"
    "0 \<le> k \<Longrightarrow> k < int (num_precursors p) \<Longrightarrow> ok (getDelayedFraction p k n)"
  using assms
  by (auto simp: wf_params_def getTime_def getGenTime_def getPowNorm_def getRhoImp_def
      getBetaEff_def getLambdaH_def getDecayConstant_def getDelayedFraction_def
      intro!: ok_at_vec ok_at_mat)

lemma ok_computeDT:
  "wf_params p \<Longrightarrow> 1 \<le> n \<Longrightarrow> n < int (num_time_steps p) \<Longrightarrow> ok (computeDT p n)"
  unfolding computeDT_def by (intro ok_intros ok_getters) auto

lemma ok_computeGamma:
  "wf_params p \<Longrightarrow> 1 \<le> n \<Longrightarrow> n < int (num_time_steps p) \<Longrightarrow> ok (computeGamma p n)"
  unfolding computeGamma_def by (auto intro!: ok_intros ok_computeDT)

lemma ok_computeOmega:
  "wf_params p \<Longrightarrow> 1 \<le> n \<Longrightarrow> n < int (num_time_steps p) \<Longrightarrow> 0 \<le> k \<Longrightarrow>
     k < int (num_precursors p) \<Longrightarrow> ok (computeOmega u p k n w gamma)"
  unfolding computeOmega_def by (intro ok_intros ok_getters ok_computeDT) auto

lemma ok_state_reads:
  assumes "wf_state s" "0 \<le> m" "m < int (num_time_steps (params s))"
  shows "ok (at_vec (power s) m)" "ok (at_vec (rho s) m)"
    "0 \<le> k \<Longrightarrow> k < int (num_precursors (params s)) \<Longrightarrow> ok (at_mat (concentrations s) k m)"
  using assms by (auto simp: wf_state_def intro!: ok_at_vec ok_at_mat)

lemma ok_scratch_reads:
  assumes "wf_state s" "0 \<le> k" "k < int (num_precursors (params s))"
  shows "ok (at_vec (omega s) k)" "ok (at_vec (zeta_hat s) k)"
  using assms by (auto simp: wf_state_def intro!: ok_at_vec)

lemma ok_computeZetaHat:
  assumes "wf_params (params s)" "wf_state s" "1 \<le> n" "n < int (num_time_steps (params s))"
    "0 \<le> k" "k < int (num_precursors (params s))"
  shows "ok (computeZetaHat u s k n w gamma)"
  unfolding computeZetaHat_def Let_def
  using assms by (intro ok_intros ok_getters ok_computeDT ok_state_reads) auto

lemma ok_computeA1B1:
  assumes "wf_params (params s)" "wf_state s" "1 \<le> n" "n < int (num_time_steps (params s))"
  shows "ok (computeA1B1 u s n gamma)"
  unfolding computeA1B1_def Let_def
  using assms by (intro ok_intros ok_getters ok_computeDT ok_state_reads) auto

lemma ok_computeABC_coeffs:
  assumes "wf_params (params s)" "wf_state s" "1 \<le> n" "n < int (num_time_steps (params s))"
  shows "ok (computeABC_coeffs u s n alpha a1b1 tau shd sdp)"
  unfolding computeABC_coeffs_def Let_def
  using assms by (intro ok_intros ok_getters ok_computeDT ok_state_reads) auto

lemma ok_solve_alpha:
  assumes "wf_params (params s)" "wf_state s" "1 \<le> n" "n < int (num_time_steps (params s))"
  shows "ok (solve_alpha u s n alpha)"
  unfolding solve_alpha_def
  using assms by (auto intro!: ok_intros ok_getters ok_computeDT ok_state_reads)

lemma ok_acceptTransformation:
  assumes "wf_params (params s)" "wf_state s" "1 \<le> n" "n < int (num_time_steps (params s))"
  shows "ok (acceptTransformation u s n alpha gamma)"
  unfolding acceptTransformation_def Let_def
  using assms by (intro ok_intros ok_getters ok_computeDT ok_state_reads) auto

lemma ok_bindE_dep: "ok m \<Longrightarrow> (\<And>x. m = Inr x \<Longrightarrow> ok (f x)) \<Longrightarrow> ok (bindE m f)"
  by (cases m) simp_all

lemma ok_throwing [simp]: "ok (throwing s m) \<longleftrightarrow> ok m"
  by (cases m) (simp_all add: throwing_def)

lemma ok_set_vec: "0 \<le> i \<Longrightarrow> i < int (length xs) \<Longrightarrow> ok (set_vec xs i x)"
  by (simp add: set_vec_def)

lemma ok_set_mat:
  "0 \<le> k \<Longrightarrow> k < int (length m) \<Longrightarrow> list_all (\<lambda>row. length row = N) m \<Longrightarrow>
     0 \<le> n \<Longrightarrow> n < int N \<Longrightarrow> ok (set_mat m k n x)"
  by (simp add: set_mat_def set_vec_def list_all_length)

lemma ok_or_abort_Inr [simp]: "ok_or_abort (Inr x)"
  by (simp add: ok_or_abort_def)

lemma ok_or_abort_Inl [simp]: "ok_or_abort (Inl (e, s)) \<longleftrightarrow> e = Terminate"
  by (simp add: ok_or_abort_def)

lemma ok_imp_ok_or_abort: "ok m \<Longrightarrow> ok_or_abort m"
  by (cases m) simp_all

lemma ok_or_abort_bindE:
  "ok_or_abort m \<Longrightarrow> (\<And>x. m = Inr x \<Longrightarrow> ok_or_abort (f x)) \<Longrightarrow> ok_or_abort (bindE m f)"
  by (cases m) (auto simp: ok_or_abort_def)

lemma for_loop_ok:
  assumes "I i s"
    and "\<And>j t. i \<le> j \<Longrightarrow> j < b \<Longrightarrow> I j t \<Longrightarrow> ok (body j t)"
    and "\<And>j t t'. i \<le> j \<Longrightarrow> j < b \<Longrightarrow> I j t \<Longrightarrow> body j t = Inr t' \<Longrightarrow> I (j + 1) t'"
  shows "ok (for_loop i b body s)"
proof (cases "for_loop i b body s")
  case (Inl e)
  then obtain j t where "i \<le> j" "j < b" "I j t" "body j t = Inl e"
    using assms(1,3) by (rule for_loop_Inl_invariant[where P = I])
  with assms(2)[of j t] show ?thesis by simp
next
  case (Inr t)
  then show ?thesis by simp
qed

lemma for_loop_ok_or_abort:
  assumes "I i s"
    and "\<And>j t. i \<le> j \<Longrightarrow> j < b \<Longrightarrow> I j t \<Longrightarrow> ok_or_abort (body j t)"
    and "\<And>j t t'. i \<le> j \<Longrightarrow> j < b \<Longrightarrow> I j t \<Longrightarrow> body j t = Inr t' \<Longrightarrow> I (j + 1) t'"
  shows "ok_or_abort (for_loop i b body s)"
proof (cases "for_loop i b body s")
  case (Inl e)
  then obtain j t where "i \<le> j" "j < b" "I j t" "body j t = Inl e"
    using assms(1,3) by (rule for_loop_Inl_invariant[where P = I])
  with assms(2)[of j t] show ?thesis by (simp add: Inl)
next
  case (Inr t)
  then show ?thesis by simp
qed

lemma same_hist_wf: "same_hist s t \<Longrightarrow> wf_state s \<Longrightarrow> wf_state t"
  by (simp add: same_hist_def wf_state_def)

lemma list_all2_wrote_at_lengths:
  assumes "list_all2 (wrote_at n) m m'" "list_all (\<lambda>row. length row = N) m"
  shows "list_all (\<lambda>row. length row = N) m'"
  using assms
  by (auto simp: list_all2_conv_all_nth list_all_length dest!: wrote_at_length)

lemma step_frame_wf: "step_frame n s t \<Longrightarrow> wf_state s \<Longrightarrow> wf_state t"
  unfolding step_frame_def wf_state_def
  by (auto dest: wrote_at_length list_all2_lengthD intro: list_all2_wrote_at_lengths)

lemma ok_computePower_group:
  assumes "wf_params (params s)" "wf_state s" "1 \<le> n" "n < int (num_time_steps (params s))"
    "0 \<le> k" "k < int (num_precursors (params s))"
  shows "ok (computePower_group u n gamma k (acc, s))"
proof -
  have wf1: "wf_state (s\<lparr>omega := (omega s)[nat k := x]\<rparr>)" for x
    using assms(2) by (simp add: wf_state_def)
  have wf2: "wf_state (s\<lparr>omega := (omega s)[nat k := x], zeta_hat := (zeta_hat s)[nat k := y]\<rparr>)"
    for x y
    using assms(2) by (simp add: wf_state_def)
  have len: "k < int (length (omega s))" "k < int (length (zeta_hat s))"
    using assms(2,6) by (simp_all add: wf_state_def)
  obtain tau shd sdp where acc: "acc = (tau, shd, sdp)" by (cases acc)
  show ?thesis
    unfolding computePower_group_def acc prod.case Let_def
    apply (intro ok_bindE_dep ok_throwing[THEN iffD2] ok_Inr)
    using assms len
                 apply (auto simp: set_vec_eq_Inr
        intro!: ok_getters ok_computeDT ok_computeOmega ok_set_vec ok_computeZetaHat
          ok_scratch_reads ok_state_reads ok_at_vec wf1 wf2)
    done
qed

lemma ok_groups:
  fixes u :: "('d::{zero,one,plus,minus,uminus,times,inverse,ord}) lib"
  assumes "wf_params (params s)" "wf_state s" "1 \<le> n" "n < int (num_time_steps (params s))"
  shows "ok (for_loop 0 (getNumPrecursors (params s)) (computePower_group u n gamma) (acc, s))"
proof -
  let ?I = "\<lambda>(j::int) (c::('d \<times> 'd \<times> 'd) \<times> 'd solver_state). same_hist s (snd c)"
  show ?thesis
  proof (rule for_loop_ok[where I = ?I])
    show "?I 0 (acc, s)" by simp
  next
    fix j t
    assume j: "0 \<le> j" "j < getNumPrecursors (params s)" and I: "?I j t"
    obtain a r where t: "t = (a, r)" by (cases t)
    from I have sh: "same_hist s r" by (simp add: t)
    from sh have "params r = params s" by (simp add: same_hist_def)
    moreover from sh assms(2) have "wf_state r" by (rule same_hist_wf)
    ultimately have "params r = params s" "wf_state r" .
    with assms j show "ok (computePower_group u n gamma j t)"
      unfolding t by (intro ok_computePower_group) (simp_all add: getNumPrecursors_def)
  next
    fix j t t'
    assume "?I j t" "computePower_group u n gamma j t = Inr t'"
    then show "?I (j + 1) t'"
      by (cases t; cases t') (auto dest: computePower_group_frame intro: same_hist_trans)
  qed
qed

lemma ok_or_abort_select_root: "ok_or_abort (throwing s (select_root u abc))"
  by (cases abc) (simp add: select_root_def)

lemma ok_or_abort_computePower:
  fixes u :: "('d::{zero,one,plus,minus,uminus,times,inverse,ord}) lib"
  assumes "wf_params (params s)" "wf_state s" "1 \<le> n" "n < int (num_time_steps (params s))"
  shows "ok_or_abort (computePower u n alpha gamma s)"
proof -
  have "ok_or_abort (bindE (throwing s1 (computeA1B1 u s1 n gamma)) (\<lambda>a1b1.
          bindE (throwing s1 (computeABC u s1 n alpha a1b1 tau shd sdp)) (\<lambda>pw. Inr (pw, s1))))"
    if "same_hist s s1" for s1 and tau shd sdp :: 'd
  proof -
    from that have p: "params s1 = params s" by (simp add: same_hist_def)
    from that assms(2) have wf: "wf_state s1" by (rule same_hist_wf)
    have 1: "ok (computeA1B1 u s1 n gamma)"
      using assms wf by (intro ok_computeA1B1) (simp_all add: p)
    have 2: "ok (computeABC_coeffs u s1 n alpha a1b1 tau shd sdp)" for a1b1
      using assms wf by (intro ok_computeABC_coeffs) (simp_all add: p)
    have 3: "ok_or_abort (throwing s1 (computeABC u s1 n alpha a1b1 tau shd sdp))" for a1b1
      using 2[of a1b1] unfolding computeABC_def
      by (elim okE) (simp add: ok_or_abort_select_root)
    show ?thesis
      by (intro ok_or_abort_bindE ok_imp_ok_or_abort ok_throwing[THEN iffD2] 1 3) simp
  qed
  note rest = this
  from ok_groups[OF assms, of u gamma "(0, 0, 0)"] obtain r where
    r: "for_loop 0 (getNumPrecursors (params s)) (computePower_group u n gamma) ((0, 0, 0), s) = Inr r"
    by (rule okE)
  obtain tau shd sdp s1 where r': "r = ((tau, shd, sdp), s1)" by (cases r) auto
  from r have "same_hist s s1" unfolding r' by (rule groups_frame)
  from rest[OF this, of tau shd sdp] show ?thesis
    by (simp add: computePower_def r r')
qed

lemma ok_solve_conc:
  assumes "wf_state s" "0 \<le> n" "n < int (num_time_steps (params s))"
    "0 \<le> k" "k < int (num_precursors (params s))"
  shows "ok (solve_conc n k s)"
  unfolding solve_conc_def
  apply (intro ok_bindE_dep ok_throwing[THEN iffD2] ok_Inr)
  using assms
     apply (auto simp: wf_state_def intro!: ok_at_vec ok_set_mat)
  done

lemma ok_conc_loop:
  assumes "wf_state s" "0 \<le> n" "n < int (num_time_steps (params s))"
  shows "ok (for_loop 0 (getNumPrecursors (params s)) (solve_conc n) s)"
proof -
  let ?I = "\<lambda>(j::int) t. step_frame (nat n) s t"
  show ?thesis
  proof (rule for_loop_ok[where I = ?I])
    show "?I 0 s" by simp
  next
    fix j t
    assume j: "0 \<le> j" "j < getNumPrecursors (params s)" and I: "?I j t"
    from I have "params t = params s" by (simp add: step_frame_def)
    moreover from I assms(1) have "wf_state t" by (rule step_frame_wf)
    ultimately have "params t = params s" "wf_state t" .
    with assms j show "ok (solve_conc n j t)"
      by (intro ok_solve_conc) (simp_all add: getNumPrecursors_def)
  next
    fix j t t'
    assume "?I j t" "solve_conc n j t = Inr t'"
    then show "?I (j + 1) t'"
      by (auto dest!: solve_conc_frame intro: step_frame_trans)
  qed
qed

lemma ok_or_abort_solve_step:
  fixes u :: "('d::{zero,one,plus,minus,uminus,times,inverse,ord}) lib"
  assumes "wf_params (params s)" "wf_state s" "1 \<le> n" "n < int (num_time_steps (params s))"
  shows "ok_or_abort (solve_step u n (alpha0, s))"
proof -
  have rest: "ok_or_abort
      (bindE (throwing s1 (set_vec (power s1) n pw)) (\<lambda>power'.
         let s2 = s1\<lparr>power := power'\<rparr> in
         bindE (for_loop 0 (getNumPrecursors (params s2)) (solve_conc n) s2) (\<lambda>s3.
         bindE (throwing s3 (computeA1B1 u s3 n gamma)) (\<lambda>a1b1.
         bindE (throwing s3 (at_vec (power s3) n)) (\<lambda>pw_n.
         bindE (throwing s3 (set_vec (rho s3) n (fst a1b1 * pw_n + snd a1b1))) (\<lambda>rho'.
         Inr (alpha, s3\<lparr>rho := rho'\<rparr>)))))))"
    if sh: "same_hist s s1" for s1 pw gamma and alpha :: 'd
  proof -
    from sh have p: "params s1 = params s" by (simp add: same_hist_def)
    from sh assms(2) have wf: "wf_state s1" by (rule same_hist_wf)
    have n: "0 \<le> n" "n < int (length (power s1))"
      using assms wf by (simp_all add: wf_state_def p)
    let ?s2 = "s1\<lparr>power := (power s1)[nat n := pw]\<rparr>"
    have wf2: "wf_state ?s2" using wf by (simp add: wf_state_def)
    have cl: "ok (for_loop 0 (getNumPrecursors (params ?s2)) (solve_conc n) ?s2)"
      using wf2 assms by (intro ok_conc_loop) (simp_all add: p)
    have after: "ok (bindE (throwing s3 (computeA1B1 u s3 n gamma)) (\<lambda>a1b1.
         bindE (throwing s3 (at_vec (power s3) n)) (\<lambda>pw_n.
         bindE (throwing s3 (set_vec (rho s3) n (fst a1b1 * pw_n + snd a1b1))) (\<lambda>rho'.
         Inr (alpha, s3\<lparr>rho := rho'\<rparr>)))))"
      if c: "for_loop 0 (getNumPrecursors (params ?s2)) (solve_conc n) ?s2 = Inr s3" for s3
    proof -
      from conc_loop_frame[OF c] have sf: "step_frame (nat n) ?s2 s3" by simp
      from sf have p3: "params s3 = params s" by (simp add: step_frame_def p)
      from sf wf2 have wf3: "wf_state s3" by (rule step_frame_wf)
      have "ok (computeA1B1 u s3 n gamma)"
        using assms wf3 by (intro ok_computeA1B1) (simp_all add: p3)
      moreover have "ok (at_vec (power s3) n)" "ok (set_vec (rho s3) n x)" for x
        using assms wf3 by (auto simp: wf_state_def p3 intro!: ok_at_vec ok_set_vec)
      ultimately show ?thesis
        by (intro ok_bindE ok_throwing[THEN iffD2] ok_Inr)
    qed
    from cl obtain s3 where
      c: "for_loop 0 (getNumPrecursors (params ?s2)) (solve_conc n) ?s2 = Inr s3" by (rule okE)
    from after[OF c] have "ok_or_abort (bindE (throwing s3 (computeA1B1 u s3 n gamma)) (\<lambda>a1b1.
         bindE (throwing s3 (at_vec (power s3) n)) (\<lambda>pw_n.
         bindE (throwing s3 (set_vec (rho s3) n (fst a1b1 * pw_n + snd a1b1))) (\<lambda>rho'.
         Inr (alpha, s3\<lparr>rho := rho'\<rparr>)))))" by (rule ok_imp_ok_or_abort)
    with n c show ?thesis
      by (simp add: set_vec_def Let_def)
  qed
  have g: "ok (computeGamma (params s) n)" and a: "ok (solve_alpha u s n alpha0)"
    using assms by (auto intro!: ok_computeGamma ok_solve_alpha)
  from g obtain gamma where g': "computeGamma (params s) n = Inr gamma" by (rule okE)
  from a obtain alpha where a': "solve_alpha u s n alpha0 = Inr alpha" by (rule okE)
  show ?thesis
  proof (cases "computePower u n alpha gamma s")
    case (Inl x)
    with ok_or_abort_computePower[OF assms, of u alpha gamma] show ?thesis
      by (cases x) (simp add: solve_step_def g' a')
  next
    case (Inr x)
    obtain pw s1 where x: "x = (pw, s1)" by (cases x)
    from Inr have "same_hist s s1" unfolding x by (rule computePower_frame)
    from rest[OF this, of pw gamma alpha] show ?thesis
      by (simp add: solve_step_def g' a' Inr x)
  qed
qed

lemma solve_loop_ok_or_abort:
  fixes u :: "('d::{zero,one,plus,minus,uminus,times,inverse,ord}) lib"
  assumes "wf_params (params s)" "wf_state s" "1 \<le> i"
  shows "ok_or_abort (for_loop i (getNumTimeSteps (params s)) (solve_step u) (alpha0, s))"
proof -
  let ?I = "\<lambda>(j::int) (c::'d \<times> 'd solver_state). wf_state (snd c) \<and> params (snd c) = params s"
  show ?thesis
  proof (rule for_loop_ok_or_abort[where I = ?I])
    show "?I i (alpha0, s)" using assms by simp
  next
    fix j t
    assume j: "i \<le> j" "j < getNumTimeSteps (params s)" and I: "?I j t"
    obtain a r where t: "t = (a, r)" by (cases t)
    from I j assms show "ok_or_abort (solve_step u j t)"
      unfolding t by (intro ok_or_abort_solve_step) (simp_all add: getNumTimeSteps_def)
  next
    fix j t t'
    assume I: "?I j t" and st: "solve_step u j t = Inr t'"
    obtain a r where t: "t = (a, r)" by (cases t)
    obtain a' r' where t': "t' = (a', r')" by (cases t')
    from st have sf: "step_frame (nat j) r r'" unfolding t t' by (rule solve_step_frame)
    from sf have "params r' = params r" by (simp add: step_frame_def)
    moreover from sf I have "wf_state r'" by (auto simp: t intro: step_frame_wf)
    ultimately show "?I (j + 1) t'" using I by (simp add: t t')
  qed
qed

subsection \<open>An empty prefix\<close>

lemma computeDT_nonpos: "n \<le> 0 \<Longrightarrow> computeDT p n = Inl OutOfRange"
  by (auto simp: computeDT_def getTime_def at_vec_def)

lemma computeA1B1_nonpos: "n \<le> 0 \<Longrightarrow> computeA1B1 u s n gamma = Inl OutOfRange"
  by (cases "getLambdaH (params s) n")
    (auto simp: computeA1B1_def computeDT_nonpos Let_def dest: oorD[OF oor_getters(6)])

lemma computePower_group_nonpos:
  "n \<le> 0 \<Longrightarrow> computePower_group u n gamma k (acc, s) = Inl (OutOfRange, s)"
  by (cases acc; cases "getDecayConstant (params s) k n")
    (auto simp: computePower_group_def computeDT_nonpos dest: oorD[OF oor_getters(7)])

lemma computePower_nonpos:
  assumes "n \<le> 0"
  shows "computePower u n alpha gamma s = Inl (OutOfRange, s)"
proof (cases "0 < getNumPrecursors (params s)")
  case True
  then show ?thesis
    using assms by (simp add: computePower_def for_loop_step computePower_group_nonpos)
next
  case False
  then show ?thesis
    using assms by (simp add: computePower_def computeA1B1_nonpos)
qed

lemma solve_step_nonpos: "n \<le> 0 \<Longrightarrow> solve_step u n (alpha0, s) = Inl (OutOfRange, s)"
  by (simp add: solve_step_def computeGamma_def solve_alpha_def computePower_nonpos)

lemma solve_empty_prefix:
  assumes "getNumTimeSteps_out (precomp s) = 0" "0 < getNumTimeSteps (params s)"
  shows "solve u s = Inl (OutOfRange, s)"
  using assms by (simp add: solve_def for_loop_step solve_step_nonpos)

lemma solve_ok_or_abort:
  assumes "wf_params (params s)" "wf_state s" "1 \<le> getNumTimeSteps_out (precomp s)"
  shows "ok_or_abort (solve u s)"
  unfolding solve_def
  by (intro ok_or_abort_bindE solve_loop_ok_or_abort assms) (simp split: prod.splits)

lemma ex4_Solver: "Solver ex4_params ex4_seed = Inr ex4_state"
  by (simp add: Solver_def Solver_hist_def Solver_conc_def Solver_conc_row_def getPower_def
      getRho_def getConcentration_def getNumTimeSteps_out_def set_vec_def set_mat_def
      getter_defs ex4_defs for_loop.simps Let_def eval_nat_numeral)

lemma ex_empty_Solver:
  "Solver (ex_params 0) ex_empty_seed = Inr ((ex_state 0)\<lparr>precomp := ex_empty_seed, power := [0, 0]\<rparr>)"
  by (simp add: Solver_def getNumTimeSteps_out_def getter_defs ex_defs ex_empty_seed_def
      for_loop.simps Let_def eval_nat_numeral)

subsection \<open>A step depends on the entries below it only\<close>

lemma at_vec_take_eq:
  assumes "take n ys = take n xs" "length ys = length xs" "m < int n"
  shows "at_vec ys m = at_vec xs m"
proof (cases "0 \<le> m \<and> m < int (length xs)")
  case True
  with assms(3) have "nat m < n" by auto
  then have "ys ! nat m = take n ys ! nat m" "xs ! nat m = take n xs ! nat m" by simp_all
  with assms(1) have "ys ! nat m = xs ! nat m" by simp
  with True assms(2) show ?thesis by (simp add: at_vec_def)
next
  case False
  with assms(2) show ?thesis by (auto simp: at_vec_def)
qed

lemma at_mat_take_eq:
  assumes "map (take n) m' = map (take n) m" "length m' = length m"
    "list_all (\<lambda>row. length row = N) m" "list_all (\<lambda>row. length row = N) m'" "j < int n"
  shows "at_mat m' k j = at_mat m k j"
proof (cases "0 \<le> k \<and> k < int (length m)")
  case True
  then have k: "nat k < length m" by auto
  from assms(1) have "map (take n) m' ! nat k = map (take n) m ! nat k" by simp
  with k assms(2) have "take n (m' ! nat k) = take n (m ! nat k)" by simp
  moreover from k assms(2-4) have "length (m' ! nat k) = length (m ! nat k)"
    by (simp add: list_all_length)
  ultimately have "at_vec (m' ! nat k) j = at_vec (m ! nat k) j"
    using assms(5) by (rule at_vec_take_eq)
  with True assms(2) show ?thesis by (simp add: at_mat_def at_vec_def)
next
  case False
  with assms(2) show ?thesis by (auto simp: at_mat_def at_vec_def)
qed

lemma agree_power:
  assumes "agree (nat n) s t" "m < n"
  shows "at_vec (power t) m = at_vec (power s) m"
proof -
  from assms(2) have m: "m < int (nat n)" by simp
  from assms(1) show ?thesis
    by (intro at_vec_take_eq[OF _ _ m]) (simp_all add: agree_def wf_state_def)
qed

lemma agree_rho:
  assumes "agree (nat n) s t" "m < n"
  shows "at_vec (rho t) m = at_vec (rho s) m"
proof -
  from assms(2) have m: "m < int (nat n)" by simp
  from assms(1) show ?thesis
    by (intro at_vec_take_eq[OF _ _ m]) (simp_all add: agree_def wf_state_def)
qed

lemma agree_conc:
  assumes "agree (nat n) s t" "m < n"
  shows "at_mat (concentrations t) k m = at_mat (concentrations s) k m"
proof -
  from assms(2) have m: "m < int (nat n)" by simp
  from assms(1) have p: "params t = params s" and ws: "wf_state s" and wt: "wf_state t"
    and c: "map (take (nat n)) (concentrations t) = map (take (nat n)) (concentrations s)"
    by (simp_all add: agree_def)
  from ws have 1: "list_all (\<lambda>row. length row = num_time_steps (params s)) (concentrations s)"
    by (simp add: wf_state_def)
  from wt have 2: "list_all (\<lambda>row. length row = num_time_steps (params s)) (concentrations t)"
    by (simp add: wf_state_def p)
  from ws wt have 3: "length (concentrations t) = length (concentrations s)"
    by (simp add: wf_state_def p)
  from c 3 1 2 m show ?thesis by (rule at_mat_take_eq)
qed

lemma agree_params: "agree n s t \<Longrightarrow> params t = params s"
  by (simp add: agree_def)

lemma agree_lengths:
  assumes "agree n s t"
  shows "length (power t) = length (power s)" "length (rho t) = length (rho s)"
    "length (omega t) = length (omega s)" "length (zeta_hat t) = length (zeta_hat s)"
    "length (concentrations t) = length (concentrations s)"
  using assms by (simp_all add: agree_def wf_state_def)

lemma computeZetaHat_scratch [simp]:
  "computeZetaHat u (s\<lparr>omega := x\<rparr>) k n w g = computeZetaHat u s k n w g"
  "computeZetaHat u (s\<lparr>zeta_hat := y\<rparr>) k n w g = computeZetaHat u s k n w g"
  by (simp_all add: computeZetaHat_def)

lemma computeZetaHat_agree:
  assumes "agree (nat n) s t"
  shows "computeZetaHat u t k n w g = computeZetaHat u s k n w g"
proof -
  have m: "(if n < 2 then n - 1 else n - 2) < n" "n - 1 < n" by simp_all
  note r = agree_power[OF assms m(1)] agree_power[OF assms m(2)] agree_conc[OF assms m(2)]
  show ?thesis
    unfolding computeZetaHat_def Let_def agree_params[OF assms] r ..
qed

lemma computeA1B1_agree:
  assumes "agree (nat n) s t"
  shows "computeA1B1 u t n g = computeA1B1 u s n g"
proof (cases "1 \<le> n")
  case True
  then have m: "(if n < 2 then n - 1 else n - 2) < n" "n - 1 < n" "0 < n" by simp_all
  note r = agree_power[OF assms m(1)] agree_power[OF assms m(2)] agree_power[OF assms m(3)]
    agree_rho[OF assms m(2)]
  show ?thesis
    unfolding computeA1B1_def Let_def agree_params[OF assms] r ..
next
  case False
  then show ?thesis by (simp add: computeA1B1_nonpos)
qed

lemma computeABC_coeffs_agree:
  assumes "agree (nat n) s t"
  shows "computeABC_coeffs u t n alpha a1b1 tau shd sdp = computeABC_coeffs u s n alpha a1b1 tau shd sdp"
proof -
  have m: "n - 1 < n" by simp
  note r = agree_power[OF assms m] agree_rho[OF assms m]
  show ?thesis
    unfolding computeABC_coeffs_def Let_def agree_params[OF assms] r ..
qed

lemma solve_alpha_agree:
  assumes "agree (nat n) s t"
  shows "solve_alpha u t n alpha = solve_alpha u s n alpha"
proof -
  have m: "n - 1 < n" "n - 2 < n" by simp_all
  note r = agree_power[OF assms m(1)] agree_power[OF assms m(2)]
  show ?thesis
    unfolding solve_alpha_def agree_params[OF assms] r ..
qed

lemma for_loop_rel:
  assumes "R i s t"
    and "\<And>j s t. i \<le> j \<Longrightarrow> j < b \<Longrightarrow> R j s t \<Longrightarrow> rel_sum Q (R (j + 1)) (body j s) (body' j t)"
  shows "rel_sum Q (R (max i b)) (for_loop i b body s) (for_loop i b body' t)"
  using assms
proof (induction i b body s arbitrary: t rule: for_loop.induct)
  case (1 i b body s)
  show ?case
  proof (cases "i < b")
    case False
    with "1.prems"(1) show ?thesis by (simp add: max_def)
  next
    case True
    from "1.prems"(2)[OF _ True "1.prems"(1)]
    have r: "rel_sum Q (R (i + 1)) (body i s) (body' i t)" by simp
    show ?thesis
    proof (cases "body i s")
      case (Inl e)
      with r obtain e' where "body' i t = Inl e'" "Q e e'" by (cases "body' i t") auto
      with Inl True show ?thesis by (simp add: for_loop_step)
    next
      case (Inr s')
      with r obtain t' where t': "body' i t = Inr t'" "R (i + 1) s' t'"
        by (cases "body' i t") auto
      have "rel_sum Q (R (max (i + 1) b)) (for_loop (i + 1) b body s') (for_loop (i + 1) b body' t')"
        using True Inr t'(2)
      proof (rule "1.IH")
        fix j s t
        assume "i + 1 \<le> j" "j < b" "R j s t"
        then show "rel_sum Q (R (j + 1)) (body j s) (body' j t)"
          by (intro "1.prems"(2)) auto
      qed
      with True Inr t'(1) show ?thesis by (simp add: for_loop_step max_def)
    qed
  qed
qed

lemma take_Suc_update:
  "take k ys = take k xs \<Longrightarrow> length ys = length xs \<Longrightarrow> k < length xs \<Longrightarrow>
     take (Suc k) (ys[k := v]) = take (Suc k) (xs[k := v])"
  by (simp add: take_Suc_conv_app_nth)

lemma rel_bindE_throwing:
  assumes "\<And>x. m = Inr x \<Longrightarrow> rel_sum err_eq R (f x) (f' x)"
  shows "rel_sum err_eq R (bindE (throwing s m) f) (bindE (throwing t m) f')"
  by (cases m) (simp_all add: err_eq_def assms)

lemma rel_bindE_set_vec:
  assumes "length ys = length xs"
    and "0 \<le> i \<Longrightarrow> i < int (length xs) \<Longrightarrow>
           rel_sum err_eq R (f (xs[nat i := v])) (f' (ys[nat i := v]))"
  shows "rel_sum err_eq R (bindE (throwing s (set_vec xs i v)) f)
           (bindE (throwing t (set_vec ys i v)) f')"
  using assms by (simp add: set_vec_def err_eq_def)

lemma at_vec_update_same:
  "0 \<le> k \<Longrightarrow> k < int (length xs) \<Longrightarrow> at_vec (xs[nat k := v]) k = Inr v"
  by (simp add: at_vec_def)

lemma group_step_rel:
  assumes "group_rel (nat n) (nat k) x y" and k: "0 \<le> k"
  shows "rel_sum err_eq (group_rel (nat n) (nat (k + 1)))
           (computePower_group u n g k x) (computePower_group u n g k y)"
proof -
  obtain acc s where x: "x = (acc, s)" by (cases x)
  obtain acc' t where y: "y = (acc', t)" by (cases y)
  from assms(1) have acc: "acc' = acc" and ag: "agree (nat n) s t"
    and to: "take (nat k) (omega t) = take (nat k) (omega s)"
    and tz: "take (nat k) (zeta_hat t) = take (nat k) (zeta_hat s)"
    by (simp_all add: group_rel_def x y)
  note p = agree_params[OF ag]
  note len = agree_lengths[OF ag]
  note zh = computeZetaHat_agree[OF ag]
  have cr: "at_mat (concentrations t) k (n - 1) = at_mat (concentrations s) k (n - 1)"
    by (rule agree_conc[OF ag]) simp
  from k have nk: "nat (k + 1) = Suc (nat k)" by simp
  have fin: "group_rel (nat n) (Suc (nat k))
      (a, s\<lparr>omega := (omega s)[nat k := om], zeta_hat := (zeta_hat s)[nat k := z]\<rparr>)
      (a, t\<lparr>omega := (omega t)[nat k := om], zeta_hat := (zeta_hat t)[nat k := z]\<rparr>)"
    if "k < int (length (omega s))" "k < int (length (zeta_hat s))" for a om z
  proof -
    from that k have lt: "nat k < length (omega s)" "nat k < length (zeta_hat s)" by auto
    have "agree (nat n) (s\<lparr>omega := (omega s)[nat k := om], zeta_hat := (zeta_hat s)[nat k := z]\<rparr>)
      (t\<lparr>omega := (omega t)[nat k := om], zeta_hat := (zeta_hat t)[nat k := z]\<rparr>)"
      using ag len by (auto simp: agree_def wf_state_def)
    moreover have "take (Suc (nat k)) ((omega t)[nat k := om]) = take (Suc (nat k)) ((omega s)[nat k := om])"
      using to len(3) lt(1) by (rule take_Suc_update)
    moreover have "take (Suc (nat k)) ((zeta_hat t)[nat k := z]) = take (Suc (nat k)) ((zeta_hat s)[nat k := z])"
      using tz len(4) lt(2) by (rule take_Suc_update)
    ultimately show ?thesis by (simp add: group_rel_def)
  qed
  obtain tau shd sdp where a3: "acc = (tau, shd, sdp)" by (cases acc)
  show ?thesis
    unfolding x y acc nk a3 computePower_group_def prod.case
    apply (simp only: Let_def p)
    apply (rule rel_bindE_throwing)
    apply (rule rel_bindE_throwing)
    apply (rule rel_bindE_set_vec[OF len(3)])
    apply (simp add: zh cr p len at_vec_update_same)
    apply (rule rel_bindE_throwing)
    apply (rule rel_bindE_set_vec[OF len(4)])
    apply (simp add: at_vec_update_same len)
    apply (rule rel_bindE_throwing)
    apply (simp add: fin)
    done
qed

lemma rel_bindE:
  assumes "rel_sum Q A m m'" and "\<And>x y. A x y \<Longrightarrow> rel_sum Q B (f x) (f' y)"
  shows "rel_sum Q B (bindE m f) (bindE m' f')"
  using assms by (cases m; cases m') simp_all

lemma groups_rel:
  fixes u :: "('d::{zero,one,plus,minus,uminus,times,inverse,ord}) lib"
  assumes "agree (nat n) s t"
  shows "rel_sum err_eq (\<lambda>x y. fst y = fst x \<and> power_rel (nat n) (0, snd x) (0, snd y))
           (for_loop 0 (getNumPrecursors (params s)) (computePower_group u n g) (acc, s))
           (for_loop 0 (getNumPrecursors (params s)) (computePower_group u n g) (acc, t))"
proof -
  let ?K = "getNumPrecursors (params s)"
  let ?Ls = "for_loop 0 ?K (computePower_group u n g) (acc, s)"
  let ?Lt = "for_loop 0 ?K (computePower_group u n g) (acc, t)"
  have K: "nat (max 0 ?K) = num_precursors (params s)" by (simp add: getNumPrecursors_def)
  have G: "rel_sum err_eq (group_rel (nat n) (nat (max 0 ?K))) ?Ls ?Lt"
  proof (rule for_loop_rel[where R = "\<lambda>j. group_rel (nat n) (nat j)"])
    show "group_rel (nat n) (nat 0) (acc, s) (acc, t)"
      using assms by (simp add: group_rel_def)
  next
    fix j and x y :: "('d \<times> 'd \<times> 'd) \<times> 'd solver_state"
    assume "0 \<le> j" "group_rel (nat n) (nat j) x y"
    then show "rel_sum err_eq (group_rel (nat n) (nat (j + 1)))
        (computePower_group u n g j x) (computePower_group u n g j y)"
      by (intro group_step_rel)
  qed
  show ?thesis
  proof (cases ?Ls)
    case (Inl e)
    with G show ?thesis by (cases ?Lt) simp_all
  next
    case (Inr x)
    with G obtain y where y: "?Lt = Inr y" and gr: "group_rel (nat n) (num_precursors (params s)) x y"
      by (cases ?Lt) (simp_all add: K)
    obtain a s1 where x: "x = (a, s1)" by (cases x)
    obtain a' t1 where y': "y = (a', t1)" by (cases y)
    from Inr have "same_hist s s1" unfolding x by (rule groups_frame)
    then have p1: "params s1 = params s" by (simp add: same_hist_def)
    from gr have a: "a' = a" and ag: "agree (nat n) s1 t1"
      and to: "take (num_precursors (params s)) (omega t1) = take (num_precursors (params s)) (omega s1)"
      and tz: "take (num_precursors (params s)) (zeta_hat t1) = take (num_precursors (params s)) (zeta_hat s1)"
      by (simp_all add: group_rel_def x y')
    from ag p1 have "length (omega s1) = num_precursors (params s)"
      "length (omega t1) = num_precursors (params s)"
      "length (zeta_hat s1) = num_precursors (params s)"
      "length (zeta_hat t1) = num_precursors (params s)"
      by (auto simp: agree_def wf_state_def)
    with to tz have "omega t1 = omega s1" "zeta_hat t1 = zeta_hat s1" by simp_all
    with ag a show ?thesis by (simp add: Inr y x y' power_rel_def)
  qed
qed

lemma computeABC_agree:
  "agree (nat n) s t \<Longrightarrow>
     computeABC u t n alpha a1b1 tau shd sdp = computeABC u s n alpha a1b1 tau shd sdp"
  by (simp add: computeABC_def computeABC_coeffs_agree)

lemma computePower_rel:
  fixes u :: "('d::{zero,one,plus,minus,uminus,times,inverse,ord}) lib"
  assumes "agree (nat n) s t"
  shows "rel_sum err_eq (power_rel (nat n)) (computePower u n alpha g s) (computePower u n alpha g t)"
  unfolding computePower_def agree_params[OF assms]
proof (rule rel_bindE[OF groups_rel[OF assms]])
  fix x y :: "('d \<times> 'd \<times> 'd) \<times> 'd solver_state"
  assume r: "fst y = fst x \<and> power_rel (nat n) (0, snd x) (0, snd y)"
  obtain tau shd sdp s1 where x: "x = ((tau, shd, sdp), s1)" by (cases x) auto
  obtain t1 where y: "y = ((tau, shd, sdp), t1)" using r x by (cases y) auto
  from r have ag: "agree (nat n) s1 t1" and sc: "omega t1 = omega s1" "zeta_hat t1 = zeta_hat s1"
    by (simp_all add: power_rel_def x y)
  show "rel_sum err_eq (power_rel (nat n))
          (case x of (x, xa) \<Rightarrow> (case x of (tau, s_hat_d, s_d_prev) \<Rightarrow> \<lambda>s1.
             bindE (throwing s1 (computeA1B1 u s1 n g)) (\<lambda>a1b1.
             bindE (throwing s1 (computeABC u s1 n alpha a1b1 tau s_hat_d s_d_prev)) (\<lambda>pw. Inr (pw, s1)))) xa)
          (case y of (x, xa) \<Rightarrow> (case x of (tau, s_hat_d, s_d_prev) \<Rightarrow> \<lambda>s1.
             bindE (throwing s1 (computeA1B1 u s1 n g)) (\<lambda>a1b1.
             bindE (throwing s1 (computeABC u s1 n alpha a1b1 tau s_hat_d s_d_prev)) (\<lambda>pw. Inr (pw, s1)))) xa)"
    unfolding x y prod.case computeA1B1_agree[OF ag] computeABC_agree[OF ag]
    apply (rule rel_bindE_throwing)
    apply (rule rel_bindE_throwing)
    apply (simp add: power_rel_def ag sc)
    done
qed

lemma take_Suc_update_row:
  "take n ys = take n xs \<Longrightarrow> n < length xs \<Longrightarrow> n < length ys \<Longrightarrow>
     take (Suc n) (ys[n := v]) = take (Suc n) (xs[n := v])"
  by (simp add: take_Suc_conv_app_nth)

lemma map_take_nth:
  "map (take n) m' = map (take n) m \<Longrightarrow> k < length m \<Longrightarrow> k < length m' \<Longrightarrow>
     take n (m' ! k) = take n (m ! k)"
  by (metis nth_map)

lemma conc_rel_update:
  assumes r: "conc_rel n k s t"
    and k: "k < length (concentrations s)" and n: "n < num_time_steps (params s)"
  shows "conc_rel n (Suc k)
           (s\<lparr>concentrations := (concentrations s)[k := (concentrations s ! k)[n := v]]\<rparr>)
           (t\<lparr>concentrations := (concentrations t)[k := (concentrations t ! k)[n := v]]\<rparr>)"
proof -
  let ?cs = "concentrations s" and ?ct = "concentrations t"
  from r have p: "params t = params s" and ws: "wf_state s" and wt: "wf_state t"
    and mn: "map (take n) ?ct = map (take n) ?cs"
    and mk: "map (take (Suc n)) (take k ?ct) = map (take (Suc n)) (take k ?cs)"
    by (simp_all add: conc_rel_def)
  from ws wt p have len: "length ?ct = length ?cs" by (simp add: wf_state_def)
  from ws k n have rs: "n < length (?cs ! k)" by (simp add: wf_state_def list_all_length)
  from wt k n len p have rt: "n < length (?ct ! k)" by (simp add: wf_state_def list_all_length)
  from mn k len have tk: "take n (?ct ! k) = take n (?cs ! k)" by (intro map_take_nth) simp_all
  have wf': "wf_state (s\<lparr>concentrations := ?cs[k := (?cs ! k)[n := v]]\<rparr>)"
    "wf_state (t\<lparr>concentrations := ?ct[k := (?ct ! k)[n := v]]\<rparr>)"
    using ws wt k len p by (auto simp: wf_state_def list_all_length nth_list_update)
  have 1: "map (take n) (?ct[k := (?ct ! k)[n := v]]) = map (take n) (?cs[k := (?cs ! k)[n := v]])"
    using mn tk by (simp add: map_update)
  have 2: "map (take (Suc n)) (take (Suc k) (?ct[k := (?ct ! k)[n := v]]))
         = map (take (Suc n)) (take (Suc k) (?cs[k := (?cs ! k)[n := v]]))"
    using mk k len take_Suc_update_row[OF tk rs rt, of v]
    by (simp add: take_Suc_conv_app_nth)
  from r wf' 1 2 show ?thesis by (simp add: conc_rel_def)
qed

lemma conc_step_rel:
  assumes r: "conc_rel (nat n) (nat k) s t" and k: "0 \<le> k" and n: "0 \<le> n"
  shows "rel_sum err_eq (conc_rel (nat n) (nat (k + 1))) (solve_conc n k s) (solve_conc n k t)"
proof -
  from r have p: "params t = params s" and ws: "wf_state s" and wt: "wf_state t"
    and tp: "take (Suc (nat n)) (power t) = take (Suc (nat n)) (power s)"
    and sc: "omega t = omega s" "zeta_hat t = zeta_hat s"
    by (simp_all add: conc_rel_def)
  from ws wt p have len: "length (power t) = length (power s)"
    "length (concentrations t) = length (concentrations s)"
    by (simp_all add: wf_state_def)
  have pr: "at_vec (power t) n = at_vec (power s) n"
    using tp len(1) by (rule at_vec_take_eq) (use n in auto)
  from k have nk: "nat (k + 1) = Suc (nat k)" by simp
  have rows: "length (concentrations t ! nat k) = length (concentrations s ! nat k)"
    if "k < int (length (concentrations s))"
    using that k ws wt p len by (simp add: wf_state_def list_all_length)
  have N: "nat n < num_time_steps (params s)"
    if "k < int (length (concentrations s))" "n < int (length (concentrations s ! nat k))"
    using that k n ws by (auto simp: wf_state_def list_all_length)
  show ?thesis
    unfolding solve_conc_def pr sc nk
    apply (cases "at_vec (power s) n"; simp add: err_eq_def)
    apply (cases "at_vec (omega s) k"; simp add: err_eq_def)
    apply (cases "at_vec (zeta_hat s) k"; simp add: err_eq_def)
    using k n
    apply (auto simp: set_mat_def set_vec_def len rows err_eq_def
        intro!: conc_rel_update[OF r] N)
    done
qed

lemma conc_loop_rel:
  fixes s :: "('d::{zero,one,plus,minus,uminus,times,inverse,ord}) solver_state"
  assumes "conc_rel (nat n) 0 s t" and n: "0 \<le> n"
  shows "rel_sum err_eq (conc_rel (nat n) (num_precursors (params s)))
           (for_loop 0 (getNumPrecursors (params s)) (solve_conc n) s)
           (for_loop 0 (getNumPrecursors (params s)) (solve_conc n) t)"
proof -
  let ?K = "getNumPrecursors (params s)"
  have K: "nat (max 0 ?K) = num_precursors (params s)" by (simp add: getNumPrecursors_def)
  have "rel_sum err_eq (conc_rel (nat n) (nat (max 0 ?K)))
           (for_loop 0 ?K (solve_conc n) s) (for_loop 0 ?K (solve_conc n) t)"
  proof (rule for_loop_rel[where R = "\<lambda>j. conc_rel (nat n) (nat j)"])
    show "conc_rel (nat n) (nat 0) s t" using assms by simp
  next
    fix j and x y :: "'d solver_state"
    assume "0 \<le> j" "conc_rel (nat n) (nat j) x y"
    then show "rel_sum err_eq (conc_rel (nat n) (nat (j + 1))) (solve_conc n j x) (solve_conc n j y)"
      using n by (intro conc_step_rel)
  qed
  then show ?thesis by (simp only: K)
qed

lemma rel_sum_strengthen:
  assumes "rel_sum Q A m m'" and "\<And>x. m = Inr x \<Longrightarrow> P x"
  shows "rel_sum Q (\<lambda>x y. A x y \<and> P x) m m'"
  using assms by (cases m; cases m') simp_all

lemma take_Suc_take: "take (Suc n) ys = take (Suc n) xs \<Longrightarrow> take n ys = take n xs"
  by (metis Suc_n_not_le_n min.absorb1 nat_le_linear take_take)

lemma solve_step_rel:
  fixes u :: "('d::{zero,one,plus,minus,uminus,times,inverse,ord}) lib"
  assumes ag: "agree (nat n) s t"
  shows "rel_sum err_eq (step_rel (nat (n + 1))) (solve_step u n (alpha0, s)) (solve_step u n (alpha0, t))"
proof (cases "0 \<le> n")
  case False
  then show ?thesis by (simp add: solve_step_nonpos err_eq_def)
next
  case n: True
  then have nn: "nat (n + 1) = Suc (nat n)" by simp
  have after_power: "rel_sum err_eq (step_rel (Suc (nat n)))
      (bindE (throwing s1 (set_vec (power s1) n pw)) (\<lambda>power'.
         let s2 = s1\<lparr>power := power'\<rparr> in
         bindE (for_loop 0 (getNumPrecursors (params s2)) (solve_conc n) s2) (\<lambda>s3.
         bindE (throwing s3 (computeA1B1 u s3 n gamma)) (\<lambda>a1b1.
         bindE (throwing s3 (at_vec (power s3) n)) (\<lambda>pw_n.
         bindE (throwing s3 (set_vec (rho s3) n (fst a1b1 * pw_n + snd a1b1))) (\<lambda>rho'.
         Inr (alpha, s3\<lparr>rho := rho'\<rparr>)))))))
      (bindE (throwing t1 (set_vec (power t1) n pw)) (\<lambda>power'.
         let s2 = t1\<lparr>power := power'\<rparr> in
         bindE (for_loop 0 (getNumPrecursors (params s2)) (solve_conc n) s2) (\<lambda>s3.
         bindE (throwing s3 (computeA1B1 u s3 n gamma)) (\<lambda>a1b1.
         bindE (throwing s3 (at_vec (power s3) n)) (\<lambda>pw_n.
         bindE (throwing s3 (set_vec (rho s3) n (fst a1b1 * pw_n + snd a1b1))) (\<lambda>rho'.
         Inr (alpha, s3\<lparr>rho := rho'\<rparr>)))))))"
    if pr: "power_rel (nat n) (pw, s1) (pw, t1)" for pw s1 t1 gamma and alpha :: 'd
  proof -
    from pr have ag1: "agree (nat n) s1 t1" and sc: "omega t1 = omega s1" "zeta_hat t1 = zeta_hat s1"
      by (simp_all add: power_rel_def)
    note len = agree_lengths[OF ag1]
    note p = agree_params[OF ag1]
    show ?thesis
    proof (rule rel_bindE_set_vec[OF len(1)])
      assume lt: "n < int (length (power s1))"
      let ?s2 = "s1\<lparr>power := (power s1)[nat n := pw]\<rparr>"
      let ?t2 = "t1\<lparr>power := (power t1)[nat n := pw]\<rparr>"
      from ag1 have tp: "take (nat n) (power t1) = take (nat n) (power s1)"
        by (simp add: agree_def)
      from tp len(1) have "take (Suc (nat n)) ((power t1)[nat n := pw])
          = take (Suc (nat n)) ((power s1)[nat n := pw])"
        by (rule take_Suc_update) (use lt n in auto)
      with ag1 sc have c0: "conc_rel (nat n) 0 ?s2 ?t2"
        by (auto simp: conc_rel_def agree_def wf_state_def)
      have L: "rel_sum err_eq (conc_rel (nat n) (num_precursors (params ?s2)))
           (for_loop 0 (getNumPrecursors (params ?s2)) (solve_conc n) ?s2)
           (for_loop 0 (getNumPrecursors (params ?s2)) (solve_conc n) ?t2)"
        using c0 n by (rule conc_loop_rel)
      show "rel_sum err_eq (step_rel (Suc (nat n)))
         (let s2 = ?s2 in
          bindE (for_loop 0 (getNumPrecursors (params s2)) (solve_conc n) s2) (\<lambda>s3.
          bindE (throwing s3 (computeA1B1 u s3 n gamma)) (\<lambda>a1b1.
          bindE (throwing s3 (at_vec (power s3) n)) (\<lambda>pw_n.
          bindE (throwing s3 (set_vec (rho s3) n (fst a1b1 * pw_n + snd a1b1))) (\<lambda>rho'.
          Inr (alpha, s3\<lparr>rho := rho'\<rparr>))))))
         (let s2 = ?t2 in
          bindE (for_loop 0 (getNumPrecursors (params s2)) (solve_conc n) s2) (\<lambda>s3.
          bindE (throwing s3 (computeA1B1 u s3 n gamma)) (\<lambda>a1b1.
          bindE (throwing s3 (at_vec (power s3) n)) (\<lambda>pw_n.
          bindE (throwing s3 (set_vec (rho s3) n (fst a1b1 * pw_n + snd a1b1))) (\<lambda>rho'.
          Inr (alpha, s3\<lparr>rho := rho'\<rparr>))))))"
        unfolding Let_def
      proof (rule rel_bindE[where A = "\<lambda>x y. conc_rel (nat n) (num_precursors (params s1)) x y \<and>
                                         params x = params s1"])
        have "rel_sum err_eq (\<lambda>x y. conc_rel (nat n) (num_precursors (params ?s2)) x y \<and>
                                         params x = params s1)
           (for_loop 0 (getNumPrecursors (params ?s2)) (solve_conc n) ?s2)
           (for_loop 0 (getNumPrecursors (params ?s2)) (solve_conc n) ?t2)"
          using L
        proof (rule rel_sum_strengthen)
          fix x
          assume "for_loop 0 (getNumPrecursors (params ?s2)) (solve_conc n) ?s2 = Inr x"
          from conc_loop_frame[OF this] show "params x = params s1"
            by (simp add: step_frame_def)
        qed
        then show "rel_sum err_eq (\<lambda>x y. conc_rel (nat n) (num_precursors (params s1)) x y \<and>
                                         params x = params s1)
           (for_loop 0 (getNumPrecursors (params ?s2)) (solve_conc n) ?s2)
           (for_loop 0 (getNumPrecursors (params ?t2)) (solve_conc n) ?t2)"
          by (simp add: p)
      next
        fix s3 t3
        assume cr': "conc_rel (nat n) (num_precursors (params s1)) s3 t3 \<and> params s3 = params s1"
        then have cr: "conc_rel (nat n) (num_precursors (params s1)) s3 t3"
          and p31: "params s3 = params s1" by simp_all
        from cr have p3: "params t3 = params s3" and ws: "wf_state s3" and wt: "wf_state t3"
          and tp3: "take (Suc (nat n)) (power t3) = take (Suc (nat n)) (power s3)"
          and tr3: "take (nat n) (rho t3) = take (nat n) (rho s3)"
          and m3: "map (take (nat n)) (concentrations t3) = map (take (nat n)) (concentrations s3)"
          and mk3: "map (take (Suc (nat n))) (take (num_precursors (params s1)) (concentrations t3))
                  = map (take (Suc (nat n))) (take (num_precursors (params s1)) (concentrations s3))"
          and pc3: "precomp t3 = precomp s3"
          by (simp_all add: conc_rel_def)
        have ag3: "agree (nat n) s3 t3"
          using p3 pc3 ws wt tr3 m3 take_Suc_take[OF tp3] by (simp add: agree_def)
        note len3 = agree_lengths[OF ag3]
        have pr3: "at_vec (power t3) n = at_vec (power s3) n"
          using tp3 len3(1) by (rule at_vec_take_eq) (use n in auto)
        have fin: "step_rel (Suc (nat n)) (alpha, s3\<lparr>rho := (rho s3)[nat n := v]\<rparr>)
              (alpha, t3\<lparr>rho := (rho t3)[nat n := v]\<rparr>)"
          if "n < int (length (rho s3))" for v
        proof -
          have "take (Suc (nat n)) ((rho t3)[nat n := v]) = take (Suc (nat n)) ((rho s3)[nat n := v])"
            using tr3 len3(2) by (rule take_Suc_update) (use that n in auto)
          moreover have "map (take (Suc (nat n))) (concentrations t3)
              = map (take (Suc (nat n))) (concentrations s3)"
            using mk3 ws wt p3 p31 by (simp add: wf_state_def)
          ultimately show ?thesis
            using p3 pc3 ws wt tp3 by (simp add: step_rel_def agree_def wf_state_def)
        qed
        show "rel_sum err_eq (step_rel (Suc (nat n)))
           (bindE (throwing s3 (computeA1B1 u s3 n gamma)) (\<lambda>a1b1.
            bindE (throwing s3 (at_vec (power s3) n)) (\<lambda>pw_n.
            bindE (throwing s3 (set_vec (rho s3) n (fst a1b1 * pw_n + snd a1b1))) (\<lambda>rho'.
            Inr (alpha, s3\<lparr>rho := rho'\<rparr>)))))
           (bindE (throwing t3 (computeA1B1 u t3 n gamma)) (\<lambda>a1b1.
            bindE (throwing t3 (at_vec (power t3) n)) (\<lambda>pw_n.
            bindE (throwing t3 (set_vec (rho t3) n (fst a1b1 * pw_n + snd a1b1))) (\<lambda>rho'.
            Inr (alpha, t3\<lparr>rho := rho'\<rparr>)))))"
          unfolding computeA1B1_agree[OF ag3] pr3
          apply (rule rel_bindE_throwing)
          apply (rule rel_bindE_throwing)
          apply (rule rel_bindE_set_vec[OF len3(2)])
          apply (simp add: fin)
          done
      qed
    qed
  qed
  show ?thesis
    unfolding solve_step_def prod.case agree_params[OF ag] solve_alpha_agree[OF ag] nn
    apply (rule rel_bindE_throwing)
    apply (rule rel_bindE_throwing)
    apply (rule rel_bindE[OF computePower_rel[OF ag]])
    apply (auto simp: power_rel_def intro!: after_power[unfolded power_rel_def, simplified])
    done
qed

lemma solve_loop_rel:
  fixes u :: "('d::{zero,one,plus,minus,uminus,times,inverse,ord}) lib"
  assumes "agree (nat i) s t"
  shows "rel_sum err_eq (step_rel (nat (max i b)))
           (for_loop i b (solve_step u) (a, s)) (for_loop i b (solve_step u) (a, t))"
proof (rule for_loop_rel[where R = "\<lambda>j. step_rel (nat j)"])
  show "step_rel (nat i) (a, s) (a, t)" using assms by (simp add: step_rel_def)
next
  fix j and x y :: "'d \<times> 'd solver_state"
  assume r: "step_rel (nat j) x y"
  obtain a1 s1 where x: "x = (a1, s1)" by (cases x)
  obtain a2 t1 where y: "y = (a2, t1)" by (cases y)
  from r have "a2 = a1" "agree (nat j) s1 t1" by (simp_all add: step_rel_def x y)
  then show "rel_sum err_eq (step_rel (nat (j + 1))) (solve_step u j x) (solve_step u j y)"
    unfolding x y by (simp add: solve_step_rel)
qed

lemma solve_loop_params:
  assumes "for_loop i b (solve_step u) (a, s) = Inr x"
  shows "params (snd x) = params s"
  using solve_reach_frame[OF for_loop_Inr_reach[OF assms]]
  by (simp add: hist_unchanged_outside_def)

lemma agree_full:
  assumes "agree m s t" "num_time_steps (params s) \<le> m"
  shows "power t = power s" "rho t = rho s" "concentrations t = concentrations s"
proof -
  from assms(1) have p: "params t = params s" and ws: "wf_state s" and wt: "wf_state t"
    and tp: "take m (power t) = take m (power s)" and tr: "take m (rho t) = take m (rho s)"
    and tc: "map (take m) (concentrations t) = map (take m) (concentrations s)"
    by (simp_all add: agree_def)
  from tp ws wt p assms(2) show "power t = power s" by (simp add: wf_state_def)
  from tr ws wt p assms(2) show "rho t = rho s" by (simp add: wf_state_def)
  have "map (take m) (concentrations s) = concentrations s"
    using ws assms(2) by (intro map_idI) (simp add: wf_state_def list_all_iff)
  moreover have "map (take m) (concentrations t) = concentrations t"
    using wt assms(2) p by (intro map_idI) (simp add: wf_state_def list_all_iff)
  ultimately show "concentrations t = concentrations s" using tc by simp
qed

lemma solve_rel:
  assumes "agree (nat (getNumTimeSteps_out (precomp s))) s t"
  shows "outcome (solve u t) = outcome (solve u s)"
proof -
  let ?L = "getNumTimeSteps_out (precomp s)" and ?N = "getNumTimeSteps (params s)"
  let ?ls = "for_loop ?L ?N (solve_step u) (0, s)" and ?lt = "for_loop ?L ?N (solve_step u) (0, t)"
  from assms have p: "params t = params s" "precomp t = precomp s" by (simp_all add: agree_def)
  have R: "rel_sum err_eq (step_rel (nat (max ?L ?N))) ?ls ?lt"
    using assms by (rule solve_loop_rel)
  show ?thesis
  proof (cases ?ls)
    case (Inl e)
    with R obtain e' where "?lt = Inl e'" "fst e' = fst e"
      by (cases ?lt) (auto simp: err_eq_def)
    with Inl show ?thesis by (simp add: outcome_def solve_def p)
  next
    case (Inr x)
    with R obtain y where y: "?lt = Inr y" and r: "step_rel (nat (max ?L ?N)) x y"
      by (cases ?lt) auto
    obtain a s' where x: "x = (a, s')" by (cases x)
    obtain a' t' where y': "y = (a', t')" by (cases y)
    from r have ag: "agree (nat (max ?L ?N)) s' t'" by (simp add: step_rel_def x y')
    from solve_loop_params[OF Inr] have "params s' = params s" by (simp add: x)
    then have "num_time_steps (params s') \<le> nat (max ?L ?N)" by (simp add: getNumTimeSteps_def)
    note agree_full[OF ag this]
    with Inr y show ?thesis by (simp add: outcome_def solve_def p x y')
  qed
qed

lemma solve_wf:
  fixes u :: "('d::{zero,one,plus,minus,uminus,times,inverse,ord}) lib"
  assumes "solve u s = Inr (out, s')" "wf_state s"
  shows "wf_state s'" "params s' = params s" "precomp s' = precomp s"
    "take (nat (getNumTimeSteps_out (precomp s))) (power s') = take (nat (getNumTimeSteps_out (precomp s))) (power s)"
    "take (nat (getNumTimeSteps_out (precomp s))) (rho s') = take (nat (getNumTimeSteps_out (precomp s))) (rho s)"
    "map (take (nat (getNumTimeSteps_out (precomp s)))) (concentrations s')
       = map (take (nat (getNumTimeSteps_out (precomp s)))) (concentrations s)"
proof -
  let ?L = "nat (getNumTimeSteps_out (precomp s))"
  from solve_frame[OF assms(1)] obtain hi where h: "hist_unchanged_outside ?L hi s s'" by blast
  then show "params s' = params s" "precomp s' = precomp s"
    "take ?L (power s') = take ?L (power s)" "take ?L (rho s') = take ?L (rho s)"
    by (simp_all add: hist_unchanged_outside_def unchanged_outside_def)
  from h have la: "list_all2 (unchanged_outside ?L hi) (concentrations s) (concentrations s')"
    and len: "length (power s') = length (power s)" "length (rho s') = length (rho s)"
    and p: "params s' = params s"
    by (simp_all add: hist_unchanged_outside_def unchanged_outside_def)
  from la show "map (take ?L) (concentrations s') = map (take ?L) (concentrations s)"
    by (auto simp: list_all2_conv_all_nth unchanged_outside_def intro!: nth_equalityI)
  from assms(1) obtain alpha where
    l: "for_loop (getNumTimeSteps_out (precomp s)) (getNumTimeSteps (params s)) (solve_step u) (0, s)
       = Inr (alpha, s')" by (rule solve_Inr)
  let ?I = "\<lambda>(j::int) (c::'d \<times> 'd solver_state). wf_state (snd c)"
  have "?I (max (getNumTimeSteps_out (precomp s)) (getNumTimeSteps (params s))) (alpha, s')"
    using l
  proof (rule for_loop_Inr_invariant[where P = ?I])
    show "?I (getNumTimeSteps_out (precomp s)) (0, s)" using assms(2) by simp
  next
    fix j t t'
    assume I: "?I j t" and st: "solve_step u j t = Inr t'"
    obtain a r where t: "t = (a, r)" by (cases t)
    obtain a' r' where t': "t' = (a', r')" by (cases t')
    from st have "step_frame (nat j) r r'" unfolding t t' by (rule solve_step_frame)
    with I show "?I (j + 1) t'" by (auto simp: t t' intro: step_frame_wf)
  qed
  then show "wf_state s'" by simp
qed

lemma ex4_agree: "agree (nat (getNumTimeSteps_out (precomp ex4_state))) ex4_state ex4_other"
  by (simp add: agree_def wf_state_def getNumTimeSteps_out_def ex4_defs ex4_other_def
      eval_nat_numeral)

lemma ex4_solve:
  "solve ex_lib ex4_state =
     Inr (\<lparr> out_power = [1, 2, (- 2 - exp (ln 2 * 2) * 2) / (- (2 * ln 2) - 1)],
            out_rho = [0, 0, 0], out_concentrations = [[1, 1, 1]] \<rparr>,
          ex4_state\<lparr>power := [1, 2, (- 2 - exp (ln 2 * 2) * 2) / (- (2 * ln 2) - 1)],
                      zeta_hat := [1], concentrations := [[1, 1, 1]]\<rparr>)"
proof -
  have b: "getNumTimeSteps_out (precomp ex4_state) = 2" "getNumTimeSteps (params ex4_state) = 3"
    by (simp_all add: getNumTimeSteps_def getNumTimeSteps_out_def ex4_defs)
  have "for_loop 2 3 (solve_step ex_lib) (0, ex4_state) =
      Inr (ln 2, ex4_state\<lparr>power := [1, 2, (- 2 - exp (ln 2 * 2) * 2) / (- (2 * ln 2) - 1)],
                            zeta_hat := [1], concentrations := [[1, 1, 1]]\<rparr>)"
    by (simp add: for_loop_step ex4_step2)
  then show ?thesis
    unfolding solve_def b by (simp add: ex4_defs)
qed

subsection \<open>The seed entries, and the state when the loop ends\<close>

lemma at_mat_in:
  "0 \<le> k \<Longrightarrow> k < int (length m) \<Longrightarrow> 0 \<le> n \<Longrightarrow> n < int (length (m ! nat k)) \<Longrightarrow>
     at_mat m k n = Inr (m ! nat k ! nat n)"
  by (simp add: at_mat_def at_vec_def)

lemma Solver_seed:
  assumes "Solver p pre = Inr s0" and n: "0 \<le> n" "n < getNumTimeSteps_out pre"
  shows "at_vec (power s0) n = getPower pre n" "at_vec (rho s0) n = getRho pre n"
    "0 \<le> k \<Longrightarrow> k < getNumPrecursors p \<Longrightarrow>
       at_mat (concentrations s0) k n = getConcentration pre k n"
proof -
  note S = Solver_Inr[OF assms(1)]
  from n have nL: "nat n < length (out_power pre)" by (simp add: getNumTimeSteps_out_def)
  with S(3,4) have nN: "nat n < num_time_steps p" "nat n < length (out_rho pre)" by simp_all
  from Solver_wf[OF assms(1)] S(1) have len: "length (power s0) = num_time_steps p"
    "length (rho s0) = num_time_steps p" by (simp_all add: wf_state_def)
  from n nN have r: "0 \<le> n" "n < int (num_time_steps p)" "n < int (length (out_power pre))"
    "n < int (length (out_rho pre))" using nL by simp_all
  from r nL show "at_vec (power s0) n = getPower pre n"
    by (simp add: getPower_def at_vec_def len) (simp add: S(5) nth_append)
  from r nL nN show "at_vec (rho s0) n = getRho pre n"
    by (simp add: getRho_def at_vec_def len) (simp add: S(6) nth_append)
  show "at_mat (concentrations s0) k n = getConcentration pre k n"
    if k: "0 \<le> k" "k < getNumPrecursors p"
  proof -
    from k have kK: "nat k < num_precursors p" by (simp add: getNumPrecursors_def)
    with S(11) nL have oc: "nat k < length (out_concentrations pre)"
      "length (out_power pre) \<le> length (out_concentrations pre ! nat k)" by auto
    from S(10) kK have row: "concentrations s0 ! nat k =
        take (length (out_power pre)) (out_concentrations pre ! nat k) @
        replicate (num_time_steps p - length (out_power pre)) 0" by simp
    from Solver_wf[OF assms(1)] S(1) kK have rl: "length (concentrations s0 ! nat k) = num_time_steps p"
      by (simp add: wf_state_def list_all_length)
    from oc nL have nr: "n < int (length (out_concentrations pre ! nat k))" using n by simp
    from kK oc have kk: "k < int (length (concentrations s0))" "k < int (length (out_concentrations pre))"
      using k(1) by (simp_all add: S(9))
    have "at_mat (concentrations s0) k n = Inr (concentrations s0 ! nat k ! nat n)"
      using k(1) kk(1) r(1) r(2) by (intro at_mat_in) (simp_all add: rl)
    moreover have "getConcentration pre k n = Inr (out_concentrations pre ! nat k ! nat n)"
      unfolding getConcentration_def using k(1) kk(2) r(1) nr by (rule at_mat_in)
    moreover have "concentrations s0 ! nat k ! nat n = out_concentrations pre ! nat k ! nat n"
      using nL oc by (simp add: row nth_append)
    ultimately show ?thesis by simp
  qed
qed

lemma solve_head_frame:
  assumes "solve_head u s0 n (alpha, s)"
  shows "getNumTimeSteps_out (precomp s0) \<le> n"
    "hist_unchanged_outside (nat (getNumTimeSteps_out (precomp s0))) (nat n) s0 s"
  using for_reach_le[OF assms[unfolded solve_head_def]]
    solve_reach_frame[OF assms[unfolded solve_head_def]] by simp_all

lemma solve_head_step:
  assumes "solve_head u s0 n c" "n < getNumTimeSteps (params s0)" "solve_step u n c = Inr c'"
  shows "solve_head u s0 (n + 1) c'"
  using assms unfolding solve_head_def by (rule for_reach.step)

lemma solve_end_frame:
  assumes "solve u s0 = Inl (e, s') \<or> solve u s0 = Inr (out, s')"
    and LN: "getNumTimeSteps_out (precomp s0) \<le> getNumTimeSteps (params s0)"
  shows "hist_unchanged_outside (nat (getNumTimeSteps_out (precomp s0)))
           (num_time_steps (params s0)) s0 s'"
  using assms(1)
proof
  assume "solve u s0 = Inr (out, s')"
  from solve_frame[OF this] LN show ?thesis
    by (simp add: max_def getNumTimeSteps_def)
next
  let ?L = "getNumTimeSteps_out (precomp s0)" and ?N = "getNumTimeSteps (params s0)"
  assume "solve u s0 = Inl (e, s')"
  then have "for_loop ?L ?N (solve_step u) (0, s0) = Inl (e, s')" by (simp add: solve_Inl)
  from for_loop_Inl_reach[OF this] obtain j c where
    r: "for_reach ?L ?N (solve_step u) (0, s0) j c" and j: "j < ?N"
    and f: "solve_step u j c = Inl (e, s')" by blast
  obtain a s where c: "c = (a, s)" by (cases c)
  from for_reach_le[OF r] have Lj: "?L \<le> j" .
  have L0: "0 \<le> ?L" by (simp add: getNumTimeSteps_out_def)
  from solve_reach_frame[OF r] have "hist_unchanged_outside (nat ?L) (nat j) s0 s" by (simp add: c)
  then have 1: "hist_unchanged_outside (nat ?L) (num_time_steps (params s0)) s0 s"
    by (rule hist_unchanged_outside_mono) (use j in \<open>simp_all add: getNumTimeSteps_def\<close>)
  from f have "step_frame (nat j) s s'" unfolding c by (rule solve_step_fail_frame)
  then have 2: "hist_unchanged_outside (nat ?L) (num_time_steps (params s0)) s s'"
    by (rule step_frame_unchanged) (use j Lj L0 in \<open>simp_all add: getNumTimeSteps_def\<close>)
  from 1 2 show ?thesis by (rule hist_unchanged_outside_trans)
qed

subsection \<open>The acceptance test\<close>

text \<open>
  \<^verbatim>\<open>solve\<close> does not call \<^verbatim>\<open>acceptTransformation\<close>. Where the commented-out call stands,
  after the store to \<^verbatim>\<open>power[n]\<close>, every read of the function is inside its vector; so
  a step that evaluated the test there and dropped the result would be the same
  function as the step of the source: whether the test is evaluated does not show in
  any result, failure or state.
\<close>

lemma acceptTransformation_ok:
  assumes "computeA1B1 u s1 n gamma = Inr a1b1" "0 \<le> n" "n < int (length (power s1))"
  shows "ok (acceptTransformation u (s1\<lparr>power := (power s1)[nat n := pw]\<rparr>) n alpha gamma)"
proof -
  from assms(1) have dt: "ok (computeDT (params s1) n)"
    and m: "0 \<le> (if n < 2 then n - 1 else n - 2)"
      "(if n < 2 then n - 1 else n - 2) < int (length (power s1))"
    and p: "0 \<le> n - 1" "n - 1 < int (length (power s1))"
    by (auto simp: computeA1B1_def Let_def bindE_eq_Inr at_vec_eq_Inr)
  show ?thesis
    unfolding acceptTransformation_def Let_def
    using dt m p assms(2,3)
    by (intro ok_intros) (auto intro!: ok_at_vec)
qed

lemma solve_step_with_test_eq:
  fixes u :: "('d::{zero,one,plus,minus,uminus,times,inverse,ord}) lib"
  shows "solve_step_with_test u n c = solve_step u n c"
proof -
  obtain alpha0 s where c: "c = (alpha0, s)" by (cases c)
  have drop_test: "bindE (throwing s2 (acceptTransformation u s2 n alpha gamma)) (\<lambda>accepted. r) = r"
    if "ok (acceptTransformation u s2 n alpha gamma)" for s2 alpha gamma
      and r :: "(error \<times> 'd solver_state) + 'd \<times> 'd solver_state"
    using that by (elim okE) simp
  show ?thesis
  proof (cases "computeGamma (params s) n")
    case (Inl e)
    then show ?thesis by (simp add: c solve_step_with_test_def solve_step_def)
  next
    case g: (Inr gamma)
    show ?thesis
    proof (cases "solve_alpha u s n alpha0")
      case (Inl e)
      then show ?thesis by (simp add: c g solve_step_with_test_def solve_step_def)
    next
      case a: (Inr alpha)
      show ?thesis
      proof (cases "computePower u n alpha gamma s")
        case (Inl e)
        then show ?thesis by (simp add: c g a solve_step_with_test_def solve_step_def)
      next
        case (Inr x)
        obtain pw s1 where x: "x = (pw, s1)" by (cases x)
        from Inr obtain a1b1 where ab: "computeA1B1 u s1 n gamma = Inr a1b1"
          unfolding x by (rule computePower_Inr)
        show ?thesis
        proof (cases "0 \<le> n \<and> n < int (length (power s1))")
          case False
          then show ?thesis
            by (auto simp: c g a Inr x solve_step_with_test_def solve_step_def set_vec_def)
        next
          case True
          with ab have "ok (acceptTransformation u (s1\<lparr>power := (power s1)[nat n := pw]\<rparr>) n alpha gamma)"
            by (intro acceptTransformation_ok) simp_all
          with True show ?thesis
            by (simp add: c g a Inr x solve_step_with_test_def solve_step_def set_vec_def Let_def
                drop_test)
        qed
      qed
    qed
  qed
qed

subsection \<open>The steps of a run\<close>

lemma for_loop_Inr_cover:
  assumes "for_loop i b body c = Inr c'" "i \<le> n" "n < b"
  obtains cn cn' where "for_reach i b body c n cn" "body n cn = Inr cn'"
    "for_loop (n + 1) b body cn' = Inr c'"
proof -
  have "\<exists>cn cn'. for_reach i b body c n cn \<and> body n cn = Inr cn' \<and>
          for_loop (n + 1) b body cn' = Inr c'"
    using assms
  proof (induction "nat (n - i)" arbitrary: i c)
    case 0
    then have i: "i = n" by simp
    from 0(2,4) obtain c1 where "body n c = Inr c1" "for_loop (n + 1) b body c1 = Inr c'"
      by (auto simp: i for_loop_step bindE_eq_Inr)
    then show ?case unfolding i by (blast intro: for_reach.start)
  next
    case (Suc k)
    then have lt: "i < n" "i < b" by simp_all
    with Suc.prems(1) obtain c1 where b: "body i c = Inr c1"
      and l: "for_loop (i + 1) b body c1 = Inr c'"
      by (auto simp: for_loop_step bindE_eq_Inr)
    have k: "k = nat (n - (i + 1))" using Suc.hyps(2) by simp
    from Suc.hyps(1)[OF k l] lt Suc.prems(3) obtain cn cn' where
      r: "for_reach (i + 1) b body c1 n cn" and s: "body n cn = Inr cn'"
      "for_loop (n + 1) b body cn' = Inr c'" by auto
    from lt(2) b have "for_reach i b body c (i + 1) c1" by (rule for_reach_first)
    with r have "for_reach i b body c n cn" by (rule for_reach_trans)
    with s show ?case by blast
  qed
  then show ?thesis using that by blast
qed

lemma solve_completed_head:
  assumes "solve u s0 = Inr (out, sN)"
    and "getNumTimeSteps_out (precomp s0) \<le> n" "n < getNumTimeSteps (params s0)"
  obtains alpha0 s where "solve_head u s0 n (alpha0, s)"
proof -
  from assms(1) obtain aN where
    "for_loop (getNumTimeSteps_out (precomp s0)) (getNumTimeSteps (params s0)) (solve_step u) (0, s0)
       = Inr (aN, sN)" by (rule solve_Inr)
  from this assms(2,3) obtain cn where
    "for_reach (getNumTimeSteps_out (precomp s0)) (getNumTimeSteps (params s0)) (solve_step u)
       (0, s0) n cn" by (rule for_loop_Inr_cover)
  then have "solve_head u s0 n (fst cn, snd cn)" by (simp add: solve_head_def)
  then show ?thesis by (rule that)
qed

lemma solve_from_head:
  assumes head: "solve_head u s0 n (alpha0, s)" and n: "n < getNumTimeSteps (params s0)"
    and run: "solve u s0 = Inr (out, sN)"
  obtains alpha s' where "solve_step u n (alpha0, s) = Inr (alpha, s')"
    "solve_head u s0 (n + 1) (alpha, s')"
    "hist_unchanged_outside (nat (n + 1)) (num_time_steps (params s0)) s' sN"
    "out = \<lparr> out_power = power sN, out_rho = rho sN, out_concentrations = concentrations sN \<rparr>"
proof -
  from run obtain aN where
    l: "for_loop (getNumTimeSteps_out (precomp s0)) (getNumTimeSteps (params s0)) (solve_step u) (0, s0)
       = Inr (aN, sN)"
    and out: "out = \<lparr> out_power = power sN, out_rho = rho sN,
                      out_concentrations = concentrations sN \<rparr>" by (rule solve_Inr)
  from l solve_head_loop[OF head]
  have "for_loop n (getNumTimeSteps (params s0)) (solve_step u) (alpha0, s) = Inr (aN, sN)" by simp
  with n obtain c' where st: "solve_step u n (alpha0, s) = Inr c'"
    and l': "for_loop (n + 1) (getNumTimeSteps (params s0)) (solve_step u) c' = Inr (aN, sN)"
    by (auto simp: for_loop_step bindE_eq_Inr)
  obtain alpha s' where c': "c' = (alpha, s')" by (cases c')
  from head n st have h': "solve_head u s0 (n + 1) (alpha, s')" unfolding c' by (rule solve_head_step)
  from solve_reach_frame[OF for_loop_Inr_reach[OF l']] n
  have "hist_unchanged_outside (nat (n + 1)) (num_time_steps (params s0)) s' sN"
    by (simp add: c' getNumTimeSteps_def max_def)
  from st h' this out show ?thesis unfolding c' by (rule that)
qed

lemma hist_unchanged_outside_nth:
  assumes "hist_unchanged_outside lo hi s t" "m < lo"
  shows "power t ! m = power s ! m" "rho t ! m = rho s ! m"
proof -
  from assms(1) have "take lo (power t) = take lo (power s)" "take lo (rho t) = take lo (rho s)"
    by (simp_all add: hist_unchanged_outside_def unchanged_outside_def)
  then have "take lo (power t) ! m = take lo (power s) ! m" "take lo (rho t) ! m = take lo (rho s) ! m"
    by simp_all
  with assms(2) show "power t ! m = power s ! m" "rho t ! m = rho s ! m" by simp_all
qed



subsection \<open>The constructor on an empty prefix\<close>

lemma for_loop_skip:
  assumes "\<And>j s. body j s = Inr s"
  shows "for_loop i b body s = Inr s"
proof (induction "nat (b - i)" arbitrary: i)
  case 0
  then show ?case by simp
next
  case (Suc k)
  then have "i < b" "k = nat (b - (i + 1))" by simp_all
  with Suc.hyps(1)[of "i + 1"] show ?case by (simp add: for_loop_step assms)
qed

lemma Solver_empty_prefix:
  assumes "getNumTimeSteps_out pre = 0"
  shows "Solver p pre =
     Inr \<lparr> params = p, precomp = pre, power = replicate (num_time_steps p) 0,
           rho = replicate (num_time_steps p) 0, omega = replicate (num_precursors p) 0,
           zeta_hat = replicate (num_precursors p) 0,
           concentrations = replicate (num_precursors p) (replicate (num_time_steps p) 0) \<rparr>"
proof -
  have "Solver_conc pre k c = Inr c" for k c
    by (simp add: Solver_conc_def assms)
  then have "for_loop 0 (getNumPrecursors p) (Solver_conc pre) c = Inr c" for c
    by (rule for_loop_skip)
  then show ?thesis
    by (simp add: Solver_def assms Let_def getNumTimeSteps_def getNumPrecursors_def)
qed

subsection \<open>Runs of the examples\<close>

lemma sqrt_9: "sqrt 9 = 3"
  by (rule real_sqrt_unique) simp_all

lemma ex_solve_neg:
  "solve ex_lib (ex_state (- 2)) =
     Inr (\<lparr> out_power = [1, 1 / 2], out_rho = [0, - 1], out_concentrations = [] \<rparr>,
          (ex_state (- 2))\<lparr>power := [1, 1 / 2], rho := [0, - 1]\<rparr>)"
  by (simp add: solve_def step_defs getter_defs ex_defs for_loop.simps Let_def sqrt_9)

lemma ex_head1: "solve_head ex_lib (ex_state gd) 1 (0, ex_state gd)"
  by (simp add: solve_head_def getNumTimeSteps_out_def ex_defs for_reach.start)

lemma ex3_Solver: "Solver ex3_params ex_seed = Inr (ex3_state [1, 0, 0])"
  by (simp add: Solver_def Solver_hist_def getPower_def getRho_def getNumTimeSteps_out_def
      set_vec_def getter_defs ex_defs ex3_params_def ex3_state_def for_loop.simps Let_def
      eval_nat_numeral)

lemma ex3_solve: "solve ex_lib (ex3_state [1, 0, 0]) = Inl (Terminate, ex3_state [1, 1, 0])"
  by (simp add: solve_def step_defs getter_defs ex_defs ex3_params_def ex3_state_def
      for_loop.simps Let_def)


section \<open>Properties of the solver\<close>


subsection \<open>C1\<close>

text \<open>
  Claim C1 (as amended). In step \<open>n\<close> of the loop, let \<open>(a, b, c)\<close> be the coefficients that
  \<^verbatim>\<open>computeABC\<close> assembles from the extrapolation rate, the feedback pair, the three
  sums of the group loop and the entries at \<open>n - 1\<close>. If \<^verbatim>\<open>a < 0\<close> the power computed for
  \<open>n\<close> is \<^verbatim>\<open>(-b - sqrt(b * b - 4 * a * c)) / (2 * a)\<close>; otherwise, if \<^verbatim>\<open>a == 0\<close>, it is
  \<^verbatim>\<open>-c / b\<close>. In both cases a step that completes has stored that value in
  \<^verbatim>\<open>power[n]\<close>, and a run of \<^verbatim>\<open>solve\<close> that completes returns it at index \<open>n\<close>. In
  every other case (for a double: \<open>a > 0\<close>, or \<open>a\<close> is a NaN) the step returns no value: it
  ends in \<open>Terminate\<close>, the bare \<^verbatim>\<open>throw;\<close>, and so does the run of \<^verbatim>\<open>solve\<close>. The
  comparisons are those of the doubles, and \<open>Terminate\<close> carries no value: no kind of
  error, no message, no number.
\<close>

theorem solve_step_root:
  assumes gamma: "computeGamma (params s) n = Inr gamma"
    and alpha: "solve_alpha u s n alpha0 = Inr alpha"
    and groups: "for_loop 0 (getNumPrecursors (params s)) (computePower_group u n gamma)
                   ((0, 0, 0), s) = Inr ((tau, s_hat_d, s_d_prev), s1)"
    and a1b1: "computeA1B1 u s1 n gamma = Inr a1b1"
    and abc: "computeABC_coeffs u s1 n alpha a1b1 tau s_hat_d s_d_prev = Inr (a, b, c)"
  shows "(a < 0 \<longrightarrow>
           computePower u n alpha gamma s
             = Inr ((- b - sqrt_d u (b * b - lit u 4 * a * c)) / (lit u 2 * a), s1) \<and>
           (\<forall>alpha' s'. solve_step u n (alpha0, s) = Inr (alpha', s') \<longrightarrow>
              power s' ! nat n = (- b - sqrt_d u (b * b - lit u 4 * a * c)) / (lit u 2 * a)) \<and>
           (\<forall>s0 out sN. solve_head u s0 n (alpha0, s) \<and> n < getNumTimeSteps (params s0) \<and>
              solve u s0 = Inr (out, sN) \<longrightarrow>
              out_power out ! nat n = (- b - sqrt_d u (b * b - lit u 4 * a * c)) / (lit u 2 * a))) \<and>
         (\<not> a < 0 \<and> eq_d u a 0 \<longrightarrow>
           computePower u n alpha gamma s = Inr (- c / b, s1) \<and>
           (\<forall>alpha' s'. solve_step u n (alpha0, s) = Inr (alpha', s') \<longrightarrow>
              power s' ! nat n = - c / b) \<and>
           (\<forall>s0 out sN. solve_head u s0 n (alpha0, s) \<and> n < getNumTimeSteps (params s0) \<and>
              solve u s0 = Inr (out, sN) \<longrightarrow> out_power out ! nat n = - c / b)) \<and>
         (\<not> a < 0 \<and> \<not> eq_d u a 0 \<longrightarrow>
           computePower u n alpha gamma s = Inl (Terminate, s1) \<and>
           solve_step u n (alpha0, s) = Inl (Terminate, s1) \<and>
           (\<forall>s0. solve_head u s0 n (alpha0, s) \<and> n < getNumTimeSteps (params s0) \<longrightarrow>
              solve u s0 = Inl (Terminate, s1)))"
proof -
  have cp: "computePower u n alpha gamma s =
      bindE (throwing s1 (select_root u (a, b, c))) (\<lambda>pw. Inr (pw, s1))"
    using groups a1b1 abc by (simp add: computePower_def computeABC_def)
  have written: "power s' ! nat n = pw"
    if "solve_step u n (alpha0, s) = Inr (alpha', s')" "computePower u n alpha gamma s = Inr (pw, s1)"
    for alpha' s' pw
  proof -
    from that(1) obtain gamma' pw' s1' s3 a1b1' where
      g: "computeGamma (params s) n = Inr gamma'"
      and al: "solve_alpha u s n alpha0 = Inr alpha'"
      and cp': "computePower u n alpha' gamma' s = Inr (pw', s1')"
      and n: "0 \<le> n" "n < int (length (power s1'))"
      and cl: "for_loop 0 (getNumPrecursors (params s1')) (solve_conc n)
                 (s1'\<lparr>power := (power s1')[nat n := pw']\<rparr>) = Inr s3"
      and s': "s' = s3\<lparr>rho := (rho s3)[nat n := fst a1b1' * (power s3 ! nat n) + snd a1b1']\<rparr>"
      by (rule solve_step_Inr)
    from g gamma al alpha have "gamma' = gamma" "alpha' = alpha" by simp_all
    with cp' that(2) have "pw' = pw" "s1' = s1" by simp_all
    with conc_loop_frame[OF cl] n s' show ?thesis by simp
  qed
  have returned: "out_power out ! nat n = pw"
    if head: "solve_head u s0 n (alpha0, s)" and n: "n < getNumTimeSteps (params s0)"
      and run: "solve u s0 = Inr (out, sN)" and pw: "computePower u n alpha gamma s = Inr (pw, s1)"
    for s0 out sN pw
  proof -
    from head n run obtain alpha' s' where st: "solve_step u n (alpha0, s) = Inr (alpha', s')"
      and fr: "hist_unchanged_outside (nat (n + 1)) (num_time_steps (params s0)) s' sN"
      and out: "out = \<lparr> out_power = power sN, out_rho = rho sN,
                        out_concentrations = concentrations sN \<rparr>"
      by (rule solve_from_head)
    from st pw have w: "power s' ! nat n = pw" by (rule written)
    from solve_step_frame(2)[OF st] have "nat n < nat (n + 1)" by simp
    with fr have "power sN ! nat n = power s' ! nat n" by (rule hist_unchanged_outside_nth)
    with w out show ?thesis by simp
  qed
  have fail: "solve_step u n (alpha0, s) = Inl (Terminate, s1)"
    if "computePower u n alpha gamma s = Inl (Terminate, s1)"
    using that gamma alpha by (simp add: solve_step_def)
  have aborted: "solve u s0 = Inl (Terminate, s1)"
    if head: "solve_head u s0 n (alpha0, s)" and n: "n < getNumTimeSteps (params s0)"
      and t: "computePower u n alpha gamma s = Inl (Terminate, s1)" for s0
  proof -
    have "for_loop (getNumTimeSteps_out (precomp s0)) (getNumTimeSteps (params s0)) (solve_step u)
           (0, s0) = for_loop n (getNumTimeSteps (params s0)) (solve_step u) (alpha0, s)"
      using head by (rule solve_head_loop)
    also have "\<dots> = Inl (Terminate, s1)"
      using n fail[OF t] by (simp add: for_loop_step)
    finally show ?thesis by (simp add: solve_Inl)
  qed
  consider (neg) "a < 0" | (zero) "\<not> a < 0" "eq_d u a 0" | (other) "\<not> a < 0" "\<not> eq_d u a 0"
    by blast
  then show ?thesis
  proof cases
    case neg
    then have "computePower u n alpha gamma s
        = Inr ((- b - sqrt_d u (b * b - lit u 4 * a * c)) / (lit u 2 * a), s1)"
      by (simp add: cp select_root_def)
    with neg written returned show ?thesis by blast
  next
    case zero
    then have "computePower u n alpha gamma s = Inr (- c / b, s1)"
      by (simp add: cp select_root_def)
    with zero written returned show ?thesis by blast
  next
    case other
    then have "computePower u n alpha gamma s = Inl (Terminate, s1)"
      by (simp add: cp select_root_def)
    with other fail aborted show ?thesis by blast
  qed
qed

text \<open>
  The three branches on a two-point grid, at \<open>\<gamma>\<^sub>d = -2, 0, 1\<close>: the coefficients are
  \<open>(\<gamma>\<^sub>d, -1, 1)\<close>, so the first root is \<open>(1 - sqrt 9) / (- 4) = 1 / 2\<close>.
\<close>

theorem solve_step_root_witness:
  "computePower ex_lib 1 0 1 (ex_state (- 2)) = Inr (1 / 2, ex_state (- 2)) \<and>
   solve ex_lib (ex_state (- 2)) =
     Inr (\<lparr> out_power = [1, 1 / 2], out_rho = [0, - 1], out_concentrations = [] \<rparr>,
          (ex_state (- 2))\<lparr>power := [1, 1 / 2], rho := [0, - 1]\<rparr>) \<and>
   out_power \<lparr> out_power = [1, 1 / 2], out_rho = [0, - 1], out_concentrations = [] \<rparr> ! nat 1
     = 1 / 2 \<and>
   computePower ex_lib 1 0 1 (ex_state 0) = Inr (1, ex_state 0) \<and>
   solve_step ex_lib 1 (0, ex_state 1) = Inl (Terminate, ex_state 1) \<and>
   solve ex_lib (ex_state 1) = Inl (Terminate, ex_state 1)"
proof -
  have g: "computeGamma (params (ex_state gd)) 1 = Inr 1" for gd
    by (simp add: computeGamma_def)
  have al: "solve_alpha ex_lib (ex_state gd) 1 0 = Inr 0" for gd
    by (simp add: solve_alpha_def)
  have gr: "for_loop 0 (getNumPrecursors (params (ex_state gd))) (computePower_group ex_lib 1 1)
              ((0, 0, 0), ex_state gd) = Inr ((0, 0, 0), ex_state gd)" for gd
    by (simp add: getter_defs ex_defs)
  have ab: "computeA1B1 ex_lib (ex_state gd) 1 1 = Inr (gd, 0)" for gd
    by (simp add: computeA1B1_def computeDT_def getter_defs ex_defs)
  have co: "computeABC_coeffs ex_lib (ex_state gd) 1 0 (gd, 0) 0 0 0 = Inr (gd, - 1, 1)" for gd
    by (simp add: computeABC_coeffs_def computeDT_def getter_defs ex_defs)
  have N: "1 < getNumTimeSteps (params (ex_state gd))" for gd
    by (simp add: getter_defs ex_defs)
  note T = solve_step_root[OF g al gr ab co]
  from T[of "- 2"] ex_head1[of "- 2"] N[of "- 2"] ex_solve_neg
  have 1: "computePower ex_lib 1 0 1 (ex_state (- 2)) = Inr (1 / 2, ex_state (- 2))"
    "out_power \<lparr> out_power = [1, 1 / 2], out_rho = [0, - 1], out_concentrations = [] \<rparr> ! nat 1
       = 1 / 2"
    by (simp_all add: ex_lib_def sqrt_9)
  from T[of 0] have 2: "computePower ex_lib 1 0 1 (ex_state 0) = Inr (1, ex_state 0)"
    by (simp add: ex_lib_def)
  from T[of 1] ex_head1[of 1] N[of 1]
  have 3: "solve_step ex_lib 1 (0, ex_state 1) = Inl (Terminate, ex_state 1)"
    "solve ex_lib (ex_state 1) = Inl (Terminate, ex_state 1)"
    by (simp_all add: ex_lib_def)
  from 1 2 3 ex_solve_neg show ?thesis by simp
qed

text \<open>
  Claim C1 as stated fails in its last part: for \<open>a > 0\<close> no numeric error is signalled.
  At \<open>a = 2\<close> and at \<open>a = 3\<close> \<^verbatim>\<open>computeABC\<close> and the step end in the same \<open>Terminate\<close>:
  the \<^verbatim>\<open>throw;\<close> that is executed with no exception being handled, which calls
  \<^verbatim>\<open>std::terminate\<close> and is no exception object that could name an error or the
  coefficients.
\<close>

theorem solve_step_root_counterexample:
  "computeABC_coeffs ex_lib (ex_state 2) 1 0 (2, 0) 0 0 0 = Inr (2, - 1, 1) \<and>
   computeABC ex_lib (ex_state 2) 1 0 (2, 0) 0 0 0 = Inl Terminate \<and>
   solve_step ex_lib 1 (0, ex_state 2) = Inl (Terminate, ex_state 2) \<and>
   computeABC_coeffs ex_lib (ex_state 3) 1 0 (3, 0) 0 0 0 = Inr (3, - 1, 1) \<and>
   computeABC ex_lib (ex_state 3) 1 0 (3, 0) 0 0 0 = Inl Terminate \<and>
   solve_step ex_lib 1 (0, ex_state 3) = Inl (Terminate, ex_state 3)"
  by (simp add: step_defs getter_defs ex_defs for_loop.simps Let_def)

subsection \<open>C2\<close>

text \<open>
  Claim C2 (as amended). If at step \<open>n\<close> of a run of \<^verbatim>\<open>solve\<close> the leading coefficient
  \<open>a\<close> is positive, more exactly if neither \<^verbatim>\<open>a < 0\<close> nor \<^verbatim>\<open>a == 0\<close> holds of the double
  \<open>a\<close>, the run ends in that step in \<open>Terminate\<close>, the bare \<^verbatim>\<open>throw;\<close>, which names neither
  a step nor a kind of error. At the abort only the scratch differs from the head of
  step \<open>n\<close>: the histories hold the seed, the results of the steps before \<open>n\<close>, and at
  every index from \<open>n\<close> on what they held before the run.
\<close>

theorem solve_abort:
  assumes head: "solve_head u s0 n (alpha0, s)"
    and n: "n < getNumTimeSteps (params s0)"
    and gamma: "computeGamma (params s) n = Inr gamma"
    and alpha: "solve_alpha u s n alpha0 = Inr alpha"
    and groups: "for_loop 0 (getNumPrecursors (params s)) (computePower_group u n gamma)
                   ((0, 0, 0), s) = Inr ((tau, s_hat_d, s_d_prev), s1)"
    and a1b1: "computeA1B1 u s1 n gamma = Inr a1b1"
    and abc: "computeABC_coeffs u s1 n alpha a1b1 tau s_hat_d s_d_prev = Inr (a, b, c)"
    and a: "\<not> a < 0" "\<not> eq_d u a 0"
  shows "solve u s0 = Inl (Terminate, s1) \<and> same_hist s s1 \<and>
         hist_unchanged_outside (nat (getNumTimeSteps_out (precomp s0))) (nat n) s0 s1"
proof -
  have st: "solve_step u n (alpha0, s) = Inl (Terminate, s1)"
    using gamma alpha groups a1b1 abc a by (rule solve_step_abort)
  have "for_loop (getNumTimeSteps_out (precomp s0)) (getNumTimeSteps (params s0)) (solve_step u)
           (0, s0) = for_loop n (getNumTimeSteps (params s0)) (solve_step u) (alpha0, s)"
    using head by (rule solve_head_loop)
  also have "\<dots> = Inl (Terminate, s1)"
    using n st by (simp add: for_loop_step)
  finally have 1: "solve u s0 = Inl (Terminate, s1)" by (simp add: solve_Inl)
  from groups have 2: "same_hist s s1" by (rule groups_frame)
  have "hist_unchanged_outside (nat (getNumTimeSteps_out (precomp s0))) (nat n) s0 s"
    using solve_reach_frame[OF head[unfolded solve_head_def]] by simp
  with 2 have 3: "hist_unchanged_outside (nat (getNumTimeSteps_out (precomp s0))) (nat n) s0 s1"
    by (blast intro: hist_unchanged_outside_trans same_hist_unchanged)
  from 1 2 3 show ?thesis by blast
qed

text \<open>A run on three points that completes step 1 and aborts in step 2, where \<open>a = 1\<close>.\<close>

theorem solve_abort_witness:
  "solve ex_lib (ex3_state [1, 0, 0]) = Inl (Terminate, ex3_state [1, 1, 0]) \<and>
   hist_unchanged_outside 1 2 (ex3_state [1, 0, 0]) (ex3_state [1, 1, 0])"
proof -
  have n: "2 < getNumTimeSteps (params (ex3_state [1, 0, 0]))"
    by (simp add: getter_defs ex3_params_def ex3_state_def)
  have g: "computeGamma (params (ex3_state [1, 1, 0])) 2 = Inr 1"
    by (simp add: computeGamma_def computeDT_def getter_defs ex3_params_def ex3_state_def)
  have al: "solve_alpha ex_lib (ex3_state [1, 1, 0]) 2 0 = Inr 0"
    by (simp add: solve_alpha_def computeDT_def getter_defs ex_defs ex3_params_def ex3_state_def)
  have gr: "for_loop 0 (getNumPrecursors (params (ex3_state [1, 1, 0])))
              (computePower_group ex_lib 2 1) ((0, 0, 0), ex3_state [1, 1, 0])
              = Inr ((0, 0, 0), ex3_state [1, 1, 0])"
    by (simp add: getter_defs ex3_params_def ex3_state_def)
  have ab: "computeA1B1 ex_lib (ex3_state [1, 1, 0]) 2 1 = Inr (1, 0)"
    by (simp add: computeA1B1_def computeDT_def getter_defs ex_defs ex3_params_def ex3_state_def)
  have co: "computeABC_coeffs ex_lib (ex3_state [1, 1, 0]) 2 0 (1, 0) 0 0 0 = Inr (1, - 1, 1)"
    by (simp add: computeABC_coeffs_def computeDT_def getter_defs ex_defs ex3_params_def
        ex3_state_def)
  have a: "\<not> (1::real) < 0" "\<not> eq_d ex_lib 1 0" by (simp_all add: ex_lib_def)
  show ?thesis
    using solve_abort[OF ex3_head2 n g al gr ab co a]
    by (simp add: getNumTimeSteps_out_def ex3_state_def ex_seed_def)
qed

text \<open>
  Claim C2 as stated fails: the failure does not identify the step. One run aborts in
  step 1, another completes step 1 and aborts in step 2, and both end in the same
  \<open>Terminate\<close>.
\<close>

theorem solve_abort_counterexample:
  "solve_step ex_lib 1 (0, ex_state 1) = Inl (Terminate, ex_state 1) \<and>
   solve ex_lib (ex_state 1) = Inl (Terminate, ex_state 1) \<and>
   solve_step ex_lib 1 (0, ex3_state [1, 0, 0]) = Inr (0, ex3_state [1, 1, 0]) \<and>
   solve_step ex_lib 2 (0, ex3_state [1, 1, 0]) = Inl (Terminate, ex3_state [1, 1, 0]) \<and>
   solve ex_lib (ex3_state [1, 0, 0]) = Inl (Terminate, ex3_state [1, 1, 0])"
  by (simp add: solve_def step_defs getter_defs ex_defs ex3_params_def ex3_state_def
      for_loop.simps Let_def)

subsection \<open>C3\<close>



subsection \<open>C4\<close>

text \<open>
  Claim C4. After construction the entries below the seed length hold what the history
  provider returns there. A run of \<^verbatim>\<open>solve\<close> that completes returns the histories of the
  solver as they are at the head that follows the last step, and has performed every
  step \<open>n\<close> from the seed length to the end of the grid: at the head of step \<open>n\<close> only the
  entries from the seed length up to \<open>n - 1\<close> have been written (the prefix is as
  constructed, the entries from \<open>n\<close> on are untouched); the step writes the entries at
  index \<open>n\<close> and no other, and the loop goes on at \<open>n + 1\<close>; and nothing at an index up
  to \<open>n\<close> is written afterwards. So every index from the seed length on is written once,
  in increasing order. What step \<open>n\<close> writes depends only on the entries below \<open>n\<close>: from
  a state that agrees on them it fails alike or writes the same values. A run that fails
  has failed in a step \<open>n\<close> at whose head the same holds, and that step has changed the
  entries at \<open>n\<close> only. The same holds at every head that the loop reaches; and when
  \<^verbatim>\<open>solve\<close> ends, normally or not, the prefix is still as constructed.
\<close>

theorem history_invariant:
  assumes "Solver p pre = Inr s0"
  shows "(\<forall>n k. 0 \<le> n \<and> n < getNumTimeSteps_out pre \<longrightarrow>
            at_vec (power s0) n = getPower pre n \<and> at_vec (rho s0) n = getRho pre n \<and>
            (0 \<le> k \<and> k < getNumPrecursors p \<longrightarrow>
               at_mat (concentrations s0) k n = getConcentration pre k n)) \<and>
         (\<forall>out sN. solve u s0 = Inr (out, sN) \<longrightarrow>
            out = \<lparr> out_power = power sN, out_rho = rho sN,
                    out_concentrations = concentrations sN \<rparr> \<and>
            (\<exists>alphaN. solve_head u s0 (max (getNumTimeSteps_out pre) (getNumTimeSteps p))
                        (alphaN, sN)) \<and>
            (\<forall>n. getNumTimeSteps_out pre \<le> n \<and> n < getNumTimeSteps p \<longrightarrow>
               (\<exists>alpha0 s alpha s'.
                  solve_head u s0 n (alpha0, s) \<and>
                  hist_unchanged_outside (nat (getNumTimeSteps_out pre)) (nat n) s0 s \<and>
                  solve_step u n (alpha0, s) = Inr (alpha, s') \<and>
                  step_frame (nat n) s s' \<and> solve_head u s0 (n + 1) (alpha, s') \<and>
                  hist_unchanged_outside (nat (n + 1)) (num_time_steps p) s' sN \<and>
                  (\<forall>t. agree (nat n) s t \<longrightarrow>
                     rel_sum err_eq (step_rel (nat (n + 1)))
                       (solve_step u n (alpha0, s)) (solve_step u n (alpha0, t)))))) \<and>
         (\<forall>e sF. solve u s0 = Inl (e, sF) \<longrightarrow>
            (\<exists>n alpha0 s.
               solve_head u s0 n (alpha0, s) \<and> n < getNumTimeSteps p \<and>
               hist_unchanged_outside (nat (getNumTimeSteps_out pre)) (nat n) s0 s \<and>
               solve_step u n (alpha0, s) = Inl (e, sF) \<and> step_frame (nat n) s sF)) \<and>
         (\<forall>n alpha s. solve_head u s0 n (alpha, s) \<longrightarrow>
            getNumTimeSteps_out pre \<le> n \<and>
            hist_unchanged_outside (nat (getNumTimeSteps_out pre)) (nat n) s0 s \<and>
            (\<forall>alpha' s'. n < getNumTimeSteps p \<and> solve_step u n (alpha, s) = Inr (alpha', s') \<longrightarrow>
               step_frame (nat n) s s' \<and> solve_head u s0 (n + 1) (alpha', s')) \<and>
            (\<forall>e s'. solve_step u n (alpha, s) = Inl (e, s') \<longrightarrow> step_frame (nat n) s s') \<and>
            (\<forall>t. agree (nat n) s t \<longrightarrow>
               rel_sum err_eq (step_rel (nat (n + 1)))
                 (solve_step u n (alpha, s)) (solve_step u n (alpha, t)))) \<and>
         (\<forall>e out s'. solve u s0 = Inl (e, s') \<or> solve u s0 = Inr (out, s') \<longrightarrow>
            hist_unchanged_outside (nat (getNumTimeSteps_out pre)) (num_time_steps p) s0 s')"
proof -
  note S = Solver_Inr[OF assms]
  have a: "at_vec (power s0) n = getPower pre n \<and> at_vec (rho s0) n = getRho pre n \<and>
            (0 \<le> k \<and> k < getNumPrecursors p \<longrightarrow>
               at_mat (concentrations s0) k n = getConcentration pre k n)"
    if "0 \<le> n \<and> n < getNumTimeSteps_out pre" for n k
    using Solver_seed[OF assms, of n] that by simp
  have b: "getNumTimeSteps_out pre \<le> n \<and>
            hist_unchanged_outside (nat (getNumTimeSteps_out pre)) (nat n) s0 s"
    if "solve_head u s0 n (alpha, s)" for n alpha s
    using solve_head_frame[OF that] by (simp add: S)
  have c: "step_frame (nat n) s s' \<and> solve_head u s0 (n + 1) (alpha', s')"
    if "solve_head u s0 n (alpha, s)" "n < getNumTimeSteps p \<and> solve_step u n (alpha, s) = Inr (alpha', s')"
    for n alpha s alpha' s'
  proof -
    from that(2) have lt: "n < getNumTimeSteps (params s0)"
      and st: "solve_step u n (alpha, s) = Inr (alpha', s')" by (simp_all add: S)
    from st have "step_frame (nat n) s s'" by (rule solve_step_frame)
    moreover from that(1) lt st have "solve_head u s0 (n + 1) (alpha', s')" by (rule solve_head_step)
    ultimately show ?thesis by simp
  qed
  have d: "step_frame (nat n) s s'" if "solve_step u n (alpha, s) = Inl (e, s')" for n alpha s e s'
    using that by (rule solve_step_fail_frame)
  have e: "rel_sum err_eq (step_rel (nat (n + 1)))
                 (solve_step u n (alpha, s)) (solve_step u n (alpha, t))"
    if "agree (nat n) s t" for n alpha s t
    using that by (rule solve_step_rel)
  have f: "hist_unchanged_outside (nat (getNumTimeSteps_out pre)) (num_time_steps p) s0 s'"
    if "solve u s0 = Inl (e, s') \<or> solve u s0 = Inr (out, s')" for e out s'
    using solve_end_frame[OF that] S(3)
    by (simp add: S(1,2) getNumTimeSteps_out_def getNumTimeSteps_def)
  have g: "out = \<lparr> out_power = power sN, out_rho = rho sN,
                    out_concentrations = concentrations sN \<rparr> \<and>
            (\<exists>alphaN. solve_head u s0 (max (getNumTimeSteps_out pre) (getNumTimeSteps p))
                        (alphaN, sN)) \<and>
            (\<forall>n. getNumTimeSteps_out pre \<le> n \<and> n < getNumTimeSteps p \<longrightarrow>
               (\<exists>alpha0 s alpha s'.
                  solve_head u s0 n (alpha0, s) \<and>
                  hist_unchanged_outside (nat (getNumTimeSteps_out pre)) (nat n) s0 s \<and>
                  solve_step u n (alpha0, s) = Inr (alpha, s') \<and>
                  step_frame (nat n) s s' \<and> solve_head u s0 (n + 1) (alpha, s') \<and>
                  hist_unchanged_outside (nat (n + 1)) (num_time_steps p) s' sN \<and>
                  (\<forall>t. agree (nat n) s t \<longrightarrow>
                     rel_sum err_eq (step_rel (nat (n + 1)))
                       (solve_step u n (alpha0, s)) (solve_step u n (alpha0, t)))))"
    if run: "solve u s0 = Inr (out, sN)" for out sN
  proof (intro conjI allI impI)
    from run show "out = \<lparr> out_power = power sN, out_rho = rho sN,
                    out_concentrations = concentrations sN \<rparr>" by (rule solve_Inr)
  next
    from run obtain aN where
      "for_loop (getNumTimeSteps_out (precomp s0)) (getNumTimeSteps (params s0)) (solve_step u)
         (0, s0) = Inr (aN, sN)" by (rule solve_Inr)
    then have "solve_head u s0 (max (getNumTimeSteps_out pre) (getNumTimeSteps p)) (aN, sN)"
      unfolding solve_head_def S(1,2) by (rule for_loop_Inr_reach)
    then show "\<exists>alphaN. solve_head u s0 (max (getNumTimeSteps_out pre) (getNumTimeSteps p))
                        (alphaN, sN)" ..
  next
    fix n
    assume "getNumTimeSteps_out pre \<le> n \<and> n < getNumTimeSteps p"
    then have L: "getNumTimeSteps_out (precomp s0) \<le> n" and N: "n < getNumTimeSteps (params s0)"
      by (simp_all add: S)
    from run L N obtain alpha0 s where head: "solve_head u s0 n (alpha0, s)"
      by (rule solve_completed_head)
    from head N run obtain alpha s' where st: "solve_step u n (alpha0, s) = Inr (alpha, s')"
      and h': "solve_head u s0 (n + 1) (alpha, s')"
      and fr: "hist_unchanged_outside (nat (n + 1)) (num_time_steps (params s0)) s' sN"
      by (rule solve_from_head)
    from st have sf: "step_frame (nat n) s s'" by (rule solve_step_frame)
    from b[OF head] have hu: "hist_unchanged_outside (nat (getNumTimeSteps_out pre)) (nat n) s0 s"
      by simp
    from fr have fr': "hist_unchanged_outside (nat (n + 1)) (num_time_steps p) s' sN"
      by (simp add: S(1))
    have dep: "\<forall>t. agree (nat n) s t \<longrightarrow>
                     rel_sum err_eq (step_rel (nat (n + 1)))
                       (solve_step u n (alpha0, s)) (solve_step u n (alpha0, t))"
      by (intro allI impI) (rule e)
    show "\<exists>alpha0 s alpha s'.
                  solve_head u s0 n (alpha0, s) \<and>
                  hist_unchanged_outside (nat (getNumTimeSteps_out pre)) (nat n) s0 s \<and>
                  solve_step u n (alpha0, s) = Inr (alpha, s') \<and>
                  step_frame (nat n) s s' \<and> solve_head u s0 (n + 1) (alpha, s') \<and>
                  hist_unchanged_outside (nat (n + 1)) (num_time_steps p) s' sN \<and>
                  (\<forall>t. agree (nat n) s t \<longrightarrow>
                     rel_sum err_eq (step_rel (nat (n + 1)))
                       (solve_step u n (alpha0, s)) (solve_step u n (alpha0, t)))"
      apply (rule exI[of _ alpha0])
      apply (rule exI[of _ s])
      apply (rule exI[of _ alpha])
      apply (rule exI[of _ s'])
      apply (intro conjI head hu st sf h' fr' dep)
      done
  qed
  have h: "\<exists>n alpha0 s.
               solve_head u s0 n (alpha0, s) \<and> n < getNumTimeSteps p \<and>
               hist_unchanged_outside (nat (getNumTimeSteps_out pre)) (nat n) s0 s \<and>
               solve_step u n (alpha0, s) = Inl (e, sF) \<and> step_frame (nat n) s sF"
    if run: "solve u s0 = Inl (e, sF)" for e sF
  proof -
    from run have "for_loop (getNumTimeSteps_out (precomp s0)) (getNumTimeSteps (params s0))
        (solve_step u) (0, s0) = Inl (e, sF)" by (simp add: solve_Inl)
    then obtain n c where r: "for_reach (getNumTimeSteps_out (precomp s0))
        (getNumTimeSteps (params s0)) (solve_step u) (0, s0) n c"
      and N: "n < getNumTimeSteps (params s0)" and fl: "solve_step u n c = Inl (e, sF)"
      by (blast dest: for_loop_Inl_reach)
    obtain alpha0 s where c: "c = (alpha0, s)" by (cases c)
    from r have head: "solve_head u s0 n (alpha0, s)" by (simp add: solve_head_def c)
    from fl have sf: "step_frame (nat n) s sF" unfolding c by (rule solve_step_fail_frame)
    from b[OF head] have hu: "hist_unchanged_outside (nat (getNumTimeSteps_out pre)) (nat n) s0 s"
      by simp
    from N have N': "n < getNumTimeSteps p" by (simp add: S(1))
    from fl have fl': "solve_step u n (alpha0, s) = Inl (e, sF)" by (simp add: c)
    show ?thesis
      apply (rule exI[of _ n])
      apply (rule exI[of _ alpha0])
      apply (rule exI[of _ s])
      apply (intro conjI head N' hu fl' sf)
      done
  qed
  have i: "getNumTimeSteps_out pre \<le> n \<and>
            hist_unchanged_outside (nat (getNumTimeSteps_out pre)) (nat n) s0 s \<and>
            (\<forall>alpha' s'. n < getNumTimeSteps p \<and> solve_step u n (alpha, s) = Inr (alpha', s') \<longrightarrow>
               step_frame (nat n) s s' \<and> solve_head u s0 (n + 1) (alpha', s')) \<and>
            (\<forall>e s'. solve_step u n (alpha, s) = Inl (e, s') \<longrightarrow> step_frame (nat n) s s') \<and>
            (\<forall>t. agree (nat n) s t \<longrightarrow>
               rel_sum err_eq (step_rel (nat (n + 1)))
                 (solve_step u n (alpha, s)) (solve_step u n (alpha, t)))"
    if head: "solve_head u s0 n (alpha, s)" for n alpha s
  proof (intro conjI allI impI)
    from b[OF head] show "getNumTimeSteps_out pre \<le> n"
      "hist_unchanged_outside (nat (getNumTimeSteps_out pre)) (nat n) s0 s" by simp_all
  next
    fix alpha' s'
    assume st: "n < getNumTimeSteps p \<and> solve_step u n (alpha, s) = Inr (alpha', s')"
    from c[OF head st] show "step_frame (nat n) s s'" "solve_head u s0 (n + 1) (alpha', s')"
      by simp_all
  next
    fix e s'
    assume "solve_step u n (alpha, s) = Inl (e, s')"
    then show "step_frame (nat n) s s'" by (rule d)
  next
    fix t
    assume "agree (nat n) s t"
    then show "rel_sum err_eq (step_rel (nat (n + 1)))
                 (solve_step u n (alpha, s)) (solve_step u n (alpha, t))" by (rule e)
  qed
  show ?thesis
  proof (intro conjI)
    show "\<forall>n k. 0 \<le> n \<and> n < getNumTimeSteps_out pre \<longrightarrow>
            at_vec (power s0) n = getPower pre n \<and> at_vec (rho s0) n = getRho pre n \<and>
            (0 \<le> k \<and> k < getNumPrecursors p \<longrightarrow>
               at_mat (concentrations s0) k n = getConcentration pre k n)"
      by (intro allI impI) (rule a)
    show "\<forall>out sN. solve u s0 = Inr (out, sN) \<longrightarrow>
            out = \<lparr> out_power = power sN, out_rho = rho sN,
                    out_concentrations = concentrations sN \<rparr> \<and>
            (\<exists>alphaN. solve_head u s0 (max (getNumTimeSteps_out pre) (getNumTimeSteps p))
                        (alphaN, sN)) \<and>
            (\<forall>n. getNumTimeSteps_out pre \<le> n \<and> n < getNumTimeSteps p \<longrightarrow>
               (\<exists>alpha0 s alpha s'.
                  solve_head u s0 n (alpha0, s) \<and>
                  hist_unchanged_outside (nat (getNumTimeSteps_out pre)) (nat n) s0 s \<and>
                  solve_step u n (alpha0, s) = Inr (alpha, s') \<and>
                  step_frame (nat n) s s' \<and> solve_head u s0 (n + 1) (alpha, s') \<and>
                  hist_unchanged_outside (nat (n + 1)) (num_time_steps p) s' sN \<and>
                  (\<forall>t. agree (nat n) s t \<longrightarrow>
                     rel_sum err_eq (step_rel (nat (n + 1)))
                       (solve_step u n (alpha0, s)) (solve_step u n (alpha0, t)))))"
      by (intro allI impI) (rule g)
    show "\<forall>e sF. solve u s0 = Inl (e, sF) \<longrightarrow>
            (\<exists>n alpha0 s.
               solve_head u s0 n (alpha0, s) \<and> n < getNumTimeSteps p \<and>
               hist_unchanged_outside (nat (getNumTimeSteps_out pre)) (nat n) s0 s \<and>
               solve_step u n (alpha0, s) = Inl (e, sF) \<and> step_frame (nat n) s sF)"
      by (intro allI impI) (rule h)
    show "\<forall>n alpha s. solve_head u s0 n (alpha, s) \<longrightarrow>
            getNumTimeSteps_out pre \<le> n \<and>
            hist_unchanged_outside (nat (getNumTimeSteps_out pre)) (nat n) s0 s \<and>
            (\<forall>alpha' s'. n < getNumTimeSteps p \<and> solve_step u n (alpha, s) = Inr (alpha', s') \<longrightarrow>
               step_frame (nat n) s s' \<and> solve_head u s0 (n + 1) (alpha', s')) \<and>
            (\<forall>e s'. solve_step u n (alpha, s) = Inl (e, s') \<longrightarrow> step_frame (nat n) s s') \<and>
            (\<forall>t. agree (nat n) s t \<longrightarrow>
               rel_sum err_eq (step_rel (nat (n + 1)))
                 (solve_step u n (alpha, s)) (solve_step u n (alpha, t)))"
      by (intro allI impI) (rule i)
    show "\<forall>e out s'. solve u s0 = Inl (e, s') \<or> solve u s0 = Inr (out, s') \<longrightarrow>
            hist_unchanged_outside (nat (getNumTimeSteps_out pre)) (num_time_steps p) s0 s'"
      by (intro allI impI) (rule f)
  qed
qed

text \<open>
  The one-group example, whose run completes: the seed at index 1, and step 2. The
  three-point example, whose run fails in step 2.
\<close>

theorem history_invariant_witness:
  "Solver ex4_params ex4_seed = Inr ex4_state \<and>
   at_vec (power ex4_state) 1 = getPower ex4_seed 1 \<and>
   at_vec (rho ex4_state) 1 = getRho ex4_seed 1 \<and>
   at_mat (concentrations ex4_state) 0 1 = getConcentration ex4_seed 0 1 \<and>
   solve ex_lib ex4_state =
     Inr (\<lparr> out_power = [1, 2, (- 2 - exp (ln 2 * 2) * 2) / (- (2 * ln 2) - 1)],
            out_rho = [0, 0, 0], out_concentrations = [[1, 1, 1]] \<rparr>,
          ex4_state\<lparr>power := [1, 2, (- 2 - exp (ln 2 * 2) * 2) / (- (2 * ln 2) - 1)],
                    zeta_hat := [1], concentrations := [[1, 1, 1]]\<rparr>) \<and>
   (\<exists>alpha0 s alpha s'.
      solve_head ex_lib ex4_state 2 (alpha0, s) \<and>
      hist_unchanged_outside 2 2 ex4_state s \<and>
      solve_step ex_lib 2 (alpha0, s) = Inr (alpha, s') \<and>
      step_frame 2 s s' \<and> solve_head ex_lib ex4_state 3 (alpha, s') \<and>
      hist_unchanged_outside 3 3 s'
        (ex4_state\<lparr>power := [1, 2, (- 2 - exp (ln 2 * 2) * 2) / (- (2 * ln 2) - 1)],
                    zeta_hat := [1], concentrations := [[1, 1, 1]]\<rparr>)) \<and>
   hist_unchanged_outside 2 3 ex4_state
     (ex4_state\<lparr>power := [1, 2, (- 2 - exp (ln 2 * 2) * 2) / (- (2 * ln 2) - 1)],
                 zeta_hat := [1], concentrations := [[1, 1, 1]]\<rparr>) \<and>
   Solver ex3_params ex_seed = Inr (ex3_state [1, 0, 0]) \<and>
   solve ex_lib (ex3_state [1, 0, 0]) = Inl (Terminate, ex3_state [1, 1, 0]) \<and>
   (\<exists>n alpha0 s.
      solve_head ex_lib (ex3_state [1, 0, 0]) n (alpha0, s) \<and> n < 3 \<and>
      hist_unchanged_outside 1 (nat n) (ex3_state [1, 0, 0]) s \<and>
      solve_step ex_lib n (alpha0, s) = Inl (Terminate, ex3_state [1, 1, 0]) \<and>
      step_frame (nat n) s (ex3_state [1, 1, 0]))"
proof -
  note T = history_invariant[OF ex4_Solver, of ex_lib]
  note T3 = history_invariant[OF ex3_Solver, of ex_lib]
  have h: "0 \<le> (1::int) \<and> 1 < getNumTimeSteps_out ex4_seed"
    "0 \<le> (0::int) \<and> 0 < getNumPrecursors ex4_params"
    "getNumTimeSteps_out ex4_seed \<le> 2 \<and> 2 < getNumTimeSteps ex4_params"
    by (simp_all add: getNumTimeSteps_out_def getNumPrecursors_def getNumTimeSteps_def ex4_defs)
  note T1 = T[THEN conjunct1, THEN spec, THEN spec, THEN mp, OF h(1)]
  from T1[of 0] h(2) have a: "at_vec (power ex4_state) 1 = getPower ex4_seed 1"
    "at_vec (rho ex4_state) 1 = getRho ex4_seed 1"
    "at_mat (concentrations ex4_state) 0 1 = getConcentration ex4_seed 0 1" by blast+
  note T2 = T[THEN conjunct2, THEN conjunct1, THEN spec, THEN spec, THEN mp, OF ex4_solve]
  from T2[THEN conjunct2, THEN conjunct2, THEN spec, THEN mp, OF h(3)] have "\<exists>alpha0 s alpha s'.
      solve_head ex_lib ex4_state 2 (alpha0, s) \<and>
      hist_unchanged_outside (nat (getNumTimeSteps_out ex4_seed)) (nat 2) ex4_state s \<and>
      solve_step ex_lib 2 (alpha0, s) = Inr (alpha, s') \<and>
      step_frame (nat 2) s s' \<and> solve_head ex_lib ex4_state (2 + 1) (alpha, s') \<and>
      hist_unchanged_outside (nat (2 + 1)) (num_time_steps ex4_params) s'
        (ex4_state\<lparr>power := [1, 2, (- 2 - exp (ln 2 * 2) * 2) / (- (2 * ln 2) - 1)],
                    zeta_hat := [1], concentrations := [[1, 1, 1]]\<rparr>)"
    by (elim exE conjE) (intro exI conjI)
  then have c: "\<exists>alpha0 s alpha s'.
      solve_head ex_lib ex4_state 2 (alpha0, s) \<and>
      hist_unchanged_outside 2 2 ex4_state s \<and>
      solve_step ex_lib 2 (alpha0, s) = Inr (alpha, s') \<and>
      step_frame 2 s s' \<and> solve_head ex_lib ex4_state 3 (alpha, s') \<and>
      hist_unchanged_outside 3 3 s'
        (ex4_state\<lparr>power := [1, 2, (- 2 - exp (ln 2 * 2) * 2) / (- (2 * ln 2) - 1)],
                    zeta_hat := [1], concentrations := [[1, 1, 1]]\<rparr>)"
    by (simp add: getNumTimeSteps_out_def ex4_seed_def ex4_params_def)
  from T[THEN conjunct2, THEN conjunct2, THEN conjunct2, THEN conjunct2, THEN spec, THEN spec,
      THEN spec, THEN mp, OF disjI2, OF ex4_solve]
  have "hist_unchanged_outside (nat (getNumTimeSteps_out ex4_seed))
     (num_time_steps ex4_params) ex4_state
     (ex4_state\<lparr>power := [1, 2, (- 2 - exp (ln 2 * 2) * 2) / (- (2 * ln 2) - 1)],
                 zeta_hat := [1], concentrations := [[1, 1, 1]]\<rparr>)" .
  then have f: "hist_unchanged_outside 2 3 ex4_state
     (ex4_state\<lparr>power := [1, 2, (- 2 - exp (ln 2 * 2) * 2) / (- (2 * ln 2) - 1)],
                 zeta_hat := [1], concentrations := [[1, 1, 1]]\<rparr>)"
    by (simp add: getNumTimeSteps_out_def ex4_seed_def ex4_params_def)
  from T3[THEN conjunct2, THEN conjunct2, THEN conjunct1, THEN spec, THEN spec, THEN mp,
      OF ex3_solve]
  have "\<exists>n alpha0 s.
      solve_head ex_lib (ex3_state [1, 0, 0]) n (alpha0, s) \<and> n < getNumTimeSteps ex3_params \<and>
      hist_unchanged_outside (nat (getNumTimeSteps_out ex_seed)) (nat n) (ex3_state [1, 0, 0]) s \<and>
      solve_step ex_lib n (alpha0, s) = Inl (Terminate, ex3_state [1, 1, 0]) \<and>
      step_frame (nat n) s (ex3_state [1, 1, 0])" .
  then have g: "\<exists>n alpha0 s.
      solve_head ex_lib (ex3_state [1, 0, 0]) n (alpha0, s) \<and> n < 3 \<and>
      hist_unchanged_outside 1 (nat n) (ex3_state [1, 0, 0]) s \<and>
      solve_step ex_lib n (alpha0, s) = Inl (Terminate, ex3_state [1, 1, 0]) \<and>
      step_frame (nat n) s (ex3_state [1, 1, 0])"
    by (simp add: getNumTimeSteps_out_def getNumTimeSteps_def ex_seed_def ex3_params_def)
  from a c f g ex4_Solver ex4_solve ex3_Solver ex3_solve show ?thesis by (intro conjI)
qed

subsection \<open>C6\<close>

text \<open>
  Claim C6. \<^verbatim>\<open>assembleGlobalOutput\<close> passes the precomputed prefix through: its result
  is built from \<^verbatim>\<open>precomp\<close> alone, so it is the same whatever the histories and the
  scratch of the solver hold and whatever fine solvers it owns, and it is the same
  before and after \<^verbatim>\<open>solve\<close>.
\<close>

theorem assembleGlobalOutput_passthrough:
  "assembleGlobalOutput SolverOutput (Solver_obj m fs) = SolverOutput (precomp m) \<and>
   assembleGlobalOutput SolverOutput
     (Solver_obj (m\<lparr>power := pw, rho := rh, concentrations := c, omega := om, zeta_hat := zh\<rparr>) fs')
     = assembleGlobalOutput SolverOutput (Solver_obj m fs) \<and>
   (\<forall>out m'. solve u m = Inr (out, m') \<longrightarrow>
      assembleGlobalOutput SolverOutput (Solver_obj m' fs')
        = assembleGlobalOutput SolverOutput (Solver_obj m fs))"
  by (auto simp: assembleGlobalOutput_def dest!: solve_frame simp: hist_unchanged_outside_def)

text \<open>On the two-point example, before and after a completed run.\<close>

theorem assembleGlobalOutput_passthrough_witness:
  "solve ex_lib (ex_state 0) =
     Inr (\<lparr> out_power = [1, 1], out_rho = [0, 0], out_concentrations = [] \<rparr>,
          (ex_state 0)\<lparr>power := [1, 1]\<rparr>) \<and>
   assembleGlobalOutput out_power (Solver_obj ((ex_state 0)\<lparr>power := [1, 1]\<rparr>) []) = [1] \<and>
   assembleGlobalOutput out_power (Solver_obj (ex_state 0) []) = [1]"
  using assembleGlobalOutput_passthrough[of out_power "ex_state 0" "[]" _ _ _ _ _ "[]" ex_lib]
    ex_solve_0
  by (simp add: ex_defs)

subsection \<open>C7\<close>

text \<open>
  Claim C7. \<^verbatim>\<open>createFineSolver\<close> constructs a solver from the caller's parameters
  interpolated onto the fine grid and from the caller's precomputed history sliced at
  the coarse index, appends it to the caller's fine solvers and returns it. The new
  solver is as its constructor left it (the seed, then zeros: no step has run, and it
  owns no fine solver), and the caller's own members are unchanged.
\<close>

theorem createFineSolver_effect:
  assumes "createFineSolver interpolate createPrecomputed fine_time coarse_index this
             = Inr (fine, this')"
  shows "Solver (interpolate (params (members this)) fine_time)
                (createPrecomputed (precomp (members this)) coarse_index) = Inr (members fine) \<and>
         params (members fine) = interpolate (params (members this)) fine_time \<and>
         precomp (members fine) = createPrecomputed (precomp (members this)) coarse_index \<and>
         power (members fine) =
           out_power (precomp (members fine)) @
           replicate (num_time_steps (params (members fine)) -
                      length (out_power (precomp (members fine)))) 0 \<and>
         fine_solvers fine = [] \<and>
         fine_solvers this' = fine_solvers this @ [fine] \<and>
         members this' = members this"
proof -
  from assms have S: "Solver (interpolate (params (members this)) fine_time)
      (createPrecomputed (precomp (members this)) coarse_index) = Inr (members fine)"
    and rest: "fine_solvers fine = []" "fine_solvers this' = fine_solvers this @ [fine]"
      "members this' = members this"
    by (auto simp: createFineSolver_def bindE_eq_Inr Let_def)
  note C = Solver_Inr[OF S]
  from S rest C(1,2) C(5) show ?thesis by simp
qed

text \<open>A fine solver on three points, made from the two-point example after its run.\<close>

theorem createFineSolver_effect_witness:
  "createFineSolver ex_interpolate ex_createPrecomputed [0, 1 / 2, 1] 0
     (Solver_obj ((ex_state 0)\<lparr>power := [1, 1]\<rparr>) []) =
   Inr (Solver_obj (ex3_state [1, 0, 0]\<lparr>params := ex_interpolate (ex_params 0) [0, 1 / 2, 1]\<rparr>) [],
        Solver_obj ((ex_state 0)\<lparr>power := [1, 1]\<rparr>)
          [Solver_obj (ex3_state [1, 0, 0]\<lparr>params := ex_interpolate (ex_params 0) [0, 1 / 2, 1]\<rparr>) []]) \<and>
   Solver (ex_interpolate (ex_params 0) [0, 1 / 2, 1]) (ex_createPrecomputed ex_seed 0) =
   Inr (ex3_state [1, 0, 0]\<lparr>params := ex_interpolate (ex_params 0) [0, 1 / 2, 1]\<rparr>)"
  using createFineSolver_effect[OF ex_createFineSolver] ex_createFineSolver
  by (simp add: ex_defs)

subsection \<open>C8\<close>

text \<open>
  Claim C8 (as amended). The solver validates nothing and has no \<open>MalformedInput\<close>
  failure. A prefix shorter than required, that is an empty one on a non-empty grid, is
  accepted by the constructor, which leaves every history entry zero; \<^verbatim>\<open>solve\<close> then
  enters its loop and fails in the first step, \<open>n = 0\<close>, with \<open>OutOfRange\<close>, and no history
  entry has been written at that point.
\<close>

theorem solve_empty_prefix_fails:
  assumes "getNumTimeSteps_out pre = 0"
  shows "\<exists>s0. Solver p pre = Inr s0 \<and>
           power s0 = replicate (num_time_steps p) 0 \<and> rho s0 = replicate (num_time_steps p) 0 \<and>
           concentrations s0 = replicate (num_precursors p) (replicate (num_time_steps p) 0) \<and>
           (0 < getNumTimeSteps p \<longrightarrow>
              solve_step u (getNumTimeSteps_out pre) (0, s0) = Inl (OutOfRange, s0) \<and>
              solve u s0 = Inl (OutOfRange, s0))"
proof -
  let ?s = "\<lparr> params = p, precomp = pre, power = replicate (num_time_steps p) 0,
           rho = replicate (num_time_steps p) 0, omega = replicate (num_precursors p) 0,
           zeta_hat = replicate (num_precursors p) 0,
           concentrations = replicate (num_precursors p) (replicate (num_time_steps p) 0) \<rparr>"
  from assms have S: "Solver p pre = Inr ?s" by (rule Solver_empty_prefix)
  have 1: "solve_step u (getNumTimeSteps_out pre) (0, ?s) = Inl (OutOfRange, ?s)"
    using assms by (simp add: solve_step_nonpos)
  have 2: "solve u ?s = Inl (OutOfRange, ?s)" if "0 < getNumTimeSteps p"
    using assms that by (intro solve_empty_prefix) simp_all
  from S 1 2 show ?thesis by (intro exI[of _ ?s]) simp
qed

text \<open>The two-point grid with no seed.\<close>

theorem solve_empty_prefix_fails_witness:
  "getNumTimeSteps_out ex_empty_seed = 0 \<and> 0 < getNumTimeSteps (ex_params 0) \<and>
   Solver (ex_params 0) ex_empty_seed = Inr ((ex_state 0)\<lparr>precomp := ex_empty_seed, power := [0, 0]\<rparr>) \<and>
   solve_step ex_lib 0 (0, (ex_state 0)\<lparr>precomp := ex_empty_seed, power := [0, 0]\<rparr>) =
     Inl (OutOfRange, (ex_state 0)\<lparr>precomp := ex_empty_seed, power := [0, 0]\<rparr>) \<and>
   solve ex_lib ((ex_state 0)\<lparr>precomp := ex_empty_seed, power := [0, 0]\<rparr>) =
     Inl (OutOfRange, (ex_state 0)\<lparr>precomp := ex_empty_seed, power := [0, 0]\<rparr>)"
proof -
  have E: "getNumTimeSteps_out ex_empty_seed = 0" "0 < getNumTimeSteps (ex_params 0)"
    by (simp_all add: getNumTimeSteps_out_def getNumTimeSteps_def ex_empty_seed_def ex_params_def)
  from solve_empty_prefix_fails[OF E(1), of "ex_params 0" ex_lib] E(2) ex_empty_Solver
  have "solve_step ex_lib (getNumTimeSteps_out ex_empty_seed)
           (0, (ex_state 0)\<lparr>precomp := ex_empty_seed, power := [0, 0]\<rparr>) =
         Inl (OutOfRange, (ex_state 0)\<lparr>precomp := ex_empty_seed, power := [0, 0]\<rparr>) \<and>
       solve ex_lib ((ex_state 0)\<lparr>precomp := ex_empty_seed, power := [0, 0]\<rparr>) =
         Inl (OutOfRange, (ex_state 0)\<lparr>precomp := ex_empty_seed, power := [0, 0]\<rparr>)"
    by auto
  with E ex_empty_Solver show ?thesis by simp
qed

text \<open>
  Claim C8 as stated fails. The parameters of the one-group example are well formed; with
  an empty prefix the constructor accepts them, so nothing is signalled before the
  stepping begins. The failure comes from step 0 of the loop, whose reads at index
  \<open>n - 1 = - 1\<close> are outside their vectors (\<^verbatim>\<open>power.at(n - 1)\<close> of the solver's own
  history among them), and it is \<open>OutOfRange\<close>, not a failure that names malformed input.
\<close>

theorem solve_malformed_counterexample:
  "Solver ex4_params ex4_empty_seed = Inr (ex4_state\<lparr>precomp := ex4_empty_seed, power := [0, 0, 0],
     concentrations := [[0, 0, 0]]\<rparr>) \<and>
   at_vec (power (ex4_state\<lparr>precomp := ex4_empty_seed, power := [0, 0, 0],
     concentrations := [[0, 0, 0]]\<rparr>)) (0 - 1) = Inl OutOfRange \<and>
   solve_step ex_lib 0 (0, ex4_state\<lparr>precomp := ex4_empty_seed, power := [0, 0, 0],
     concentrations := [[0, 0, 0]]\<rparr>) =
     Inl (OutOfRange, ex4_state\<lparr>precomp := ex4_empty_seed, power := [0, 0, 0],
       concentrations := [[0, 0, 0]]\<rparr>) \<and>
   solve ex_lib (ex4_state\<lparr>precomp := ex4_empty_seed, power := [0, 0, 0],
     concentrations := [[0, 0, 0]]\<rparr>) =
     Inl (OutOfRange, ex4_state\<lparr>precomp := ex4_empty_seed, power := [0, 0, 0],
       concentrations := [[0, 0, 0]]\<rparr>)"
  by (simp add: solve_def step_defs Solver_def Solver_conc_def computePower_group_def
      throwing_def bindE_def getter_defs ex_defs ex4_defs ex4_empty_seed_def for_loop.simps Let_def
      eval_nat_numeral)

subsection \<open>C9\<close>

text \<open>
  Claim C9. \<^verbatim>\<open>solve\<close> is deterministic. Two solvers with the same parameters and the same
  precomputed prefix, whose histories hold the same seed entries (as two solvers
  constructed from identical inputs do), end alike: in the same failure, or with the
  same power, reactivity and concentration sequences, whatever their scratch vectors
  and their entries from the seed on held before. In particular running \<^verbatim>\<open>solve\<close> a second
  time on the same solver gives the same sequences again.
\<close>

theorem solve_deterministic:
  "(agree (nat (getNumTimeSteps_out (precomp s))) s t \<longrightarrow>
      outcome (solve u t) = outcome (solve u s)) \<and>
   (wf_state s \<longrightarrow> (\<forall>out s'. solve u s = Inr (out, s') \<longrightarrow> outcome (solve u s') = Inr out))"
proof -
  have "outcome (solve u s') = Inr out" if wf: "wf_state s" and r: "solve u s = Inr (out, s')"
    for out s'
  proof -
    note W = solve_wf[OF r wf]
    from W wf have "agree (nat (getNumTimeSteps_out (precomp s))) s s'"
      by (simp add: agree_def)
    then have "outcome (solve u s') = outcome (solve u s)" by (rule solve_rel)
    with r show ?thesis by (simp add: outcome_def)
  qed
  then show ?thesis by (auto intro: solve_rel)
qed

text \<open>
  The one-group example and a copy of it with other scratch and post-seed entries;
  and a second run of the example after its first.
\<close>

theorem solve_deterministic_witness:
  "agree (nat (getNumTimeSteps_out (precomp ex4_state))) ex4_state ex4_other \<and>
   outcome (solve ex_lib ex4_other) = outcome (solve ex_lib ex4_state) \<and>
   wf_state ex4_state \<and>
   outcome (solve ex_lib
     (ex4_state\<lparr>power := [1, 2, (- 2 - exp (ln 2 * 2) * 2) / (- (2 * ln 2) - 1)],
                 zeta_hat := [1], concentrations := [[1, 1, 1]]\<rparr>))
   = Inr \<lparr> out_power = [1, 2, (- 2 - exp (ln 2 * 2) * 2) / (- (2 * ln 2) - 1)],
           out_rho = [0, 0, 0], out_concentrations = [[1, 1, 1]] \<rparr>"
proof -
  have wf: "wf_state ex4_state" by (simp add: wf_state_def ex4_defs)
  show ?thesis
    using solve_deterministic[of ex4_state ex4_other ex_lib] ex4_agree wf ex4_solve by simp
qed

subsection \<open>C10\<close>

text \<open>
  Claim C10. For a solver constructed from parameter arrays that all have the length of
  the time grid and a precomputed prefix with at least one entry, no access of
  \<^verbatim>\<open>solve\<close> and its helpers leaves its vector: a run ends normally or in \<open>Terminate\<close>,
  never in \<open>OutOfRange\<close> or \<open>UndefinedBehaviour\<close>. The prefix must not be empty: with an
  empty prefix on a non-empty grid the first step reads index \<open>- 1\<close> and the run ends
  in \<open>OutOfRange\<close>.
\<close>

theorem solve_in_bounds:
  assumes "Solver p pre = Inr s0"
  shows "(wf_params p \<and> 1 \<le> getNumTimeSteps_out pre \<longrightarrow>
           (\<forall>e s'. solve u s0 = Inl (e, s') \<longrightarrow> e = Terminate)) \<and>
         (getNumTimeSteps_out pre = 0 \<and> 0 < getNumTimeSteps p \<longrightarrow>
           solve u s0 = Inl (OutOfRange, s0))"
proof -
  note S = Solver_Inr[OF assms]
  have 1: "e = Terminate"
    if "wf_params p" "1 \<le> getNumTimeSteps_out pre" "solve u s0 = Inl (e, s')" for e s'
  proof -
    from that(1,2) have "ok_or_abort (solve u s0)"
      by (intro solve_ok_or_abort Solver_wf[OF assms]) (simp_all add: S)
    with that(3) show ?thesis by simp
  qed
  have 2: "solve u s0 = Inl (OutOfRange, s0)"
    if "getNumTimeSteps_out pre = 0" "0 < getNumTimeSteps p"
    using that by (intro solve_empty_prefix) (simp_all add: S)
  from 1 2 show ?thesis by blast
qed

text \<open>One group on three points seeded at 0 and 1; and the two-point grid with no seed.\<close>

theorem solve_in_bounds_witness:
  "Solver ex4_params ex4_seed = Inr ex4_state \<and> wf_params ex4_params \<and>
   1 \<le> getNumTimeSteps_out ex4_seed \<and>
   solve ex_lib ex4_state \<noteq> Inl (OutOfRange, ex4_state) \<and>
   solve ex_lib ex4_state \<noteq> Inl (UndefinedBehaviour, ex4_state) \<and>
   getNumTimeSteps_out ex_empty_seed = 0 \<and> 0 < getNumTimeSteps (ex_params 0) \<and>
   solve ex_lib ((ex_state 0)\<lparr>precomp := ex_empty_seed, power := [0, 0]\<rparr>) =
     Inl (OutOfRange, (ex_state 0)\<lparr>precomp := ex_empty_seed, power := [0, 0]\<rparr>)"
proof -
  have wf: "wf_params ex4_params" by (simp add: wf_params_def ex4_params_def)
  have L: "1 \<le> getNumTimeSteps_out ex4_seed" by (simp add: getNumTimeSteps_out_def ex4_seed_def)
  have E: "getNumTimeSteps_out ex_empty_seed = 0" "0 < getNumTimeSteps (ex_params 0)"
    by (simp_all add: getNumTimeSteps_out_def getNumTimeSteps_def ex_empty_seed_def ex_params_def)
  show ?thesis
    using solve_in_bounds[OF ex4_Solver, of ex_lib] solve_in_bounds[OF ex_empty_Solver, of ex_lib]
      ex4_Solver wf L E
    by auto
qed

end
